(* ===== verification/Prelude.thy ===== *)
theory Prelude
  imports Complex_Main "HOL-Library.AList" "HOL-Library.Sublist"
begin

text \<open>
  What the components share: the outcome of code that may throw, the JavaScript string and
  \<open>Map\<close> operations the sources call, and the two interfaces several components implement
  (a state machine with an invariant, a log that keeps its newest entries).

  A JavaScript string is a \<^typ>\<open>string\<close>, so its code units range over Latin-1 (0 to 255);
  \<open>trim\<close>, \<open>toLowerCase\<close> and \<open>toUpperCase\<close> follow the Unicode tables on that range.
  A JavaScript \<open>Map\<close> is an association list in insertion order: \<open>AList.update\<close> changes
  a present key in place and appends a new one, as \<open>Map.set\<close> does.
  Times are milliseconds since the epoch, as \<open>Date.now()\<close> returns them.
\<close>

named_theorems js_defs "definitions of the string and map operations, for evaluating terms"

section \<open>Outcomes\<close>

text \<open>A thrown value: \<open>new Error(message)\<close>, a \<open>TypeError\<close> or \<open>RangeError\<close> of the
  runtime, or a system error with its \<open>code\<close>.\<close>

datatype js_error = Error string | TypeError | RangeError | SysError string

type_synonym 'a res = "js_error + 'a"

definition bindE :: "'a res \<Rightarrow> ('a \<Rightarrow> 'b res) \<Rightarrow> 'b res" where
  "bindE m f = (case m of Inl e \<Rightarrow> Inl e | Inr x \<Rightarrow> f x)"

fun mapE :: "('a \<Rightarrow> 'b res) \<Rightarrow> 'a list \<Rightarrow> 'b list res" where
  "mapE f [] = Inr []"
| "mapE f (x # xs) = bindE (f x) (\<lambda>y. bindE (mapE f xs) (\<lambda>ys. Inr (y # ys)))"

section \<open>Strings\<close>

type_synonym ms = int

text \<open>The Latin-1 code units that \<open>trim\<close> and the regular expression class \<open>\s\<close> take as white space.\<close>

definition is_ws :: "char \<Rightarrow> bool" where
  "is_ws c \<longleftrightarrow> of_char c \<in> {9, 10, 11, 12, 13, 32, 160 :: nat}"

definition trim :: "string \<Rightarrow> string" where
  "trim s = rev (dropWhile is_ws (rev (dropWhile is_ws s)))"

definition lower_char :: "char \<Rightarrow> char" where
  "lower_char c = (let n = of_char c :: nat in
     if 65 \<le> n \<and> n \<le> 90 \<or> 192 \<le> n \<and> n \<le> 222 \<and> n \<noteq> 215 then char_of (n + 32) else c)"

definition toLowerCase :: "string \<Rightarrow> string" where
  "toLowerCase s = map lower_char s"

text \<open>Upper case of the sharp s is two letters; the two Latin-1 letters whose upper case
  lies outside Latin-1 (codes 181 and 255) are left as they are.\<close>

definition latin_lower :: "nat \<Rightarrow> bool" where
  "latin_lower n \<longleftrightarrow> 97 \<le> n \<and> n \<le> 122 \<or> 224 \<le> n \<and> n \<le> 254 \<and> n \<noteq> 247"

definition upper_char :: "char \<Rightarrow> string" where
  "upper_char c = (let n = of_char c :: nat in
     if n = 223 then ''SS'' else if latin_lower n then [char_of (n - 32)] else [c])"

definition toUpperCase :: "string \<Rightarrow> string" where
  "toUpperCase s = concat (map upper_char s)"

definition startsWith :: "string \<Rightarrow> string \<Rightarrow> bool" where
  "startsWith s p \<longleftrightarrow> prefix p s"

definition endsWith :: "string \<Rightarrow> string \<Rightarrow> bool" where
  "endsWith s p \<longleftrightarrow> suffix p s"

definition str_includes :: "string \<Rightarrow> string \<Rightarrow> bool" where
  "str_includes s p \<longleftrightarrow> sublist p s"

text \<open>\<open>s.split(c)\<close> for a one-character separator: never an empty list.\<close>

fun split_char :: "char \<Rightarrow> string \<Rightarrow> string list" where
  "split_char c [] = [[]]"
| "split_char c (x # xs) =
     (if x = c then [] # split_char c xs
      else (case split_char c xs of [] \<Rightarrow> [[x]] | l # ls \<Rightarrow> (x # l) # ls))"

fun join_with :: "string \<Rightarrow> string list \<Rightarrow> string" where
  "join_with sep [] = []"
| "join_with sep [l] = l"
| "join_with sep (l # ls) = l @ sep @ join_with sep ls"

text \<open>\<open>lastIndexOf(c)\<close>: the part before the last occurrence and the part after it.\<close>

fun split_last :: "char \<Rightarrow> string \<Rightarrow> (string \<times> string) option" where
  "split_last c [] = None"
| "split_last c (x # xs) =
     (case split_last c xs of
        Some (a, b) \<Rightarrow> Some (x # a, b)
      | None \<Rightarrow> if x = c then Some ([], xs) else None)"

definition is_digit :: "char \<Rightarrow> bool" where
  "is_digit c \<longleftrightarrow> 48 \<le> (of_char c :: nat) \<and> of_char c \<le> (57 :: nat)"

definition digit_val :: "char \<Rightarrow> nat" where
  "digit_val c = of_char c - 48"

text \<open>The test \<open>/^\d+$/\<close> and the value \<open>Number\<close> or \<open>parseInt\<close> give such a string.\<close>

definition all_digits :: "string \<Rightarrow> bool" where
  "all_digits s \<longleftrightarrow> s \<noteq> [] \<and> list_all is_digit s"

fun dec_acc :: "nat \<Rightarrow> string \<Rightarrow> nat" where
  "dec_acc n [] = n"
| "dec_acc n (c # cs) = dec_acc (10 * n + digit_val c) cs"

definition dec_val :: "string \<Rightarrow> nat" where
  "dec_val s = dec_acc 0 s"

text \<open>\<open>String(n)\<close> of a natural number.\<close>

fun show_nat :: "nat \<Rightarrow> string" where
  "show_nat n = (if n < 10 then [char_of (48 + n)] else show_nat (n div 10) @ [char_of (48 + n mod 10)])"

declare show_nat.simps [simp del]

text \<open>\<open>Number.parseInt(s, 10)\<close>: leading blanks, an optional sign, the longest run of digits;
  \<open>None\<close> is NaN. Values beyond \<open>2^53\<close>, which the runtime rounds, are kept exact.\<close>

definition parse_unsigned :: "string \<Rightarrow> int option" where
  "parse_unsigned s = (let ds = takeWhile is_digit s in if ds = [] then None else Some (int (dec_val ds)))"

definition parseInt :: "string \<Rightarrow> int option" where
  "parseInt s =
     (case dropWhile is_ws s of
        [] \<Rightarrow> None
      | c # cs \<Rightarrow>
          if c = CHR ''-'' then map_option uminus (parse_unsigned cs)
          else if c = CHR ''+'' then parse_unsigned cs
          else parse_unsigned (c # cs))"

text \<open>\<open>Array.from(new Set(xs))\<close>: the first occurrence of each element, in order.\<close>

definition nub :: "'a list \<Rightarrow> 'a list" where
  "nub xs = rev (remdups (rev xs))"

lemmas [js_defs] = bindE_def is_ws_def trim_def lower_char_def toLowerCase_def upper_char_def
  latin_lower_def toUpperCase_def startsWith_def endsWith_def str_includes_def is_digit_def digit_val_def
  all_digits_def dec_val_def

section \<open>Lemmas on outcomes\<close>

lemma bindE_Inr [simp]: "bindE (Inr x) f = f x"
  by (simp add: bindE_def)

lemma bindE_Inl [simp]: "bindE (Inl e) f = Inl e"
  by (simp add: bindE_def)

lemma bindE_eq_Inr: "bindE m f = Inr y \<longleftrightarrow> (\<exists>x. m = Inr x \<and> f x = Inr y)"
  by (cases m) auto

lemma bindE_eq_Inl: "bindE m f = Inl e \<longleftrightarrow> m = Inl e \<or> (\<exists>x. m = Inr x \<and> f x = Inl e)"
  by (cases m) auto

lemma mapE_Inr_iff: "mapE f xs = Inr ys \<longleftrightarrow> list_all2 (\<lambda>x y. f x = Inr y) xs ys"
  by (induction xs arbitrary: ys) (auto simp: bindE_eq_Inr list_all2_Cons1)

section \<open>Lemmas on strings\<close>

lemma dropWhile_idem [simp]: "dropWhile P (dropWhile P s) = dropWhile P s"
  by (induction s) auto

lemma dropWhile_hd_id: "s = [] \<or> \<not> P (hd s) \<Longrightarrow> dropWhile P s = s"
  by (cases s) auto

lemma dropWhile_eq_suffix: "\<exists>p. s = p @ dropWhile P s"
  by (metis takeWhile_dropWhile_id)

lemma trim_Nil [simp]: "trim [] = []"
  by (simp add: trim_def)

lemma last_dropWhile: "dropWhile P s \<noteq> [] \<Longrightarrow> last (dropWhile P s) = last s"
  by (metis last_appendR takeWhile_dropWhile_id)

lemma trim_ends: "trim s \<noteq> [] \<Longrightarrow> \<not> is_ws (hd (trim s)) \<and> \<not> is_ws (last (trim s))"
proof -
  assume ne: "trim s \<noteq> []"
  define t where "t = dropWhile is_ws s"
  define u where "u = dropWhile is_ws (rev t)"
  have u: "trim s = rev u" "u \<noteq> []" using ne by (auto simp: trim_def t_def u_def)
  have "t \<noteq> []" using u by (auto simp: u_def)
  then have ht: "\<not> is_ws (hd t)" unfolding t_def by (metis hd_dropWhile)
  have "hd (rev u) = last u" using u by (simp add: hd_rev)
  also have "\<dots> = last (rev t)" using u last_dropWhile unfolding u_def by blast
  also have "\<dots> = hd t" using \<open>t \<noteq> []\<close> by (simp add: last_rev)
  finally have 1: "\<not> is_ws (hd (trim s))" using ht u by simp
  have "last (rev u) = hd u" using u by (simp add: last_rev)
  then have "\<not> is_ws (last (trim s))" using u unfolding u_def by (metis hd_dropWhile)
  with 1 show ?thesis by simp
qed

lemma trim_id: "s = [] \<or> \<not> is_ws (hd s) \<and> \<not> is_ws (last s) \<Longrightarrow> trim s = s"
  by (cases "s = []") (auto simp: trim_def dropWhile_hd_id hd_rev)

lemma trim_idem [simp]: "trim (trim s) = trim s"
  using trim_ends trim_id by blast

lemma trim_append_ws:
  assumes "list_all is_ws tail" and "s \<noteq> []" and "\<not> is_ws (hd s)"
  shows "trim (s @ tail) = trim s"
proof -
  have "dropWhile is_ws (rev tail @ rev s) = dropWhile is_ws (rev s)"
    using assms(1) by (simp add: dropWhile_append list_all_iff)
  moreover have "dropWhile is_ws (s @ tail) = s @ tail" "dropWhile is_ws s = s"
    using assms(2,3) by (cases s; simp)+
  ultimately show ?thesis by (simp add: trim_def)
qed

lemma set_trim: "set (trim s) \<subseteq> set s"
  by (auto simp: trim_def dest!: set_dropWhileD)

lemma trim_eq_Nil_iff: "trim s = [] \<longleftrightarrow> list_all is_ws s"
proof
  assume "trim s = []"
  then have "list_all is_ws (rev (dropWhile is_ws s))"
    by (auto simp: trim_def dropWhile_eq_Nil_conv list_all_iff)
  then show "list_all is_ws s"
    by (metis dropWhile_eq_Nil_conv hd_dropWhile hd_in_set list.pred_set set_rev)
next
  assume "list_all is_ws s"
  then show "trim s = []" by (auto simp: trim_def list_all_iff dest: set_dropWhileD)
qed

lemma of_char_lower:
  "of_char (lower_char c) = (let n = of_char c :: nat in
     if 65 \<le> n \<and> n \<le> 90 \<or> 192 \<le> n \<and> n \<le> 222 \<and> n \<noteq> 215 then n + 32 else n)"
  by (auto simp: lower_char_def Let_def)

lemma lower_char_idem [simp]: "lower_char (lower_char c) = lower_char c"
  unfolding lower_char_def [of "lower_char c"] of_char_lower by (auto simp: Let_def)

lemma is_ws_lower [simp]: "is_ws (lower_char c) = is_ws c"
  unfolding is_ws_def of_char_lower by (auto simp: Let_def)

lemma toLowerCase_idem [simp]: "toLowerCase (toLowerCase s) = toLowerCase s"
  by (simp add: toLowerCase_def)

lemma lower_char_fixed:
  assumes "lower_char c = d" and "(of_char d :: nat) < 97"
  shows "c = d"
proof -
  have "(of_char c :: nat) = of_char d"
    using assms of_char_lower [of c] by (auto simp: Let_def split: if_splits)
  then show ?thesis by simp
qed

lemma trim_toLowerCase: "trim (toLowerCase s) = toLowerCase (trim s)"
  by (simp add: trim_def toLowerCase_def dropWhile_map rev_map comp_def)

lemma toLowerCase_eq_Nil [simp]: "toLowerCase s = [] \<longleftrightarrow> s = []"
  by (simp add: toLowerCase_def)

lemma upper_cases:
  assumes "d \<in> set (upper_char c)"
  obtains "of_char d = (83 :: nat)" "of_char c = (223 :: nat)"
  | "latin_lower (of_char c)" "(of_char d :: nat) = of_char c - 32"
  | "d = c" "\<not> latin_lower (of_char c)" "of_char c \<noteq> (223 :: nat)"
  using assms by (auto simp: upper_char_def latin_lower_def Let_def split: if_splits)

lemma is_ws_upper: "d \<in> set (upper_char c) \<Longrightarrow> is_ws d = is_ws c"
  by (erule upper_cases) (simp_all add: is_ws_def latin_lower_def, presburger+)

lemma upper_char_idem: "d \<in> set (upper_char c) \<Longrightarrow> upper_char d = [d]"
  by (erule upper_cases) (auto simp: upper_char_def Let_def latin_lower_def)
lemma upper_char_nonempty [simp]: "upper_char c \<noteq> []"
  by (auto simp: upper_char_def Let_def)

lemma concat_upper_id: "\<forall>x \<in> set xs. upper_char x = [x] \<Longrightarrow> concat (map upper_char xs) = xs"
  by (induction xs) auto

lemma toUpperCase_idem [simp]: "toUpperCase (toUpperCase s) = toUpperCase s"
  unfolding toUpperCase_def [of "toUpperCase s"]
  by (rule concat_upper_id) (auto simp: toUpperCase_def dest: upper_char_idem)

lemma hd_toUpperCase: "s \<noteq> [] \<Longrightarrow> hd (toUpperCase s) \<in> set (upper_char (hd s))"
  by (cases s) (auto simp: toUpperCase_def hd_append)

lemma last_toUpperCase: "s \<noteq> [] \<Longrightarrow> last (toUpperCase s) \<in> set (upper_char (last s))"
  by (cases s rule: rev_cases) (auto simp: toUpperCase_def)

lemma toUpperCase_eq_Nil [simp]: "toUpperCase s = [] \<longleftrightarrow> s = []"
  by (cases s) (auto simp: toUpperCase_def)

lemma toUpperCase_Nil [simp]: "toUpperCase [] = []"
  by simp

lemma trim_toUpperCase [simp]: "trim (toUpperCase (trim s)) = toUpperCase (trim s)"
proof (cases "trim s = []")
  case False
  then have "\<not> is_ws (hd (toUpperCase (trim s)))" "\<not> is_ws (last (toUpperCase (trim s)))"
    using trim_ends [OF False] hd_toUpperCase [OF False] last_toUpperCase [OF False]
    by (auto simp: is_ws_upper)
  then show ?thesis by (simp add: trim_id)
qed simp

lemma split_char_nonempty [simp]: "split_char c s \<noteq> []"
  by (induction s) (auto split: list.splits)

lemma split_char_join: "join_with [c] (split_char c s) = s"
proof (induction s)
  case (Cons x xs)
  obtain l ls where e: "split_char c xs = l # ls" by (cases "split_char c xs") auto
  show ?case
  proof (cases "x = c")
    case True then show ?thesis using Cons e by (cases ls) auto
  next
    case False then show ?thesis using Cons e by (cases ls) auto
  qed
qed simp

lemma split_char_no_sep: "l \<in> set (split_char c s) \<Longrightarrow> c \<notin> set l"
proof (induction s arbitrary: l)
  case (Cons x xs)
  obtain l' ls where e: "split_char c xs = l' # ls" by (cases "split_char c xs") auto
  show ?case using Cons.prems Cons.IH e by (auto split: if_splits)
qed simp

lemma split_last_Some: "split_last c s = Some (a, b) \<Longrightarrow> s = a @ c # b \<and> c \<notin> set b"
proof (induction s arbitrary: a b)
  case (Cons x xs)
  show ?case
  proof (cases "split_last c xs")
    case None
    then have "c \<notin> set xs"
      by (induction xs) (auto split: option.splits if_splits)
    then show ?thesis using Cons None by (auto split: if_splits)
  next
    case (Some p) then show ?thesis using Cons by (cases p) auto
  qed
qed simp

lemma split_last_None_iff: "split_last c s = None \<longleftrightarrow> c \<notin> set s"
  by (induction s) (auto split: option.splits)

lemma split_last_append: "c \<notin> set b \<Longrightarrow> split_last c (a @ c # b) = Some (a, b)"
proof (induction a)
  case Nil then show ?case using split_last_None_iff [of c b] by simp
qed simp

subsection \<open>Decimal numerals\<close>

lemma dec_acc_append: "dec_acc n (xs @ ys) = dec_acc (dec_acc n xs) ys"
  by (induction n xs rule: dec_acc.induct) auto

lemma of_char_digit [simp]: "n < 10 \<Longrightarrow> of_char (char_of (48 + n) :: char) = 48 + (n::nat)"
  by simp

lemma dec_val_show_nat [simp]: "dec_val (show_nat n) = n"
proof (induction n rule: show_nat.induct)
  case (1 n)
  show ?case
  proof (cases "n < 10")
    case True
    then show ?thesis by (subst show_nat.simps) (simp add: dec_val_def digit_val_def)
  next
    case False
    then have "dec_acc 0 (show_nat (n div 10)) = n div 10" using 1 by (simp add: dec_val_def)
    moreover have "n mod 10 < 10" by simp
    ultimately show ?thesis using False
      by (subst show_nat.simps) (simp add: dec_val_def digit_val_def dec_acc_append)
  qed
qed

lemma show_nat_digits: "list_all is_digit (show_nat n)"
proof (induction n rule: show_nat.induct)
  case (1 n)
  have "m < 10 \<Longrightarrow> is_digit (char_of (48 + m))" for m :: nat by (simp add: is_digit_def)
  moreover have "n mod 10 < 10" by simp
  ultimately show ?case using 1 by (subst show_nat.simps) auto
qed

lemma show_nat_nonempty [simp]: "show_nat n \<noteq> []"
  by (subst show_nat.simps) simp

lemma all_digits_show_nat [simp]: "all_digits (show_nat n)"
  by (simp add: all_digits_def show_nat_digits)

lemma show_nat_inj [simp]: "show_nat m = show_nat n \<longleftrightarrow> m = n"
  by (metis dec_val_show_nat)

subsection \<open>First occurrences\<close>

lemma set_nub [simp]: "set (nub xs) = set xs"
  by (simp add: nub_def)

lemma distinct_nub [simp]: "distinct (nub xs)"
  by (simp add: nub_def)

lemma nub_distinct_id [simp]: "distinct xs \<Longrightarrow> nub xs = xs"
  by (simp add: nub_def distinct_remdups_id)

section \<open>Interfaces\<close>

text \<open>A component whose operations keep an invariant: every run of admissible operations keeps it.\<close>

locale machine =
  fixes step :: "'s \<Rightarrow> 'e \<Rightarrow> 's" and admissible :: "'e \<Rightarrow> bool" and good :: "'s \<Rightarrow> bool"
  assumes step_good: "good s \<Longrightarrow> admissible e \<Longrightarrow> good (step s e)"
begin

lemma run_good: "good s \<Longrightarrow> list_all admissible es \<Longrightarrow> good (foldl step s es)"
  by (induction es arbitrary: s) (auto intro: step_good)

end

text \<open>A log that keeps its newest \<open>cap\<close> entries, dropping from the front after each push.\<close>

locale bounded_log =
  fixes push :: "'l \<Rightarrow> 'a \<Rightarrow> 'l" and entries :: "'l \<Rightarrow> 'a list" and cap :: nat
  assumes entries_push: "entries (push l x) = drop (length (entries l) + 1 - cap) (entries l @ [x])"
begin

lemma push_bound: "length (entries l) \<le> cap \<Longrightarrow> length (entries (push l x)) \<le> cap"
  by (simp add: entries_push)

lemma run_bound: "length (entries l) \<le> cap \<Longrightarrow> length (entries (foldl push l xs)) \<le> cap"
  by (induction xs arbitrary: l) (auto intro: push_bound)

lemma run_keeps_newest:
  assumes "length (entries l) \<le> cap"
  shows "entries (foldl push l xs) =
    drop (length (entries l) + length xs - cap) (entries l @ xs)"
  using assms
proof (induction xs rule: rev_induct)
  case (snoc x xs)
  let ?k = "length (entries l) + length xs - cap"
  have IH: "entries (foldl push l xs) = drop ?k (entries l @ xs)"
    using snoc by simp
  then have "entries (foldl push l xs) @ [x] = drop ?k ((entries l @ xs) @ [x])"
    by (simp del: append_assoc)
  then have "entries (push (foldl push l xs) x) =
      drop (length (entries (foldl push l xs)) + 1 - cap + ?k) ((entries l @ xs) @ [x])"
    unfolding entries_push by (simp only: drop_drop)
  moreover have "length (entries (foldl push l xs)) = min (length (entries l) + length xs) cap"
    using IH snoc.prems by auto
  then have "length (entries (foldl push l xs)) + 1 - cap + ?k =
      length (entries l) + length (xs @ [x]) - cap" by auto
  ultimately show ?case by simp
qed simp

end


text \<open>Amortised accounting of a metered operation over timed events: every step pays its charge out of
  a credit that is never negative and grows at most at \<open>rate\<close> per millisecond.\<close>

fun total_charge :: "('s \<Rightarrow> 'e \<Rightarrow> 's) \<Rightarrow> ('s \<Rightarrow> 'e \<Rightarrow> rat) \<Rightarrow> 's \<Rightarrow> 'e list \<Rightarrow> rat" where
  "total_charge step charge s [] = 0"
| "total_charge step charge s (e # es) = charge s e + total_charge step charge (step s e) es"

fun timed :: "('e \<Rightarrow> ms) \<Rightarrow> ms \<Rightarrow> 'e list \<Rightarrow> bool" where
  "timed tm t [] = True"
| "timed tm t (e # es) = (t \<le> tm e \<and> timed tm (tm e) es)"

fun end_at :: "('e \<Rightarrow> ms) \<Rightarrow> ms \<Rightarrow> 'e list \<Rightarrow> ms" where
  "end_at tm t [] = t"
| "end_at tm t (e # es) = end_at tm (tm e) es"

locale amortised =
  fixes step :: "'s \<Rightarrow> 'e \<Rightarrow> 's" and charge :: "'s \<Rightarrow> 'e \<Rightarrow> rat" and tm :: "'e \<Rightarrow> ms"
    and inv :: "ms \<Rightarrow> 's \<Rightarrow> bool" and credit :: "ms \<Rightarrow> 's \<Rightarrow> rat" and rate :: rat
  assumes keep: "inv t s \<Longrightarrow> t \<le> tm e \<Longrightarrow> inv (tm e) (step s e)"
    and pay: "inv t s \<Longrightarrow> t \<le> tm e \<Longrightarrow>
      charge s e + credit (tm e) (step s e) \<le> credit t s + rate * of_int (tm e - t)"
    and nonneg: "inv t s \<Longrightarrow> 0 \<le> credit t s"
begin

lemma total_le:
  "inv t s \<Longrightarrow> timed tm t es \<Longrightarrow>
     total_charge step charge s es \<le> credit t s + rate * of_int (end_at tm t es - t)"
proof (induction es arbitrary: t s)
  case Nil
  then show ?case using nonneg by simp
next
  case (Cons e es)
  have le: "t \<le> tm e" and ti: "timed tm (tm e) es" using Cons.prems by auto
  show ?case
    using Cons.IH [OF keep [OF Cons.prems(1) le] ti] pay [OF Cons.prems(1) le]
    by (simp add: algebra_simps)
qed

end

end
