(* ===== verification/Utf8.thy ===== *)
theory Utf8
  imports Prelude "HOL-Library.Word"
begin

text \<open>
  Text that goes beyond the first 256 characters: a text is its list of UTF-16 code units, and
  \<open>data.toString()\<close> of a buffer is the UTF-8 decoder of the runtime, which replaces every maximal
  malformed piece, an unfinished character at the end included, by U+FFFD.
\<close>

section \<open>Code units\<close>

type_synonym units = "nat list"

definition lit :: "string \<Rightarrow> units" where
  "lit s = map of_char s"

text \<open>The white space of \<open>trim\<close>.\<close>

definition ws_unit :: "nat \<Rightarrow> bool" where
  "ws_unit u \<longleftrightarrow> 9 \<le> u \<and> u \<le> 13 \<or> 0x2000 \<le> u \<and> u \<le> 0x200A \<or>
     u \<in> {32, 0xA0, 0x1680, 0x2028, 0x2029, 0x202F, 0x205F, 0x3000, 0xFEFF}"

definition trim_units :: "units \<Rightarrow> units" where
  "trim_units s = rev (dropWhile ws_unit (rev (dropWhile ws_unit s)))"

definition utf16 :: "nat \<Rightarrow> units" where
  "utf16 c = (if c < 0x10000 then [c] else [0xD800 + (c - 0x10000) div 0x400, 0xDC00 + (c - 0x10000) mod 0x400])"

section \<open>The decoder\<close>

text \<open>Between two bytes the decoder is at the start of a character, or it waits for \<open>Suc n\<close> more bytes
  of one, the next of them between the two bounds.\<close>

datatype utf8_state = AtStart | InChar nat nat nat nat

definition lead_byte :: "nat \<Rightarrow> units \<times> utf8_state" where
  "lead_byte b =
     (if b < 0x80 then ([b], AtStart)
      else if 0xC2 \<le> b \<and> b \<le> 0xDF then ([], InChar 0 (b - 0xC0) 0x80 0xBF)
      else if 0xE0 \<le> b \<and> b \<le> 0xEF then
        ([], InChar 1 (b - 0xE0) (if b = 0xE0 then 0xA0 else 0x80) (if b = 0xED then 0x9F else 0xBF))
      else if 0xF0 \<le> b \<and> b \<le> 0xF4 then
        ([], InChar 2 (b - 0xF0) (if b = 0xF0 then 0x90 else 0x80) (if b = 0xF4 then 0x8F else 0xBF))
      else ([0xFFFD], AtStart))"

fun utf8_step :: "utf8_state \<Rightarrow> nat \<Rightarrow> units \<times> utf8_state" where
  "utf8_step AtStart b = lead_byte b"
| "utf8_step (InChar n c lo hi) b =
     (if lo \<le> b \<and> b \<le> hi then
        (let c' = c * 64 + (b - 0x80) in
         case n of 0 \<Rightarrow> (utf16 c', AtStart) | Suc m \<Rightarrow> ([], InChar m c' 0x80 0xBF))
      else (case lead_byte b of (out, s) \<Rightarrow> (0xFFFD # out, s)))"

fun utf8_out :: "utf8_state \<Rightarrow> nat list \<Rightarrow> units" where
  "utf8_out s [] = []"
| "utf8_out s (b # bs) = fst (utf8_step s b) @ utf8_out (snd (utf8_step s b)) bs"

definition utf8_end :: "utf8_state \<Rightarrow> nat list \<Rightarrow> utf8_state" where
  "utf8_end s bs = foldl (\<lambda>s b. snd (utf8_step s b)) s bs"

definition data_toString :: "8 word list \<Rightarrow> units" where
  "data_toString data =
     utf8_out AtStart (map unat data) @ (if utf8_end AtStart (map unat data) = AtStart then [] else [0xFFFD])"

text \<open>A buffer that ends between two characters.\<close>

definition whole_chars :: "8 word list \<Rightarrow> bool" where
  "whole_chars data \<longleftrightarrow> utf8_end AtStart (map unat data) = AtStart"

section \<open>Decoding in pieces\<close>

lemma utf8_out_append: "utf8_out s (a @ b) = utf8_out s a @ utf8_out (utf8_end s a) b"
  by (induction a arbitrary: s) (simp_all add: utf8_end_def)

lemma utf8_end_append: "utf8_end s (a @ b) = utf8_end (utf8_end s a) b"
  by (simp add: utf8_end_def)

lemma data_toString_append:
  "whole_chars a \<Longrightarrow> data_toString (a @ b) = data_toString a @ data_toString b"
  by (simp add: whole_chars_def data_toString_def utf8_out_append utf8_end_append)

lemma data_toString_Nil [simp]: "data_toString [] = []"
  by (simp add: data_toString_def utf8_end_def)

lemma data_toString_concat:
  "list_all whole_chars (butlast chunks) \<Longrightarrow>
     data_toString (concat chunks) = concat (map data_toString chunks)"
  by (induction chunks) (auto simp: data_toString_append split: if_splits)

text \<open>On ASCII output every cut is between two characters, and the text is the output.\<close>

lemma utf8_ascii: "list_all (\<lambda>b. b < 0x80) bs \<Longrightarrow> utf8_end AtStart bs = AtStart \<and> utf8_out AtStart bs = bs"
  by (induction bs) (simp_all add: utf8_end_def lead_byte_def)

lemma ascii_whole: "list_all (\<lambda>b. unat b < 0x80) data \<Longrightarrow> whole_chars data \<and> data_toString data = map unat data"
  using utf8_ascii [of "map unat data"] by (simp add: whole_chars_def data_toString_def list_all_length)

text \<open>A character of two bytes cut in the middle is not read.\<close>

lemma cut_character_is_lost:
  "data_toString [0xC3, 0xA9] = [0xE9]" "data_toString [0xC3] @ data_toString [0xA9] = [0xFFFD, 0xFFFD]"
  "\<not> whole_chars [0xC3]"
  by (simp_all add: data_toString_def whole_chars_def utf8_end_def lead_byte_def utf16_def)

end
