(* ===== verification/Services.thy ===== *)
theory Services
  imports Prelude
begin

text \<open>
  The instance registry of the management GUI (\<open>FerrumGUI/src/services.ts\<close>) and the two
  functions of \<open>FerrumGUI/src/index.ts\<close> that give every instance a Manager API port and token.

  A \<^emph>\<open>service manager\<close> holds the data in memory and the content of \<open>services.json\<close>
  (\<open>None\<close> while the file does not exist). An operation that saves takes the outcome of
  \<open>fs.writeFile\<close> (\<open>None\<close>, or the error it rejects with) and the time stamp; it returns the
  new state beside its outcome, because a failed write leaves the change in memory.
  A field that may be absent is an \<open>option\<close>; \<open>autoStart\<close> and \<open>autoRestart\<close> are absent in
  files of older versions. A \<open>Partial\<close> object of updates is the list of its assignments.
\<close>

section \<open>Data\<close>

datatype FerrumProxyPlatform = Linux | Linux_arm64 | Macos_arm64 | Windows

record publicMetadata =
  region :: "string option"
  countryCode :: "string option"
  latitude :: "rat option"
  longitude :: "rat option"

record FerrumProxyInstance =
  inst_id :: string
  inst_name :: string
  inst_version :: string
  inst_platform :: FerrumProxyPlatform
  binaryPath :: string
  dataDir :: string
  configPath :: string
  inst_pid :: "int option"
  lastStarted :: "string option"
  autoStart :: "bool option"
  autoRestart :: "bool option"
  managerPort :: "int option"
  managerToken :: "string option"
  inst_metadata :: "publicMetadata option"
  sourceUrl :: string

record credentials =
  cred_username :: string
  cred_password :: string

record ServicesData =
  instances :: "FerrumProxyInstance list"
  lastUpdated :: string
  auth :: "credentials option"

record ServiceManager =
  sm_data :: ServicesData
  sm_file :: "ServicesData option"

text \<open>One assignment of a \<open>Partial<FerrumProxyInstance>\<close>; \<open>UAll\<close> is a whole instance used
  as the update.\<close>

datatype upd =
    UName string
  | UAutoStart bool
  | UAutoRestart bool
  | UManagerPort "int option"
  | UManagerToken string
  | UPid "int option"
  | ULastStarted "string option"
  | UMetadata publicMetadata
  | UAll FerrumProxyInstance

fun apply_upd :: "upd \<Rightarrow> FerrumProxyInstance \<Rightarrow> FerrumProxyInstance" where
  "apply_upd (UName n) x = x\<lparr>inst_name := n\<rparr>"
| "apply_upd (UAutoStart b) x = x\<lparr>autoStart := Some b\<rparr>"
| "apply_upd (UAutoRestart b) x = x\<lparr>autoRestart := Some b\<rparr>"
| "apply_upd (UManagerPort p) x = x\<lparr>managerPort := p\<rparr>"
| "apply_upd (UManagerToken t) x = x\<lparr>managerToken := Some t\<rparr>"
| "apply_upd (UPid p) x = x\<lparr>inst_pid := p\<rparr>"
| "apply_upd (ULastStarted t) x = x\<lparr>lastStarted := t\<rparr>"
| "apply_upd (UMetadata m) x = x\<lparr>inst_metadata := Some m\<rparr>"
| "apply_upd (UAll y) x = y"

definition apply_upds :: "upd list \<Rightarrow> FerrumProxyInstance \<Rightarrow> FerrumProxyInstance" where
  "apply_upds us x = fold apply_upd us x"

text \<open>JavaScript truthiness of an optional number and of an optional string.\<close>

definition truthy_num :: "int option \<Rightarrow> bool" where
  "truthy_num p \<longleftrightarrow> p \<noteq> None \<and> p \<noteq> Some 0"

definition truthy_str :: "string option \<Rightarrow> bool" where
  "truthy_str t \<longleftrightarrow> t \<noteq> None \<and> t \<noteq> Some []"

text \<open>\<open>s || undefined\<close> for a string: the empty string becomes absent.\<close>

definition or_undefined :: "string \<Rightarrow> string option" where
  "or_undefined s = (if s = [] then None else Some s)"

section \<open>Operations of the service manager\<close>

definition new_ServiceManager :: "string \<Rightarrow> ServicesData option \<Rightarrow> ServiceManager" where
  "new_ServiceManager now file =
     \<lparr>sm_data = \<lparr>instances = [], lastUpdated = now, auth = None\<rparr>, sm_file = file\<rparr>"

definition save :: "js_error option \<Rightarrow> string \<Rightarrow> ServiceManager \<Rightarrow> ServiceManager \<times> unit res" where
  "save io now s =
     (let d = (sm_data s)\<lparr>lastUpdated := now\<rparr> in
      case io of
        None \<Rightarrow> (\<lparr>sm_data = d, sm_file = Some d\<rparr>, Inr ())
      | Some e \<Rightarrow> (s\<lparr>sm_data := d\<rparr>, Inl e))"

definition normalize_metadata :: "publicMetadata \<Rightarrow> publicMetadata" where
  "normalize_metadata m =
     \<lparr>region = Option.bind (region m) (\<lambda>r. or_undefined (trim r)),
      countryCode = Option.bind (countryCode m) (\<lambda>c. or_undefined (toUpperCase (trim c))),
      latitude = latitude m,
      longitude = longitude m\<rparr>"

definition normalize_instance :: "FerrumProxyInstance \<Rightarrow> FerrumProxyInstance" where
  "normalize_instance x =
     x\<lparr>autoStart := Some (case autoStart x of None \<Rightarrow> False | Some b \<Rightarrow> b),
       autoRestart := Some (case autoRestart x of None \<Rightarrow> False | Some b \<Rightarrow> b),
       inst_metadata := map_option normalize_metadata (inst_metadata x)\<rparr>"

text \<open>\<open>load\<close>: a missing file is created; the error of a failed read or parse is rethrown.\<close>

definition load ::
  "js_error option \<Rightarrow> js_error option \<Rightarrow> string \<Rightarrow> ServiceManager \<Rightarrow> ServiceManager \<times> unit res" where
  "load rd io now s =
     (case rd of
        Some e \<Rightarrow> if e = SysError ''ENOENT'' then save io now s else (s, Inl e)
      | None \<Rightarrow>
          (case sm_file s of
             None \<Rightarrow> save io now s
           | Some d \<Rightarrow>
               (s\<lparr>sm_data := d\<lparr>instances := map normalize_instance (instances d)\<rparr>\<rparr>, Inr ())))"

definition getAll :: "ServiceManager \<Rightarrow> FerrumProxyInstance list" where
  "getAll s = instances (sm_data s)"

definition getById :: "string \<Rightarrow> ServiceManager \<Rightarrow> FerrumProxyInstance option" where
  "getById i s = find (\<lambda>x. inst_id x = i) (getAll s)"

definition set_instances :: "FerrumProxyInstance list \<Rightarrow> ServiceManager \<Rightarrow> ServiceManager" where
  "set_instances xs s = s\<lparr>sm_data := (sm_data s)\<lparr>instances := xs\<rparr>\<rparr>"

definition add ::
  "js_error option \<Rightarrow> string \<Rightarrow> FerrumProxyInstance \<Rightarrow> ServiceManager \<Rightarrow> ServiceManager \<times> unit res" where
  "add io now x s =
     (if getById (inst_id x) s \<noteq> None
      then (s, Inl (Error (''Instance with ID '' @ inst_id x @ '' already exists'')))
      else save io now (set_instances (getAll s @ [x]) s))"

fun findIndex :: "('a \<Rightarrow> bool) \<Rightarrow> 'a list \<Rightarrow> nat option" where
  "findIndex P [] = None"
| "findIndex P (x # xs) = (if P x then Some 0 else map_option Suc (findIndex P xs))"

definition not_found :: "string \<Rightarrow> js_error" where
  "not_found i = Error (''Instance with ID '' @ i @ '' not found'')"

definition update ::
  "js_error option \<Rightarrow> string \<Rightarrow> string \<Rightarrow> upd list \<Rightarrow> ServiceManager \<Rightarrow> ServiceManager \<times> unit res" where
  "update io now i us s =
     (case findIndex (\<lambda>x. inst_id x = i) (getAll s) of
        None \<Rightarrow> (s, Inl (not_found i))
      | Some k \<Rightarrow>
          save io now (set_instances ((getAll s)[k := apply_upds us (getAll s ! k)]) s))"

definition remove ::
  "js_error option \<Rightarrow> string \<Rightarrow> string \<Rightarrow> ServiceManager \<Rightarrow> ServiceManager \<times> unit res" where
  "remove io now i s =
     (case findIndex (\<lambda>x. inst_id x = i) (getAll s) of
        None \<Rightarrow> (s, Inl (not_found i))
      | Some k \<Rightarrow> save io now (set_instances (take k (getAll s) @ drop (Suc k) (getAll s)) s))"

definition setPid ::
  "js_error option \<Rightarrow> string \<Rightarrow> string \<Rightarrow> int option \<Rightarrow> ServiceManager \<Rightarrow> ServiceManager \<times> unit res" where
  "setPid io now i p s =
     update io now i [UPid p, ULastStarted (if truthy_num p then Some now else None)] s"

definition getAuth :: "ServiceManager \<Rightarrow> credentials option" where
  "getAuth s = auth (sm_data s)"

definition setAuth ::
  "js_error option \<Rightarrow> string \<Rightarrow> string \<Rightarrow> string \<Rightarrow> ServiceManager \<Rightarrow> ServiceManager \<times> unit res" where
  "setAuth io now u p s =
     save io now (s\<lparr>sm_data := (sm_data s)\<lparr>auth := Some \<lparr>cred_username = u, cred_password = p\<rparr>\<rparr>\<rparr>)"

definition verifyAuth :: "string \<Rightarrow> string \<Rightarrow> ServiceManager \<Rightarrow> bool" where
  "verifyAuth u p s =
     (case getAuth s of
        None \<Rightarrow> True
      | Some a \<Rightarrow> cred_username a = u \<and> cred_password a = p)"

definition hasAuth :: "ServiceManager \<Rightarrow> bool" where
  "hasAuth s \<longleftrightarrow> getAuth s \<noteq> None"

section \<open>Manager API port and token\<close>

text \<open>The loop of \<open>allocateManagerPort\<close>; \<open>bindable\<close> is the answer of \<open>canBindLocalPort\<close>.\<close>

function alloc_loop :: "int set \<Rightarrow> (int \<Rightarrow> bool) \<Rightarrow> int \<Rightarrow> int \<Rightarrow> int option" where
  "alloc_loop used bindable port hi =
     (if port \<le> hi
      then if port \<notin> used \<and> bindable port then Some port
           else alloc_loop used bindable (port + 1) hi
      else None)"
  by pat_completeness auto
termination
  by (relation "measure (\<lambda>(_, _, port, hi). nat (hi + 1 - port))") auto

declare alloc_loop.simps [simp del]

definition used_ports :: "string \<Rightarrow> ServiceManager \<Rightarrow> int set" where
  "used_ports i s = set (List.map_filter managerPort (filter (\<lambda>x. inst_id x \<noteq> i) (getAll s)))"

definition show_int :: "int \<Rightarrow> string" where
  "show_int n = (if n < 0 then ''-'' @ show_nat (nat (- n)) else show_nat (nat n))"

definition allocateManagerPort ::
  "int \<Rightarrow> int \<Rightarrow> (int \<Rightarrow> bool) \<Rightarrow> string \<Rightarrow> ServiceManager \<Rightarrow> int res" where
  "allocateManagerPort pstart pend bindable i s =
     (let lo = min pstart pend; hi = max pstart pend in
      case alloc_loop (used_ports i s) bindable lo hi of
        Some p \<Rightarrow> Inr p
      | None \<Rightarrow> Inl (Error (''No available Manager API port in range '' @ show_int lo @ ''-'' @ show_int hi)))"

text \<open>A message broadcast to the connected browsers.\<close>

datatype ws_msg =
    MsgInstances "FerrumProxyInstance list"
  | MsgInstanceUpdated string "upd list"
  | MsgInstanceVersion string string
  | MsgInstanceStarted string int
  | MsgInstanceStopped string
  | MsgInstanceRestarted string int
  | MsgInstanceRemoved string
  | MsgProcessExit string "int option" "string option"
  | MsgAutoRestartFailed string nat
  | MsgAutoRestartError string js_error
  | MsgProcessError string string
  | MsgInstanceAdded FerrumProxyInstance
  | MsgInstanceInitializing string
  | MsgInstanceInitialized string
  | MsgDownloadProgress string nat
  | MsgUpdateProgress string nat
  | MsgConfigUpdated string
  | MsgRateLimitError
  | MsgGuiUpdateReady string

text \<open>What the environment answers during one call: the free ports, a fresh random token, the
  outcome of the file write and the time stamp.\<close>

record api_env =
  env_start :: int
  env_end :: int
  env_bindable :: "int \<Rightarrow> bool"
  env_token :: string
  env_io :: "js_error option"
  env_now :: string

definition api_updates :: "api_env \<Rightarrow> FerrumProxyInstance \<Rightarrow> ServiceManager \<Rightarrow> upd list res" where
  "api_updates env x s =
     (let tok = (if truthy_str (managerToken x) then [] else [UManagerToken (env_token env)]) in
      if truthy_num (managerPort x) then Inr tok
      else bindE (allocateManagerPort (env_start env) (env_end env) (env_bindable env) (inst_id x) s)
             (\<lambda>p. Inr (tok @ [UManagerPort (Some p)])))"

definition ensureManagerApi ::
  "api_env \<Rightarrow> FerrumProxyInstance \<Rightarrow> ServiceManager
     \<Rightarrow> ServiceManager \<times> ws_msg list \<times> FerrumProxyInstance res" where
  "ensureManagerApi env x s =
     (if truthy_str (managerToken x) \<and> truthy_num (managerPort x) then (s, [], Inr x)
      else case api_updates env x s of
        Inl e \<Rightarrow> (s, [], Inl e)
      | Inr us \<Rightarrow>
          (case update (env_io env) (env_now env) (inst_id x) us s of
             (s', Inl e) \<Rightarrow> (s', [], Inl e)
           | (s', Inr _) \<Rightarrow>
               (s', [MsgInstanceUpdated (inst_id x) us, MsgInstances (getAll s')],
                Inr (case getById (inst_id x) s' of Some y \<Rightarrow> y | None \<Rightarrow> apply_upds us x))))"

text \<open>The arguments that hand the Manager API settings to the proxy process.\<close>

definition getManagerApiArgs :: "FerrumProxyInstance \<Rightarrow> string list" where
  "getManagerApiArgs x =
     (case (managerPort x, managerToken x) of
        (Some p, Some t) \<Rightarrow>
          if p = 0 \<or> t = [] then []
          else [''--manager-port'', show_int p, ''--manager-token'', t]
      | _ \<Rightarrow> [])"

section \<open>Lookup, update and removal\<close>

text \<open>The contract of a store of keyed values under partial updates: \<open>modify\<close> changes the value
  under its key only. \<open>keeps\<close> says that an update leaves the key of a value alone.\<close>

locale registry =
  fixes get :: "'k \<Rightarrow> 's \<Rightarrow> 'v option"
    and modify :: "'k \<Rightarrow> 'u \<Rightarrow> 's \<Rightarrow> 's"
    and app :: "'u \<Rightarrow> 'v \<Rightarrow> 'v"
    and keeps :: "'u \<Rightarrow> 'v \<Rightarrow> bool"
  assumes get_modify:
    "(\<And>v. get i s = Some v \<Longrightarrow> keeps u v) \<Longrightarrow>
       get j (modify i u s) = (if j = i then map_option (app u) (get i s) else get j s)"
begin

lemma get_modify_other: "j \<noteq> i \<Longrightarrow> (\<And>v. keeps u v) \<Longrightarrow> get j (modify i u s) = get j s"
  using get_modify by simp

lemma run_frame:
  "(\<And>u v. u \<in> snd ` set ms \<Longrightarrow> keeps u v) \<Longrightarrow> i \<notin> fst ` set ms \<Longrightarrow>
     get i (foldl (\<lambda>s (j, u). modify j u s) s ms) = get i s"
proof (induction ms arbitrary: s)
  case (Cons m ms)
  obtain j u where m: "m = (j, u)" by (cases m)
  have "get i (modify j u s) = get i s" using Cons.prems m by (auto intro: get_modify_other)
  then show ?case using Cons.IH [of "modify j u s"] Cons.prems m by auto
qed simp

end

lemma findIndex_Some:
  "findIndex P xs = Some k \<Longrightarrow> k < length xs \<and> P (xs ! k) \<and> find P xs = Some (xs ! k)"
  by (induction xs arbitrary: k) (auto split: if_splits)

lemma findIndex_None: "findIndex P xs = None \<longleftrightarrow> find P xs = None"
  by (induction xs) auto

lemma find_list_update_same:
  "findIndex P xs = Some k \<Longrightarrow> P y \<Longrightarrow> find P (xs[k := y]) = Some y"
  by (induction xs arbitrary: k) (auto split: if_splits)

lemma find_list_update_other:
  "k < length xs \<Longrightarrow> \<not> P y \<Longrightarrow> \<not> P (xs ! k) \<Longrightarrow> find P (xs[k := y]) = find P xs"
proof (induction xs arbitrary: k)
  case (Cons x xs) then show ?case by (cases k) auto
qed simp

lemma find_remove_other:
  "k < length xs \<Longrightarrow> \<not> P (xs ! k) \<Longrightarrow> find P (take k xs @ drop (Suc k) xs) = find P xs"
proof (induction xs arbitrary: k)
  case (Cons x xs) then show ?case by (cases k) auto
qed simp

lemma find_None_iff_key: "find (\<lambda>x. f x = i) xs = None \<longleftrightarrow> i \<notin> f ` set xs"
  by (auto simp: find_None_iff)

lemma fst_save [simp]: "sm_data (fst (save io now s)) = (sm_data s)\<lparr>lastUpdated := now\<rparr>"
  by (cases io) (auto simp: save_def Let_def)

lemma snd_save [simp]: "snd (save None now s) = Inr ()"
  by (simp add: save_def Let_def)

lemma getAll_save [simp]: "getAll (fst (save io now s)) = getAll s"
  by (simp add: getAll_def)

lemma getAll_set_instances [simp]: "getAll (set_instances xs s) = xs"
  by (simp add: getAll_def set_instances_def)

lemma getById_save [simp]: "getById i (fst (save io now s)) = getById i s"
  by (simp add: getById_def)

lemma getById_id: "getById i s = Some x \<Longrightarrow> inst_id x = i"
  by (auto simp: getById_def find_Some_iff)

lemma getById_update:
  assumes "\<And>x. getById i s = Some x \<Longrightarrow> inst_id (apply_upds us x) = inst_id x"
  shows "getById j (fst (update io now i us s)) =
    (if j = i then map_option (apply_upds us) (getById i s) else getById j s)"
proof (cases "findIndex (\<lambda>x. inst_id x = i) (getAll s)")
  case None
  then have "find (\<lambda>x. inst_id x = i) (getAll s) = None" by (simp add: findIndex_None)
  with None show ?thesis by (auto simp: update_def getById_def)
next
  case (Some k)
  let ?y = "apply_upds us (getAll s ! k)"
  from findIndex_Some [OF Some] have k: "k < length (getAll s)" "inst_id (getAll s ! k) = i"
    "getById i s = Some (getAll s ! k)" by (auto simp: getById_def)
  with assms have y: "inst_id ?y = i" by simp
  have "j \<noteq> i \<Longrightarrow> find (\<lambda>x. inst_id x = j) ((getAll s)[k := ?y]) = find (\<lambda>x. inst_id x = j) (getAll s)"
    by (rule find_list_update_other) (use k y in auto)
  moreover have "find (\<lambda>x. inst_id x = i) ((getAll s)[k := ?y]) = Some ?y"
    using Some y by (rule find_list_update_same)
  ultimately show ?thesis using Some k
    by (auto simp: update_def getById_def)
qed

interpretation reg: registry getById "\<lambda>i us s. fst (update io now i us s)" apply_upds
    "\<lambda>us x. inst_id (apply_upds us x) = inst_id x"
  for io now
  by unfold_locales (rule getById_update)

lemma getById_remove:
  assumes "distinct (map inst_id (getAll s))"
  shows "getById j (fst (remove io now i s)) = (if j = i then None else getById j s)"
proof (cases "findIndex (\<lambda>x. inst_id x = i) (getAll s)")
  case None
  then have "find (\<lambda>x. inst_id x = i) (getAll s) = None" by (simp add: findIndex_None)
  with None show ?thesis by (auto simp: remove_def getById_def)
next
  case (Some k)
  from findIndex_Some [OF Some] have k: "k < length (getAll s)" "inst_id (getAll s ! k) = i" by auto
  let ?xs = "take k (getAll s) @ drop (Suc k) (getAll s)"
  have "map inst_id (getAll s) = map inst_id (take k (getAll s)) @ i # map inst_id (drop (Suc k) (getAll s))"
    using k by (metis append_take_drop_id Cons_nth_drop_Suc list.simps(9) map_append)
  then have "i \<notin> inst_id ` set ?xs" using assms by (metis distinct_append distinct.simps(2)
    image_set map_append not_distinct_conv_prefix Un_iff set_append disjoint_insert(1) list.simps(15))
  then have "find (\<lambda>x. inst_id x = i) ?xs = None" unfolding find_None_iff_key .
  moreover have "j \<noteq> i \<Longrightarrow> find (\<lambda>x. inst_id x = j) ?xs = find (\<lambda>x. inst_id x = j) (getAll s)"
    by (rule find_remove_other) (use k in auto)
  ultimately show ?thesis using Some by (auto simp: remove_def getById_def)
qed

section \<open>Identifiers stay unique\<close>

definition unique_ids :: "ServiceManager \<Rightarrow> bool" where
  "unique_ids s \<longleftrightarrow> distinct (map inst_id (getAll s))"

datatype sm_op =
    OpAdd FerrumProxyInstance
  | OpUpdate string "upd list"
  | OpRemove string
  | OpSetPid string "int option"
  | OpSetAuth string string
  | OpSave

text \<open>An update that replaces the identifier would break uniqueness; none of the callers has one,
  since \<open>UAll\<close> is only used with the instance that was looked up.\<close>

fun op_keeps_id :: "sm_op \<Rightarrow> bool" where
  "op_keeps_id (OpUpdate i us) = (\<forall>u \<in> set us. case u of UAll y \<Rightarrow> inst_id y = i | _ \<Rightarrow> True)"
| "op_keeps_id _ = True"

fun sm_step :: "ServiceManager \<Rightarrow> js_error option \<times> string \<times> sm_op \<Rightarrow> ServiceManager" where
  "sm_step s (io, now, OpAdd x) = fst (add io now x s)"
| "sm_step s (io, now, OpUpdate i us) = fst (update io now i us s)"
| "sm_step s (io, now, OpRemove i) = fst (remove io now i s)"
| "sm_step s (io, now, OpSetPid i p) = fst (setPid io now i p s)"
| "sm_step s (io, now, OpSetAuth u p) = fst (setAuth io now u p s)"
| "sm_step s (io, now, OpSave) = fst (save io now s)"

lemma unique_ids_save [simp]: "unique_ids (fst (save io now s)) = unique_ids s"
  by (simp add: unique_ids_def)

lemma apply_upds_id:
  assumes "inst_id x = i" and "\<forall>u \<in> set us. case u of UAll y \<Rightarrow> inst_id y = i | _ \<Rightarrow> True"
  shows "inst_id (apply_upds us x) = i"
  using assms unfolding apply_upds_def
proof (induction us arbitrary: x)
  case (Cons u us)
  have "inst_id (apply_upd u x) = i" using Cons.prems by (cases u) auto
  then show ?case using Cons by simp
qed simp

lemma unique_ids_update:
  assumes "unique_ids s" and "\<forall>u \<in> set us. case u of UAll y \<Rightarrow> inst_id y = i | _ \<Rightarrow> True"
  shows "unique_ids (fst (update io now i us s))"
proof (cases "findIndex (\<lambda>x. inst_id x = i) (getAll s)")
  case None then show ?thesis using assms by (simp add: update_def)
next
  case (Some k)
  from findIndex_Some [OF Some] have k: "k < length (getAll s)" "inst_id (getAll s ! k) = i" by auto
  have "map inst_id ((getAll s)[k := apply_upds us (getAll s ! k)]) = map inst_id (getAll s)"
    using k apply_upds_id [OF k(2) assms(2)] by (simp add: map_update list_update_same_conv)
  then show ?thesis using Some assms(1) by (simp add: update_def unique_ids_def)
qed

lemma distinct_take_drop_Suc:
  assumes "distinct xs"
  shows "distinct (take k xs @ drop (Suc k) xs)"
proof (cases "k < length xs")
  case True
  then have "distinct (take k xs @ xs ! k # drop (Suc k) xs)"
    using assms by (simp flip: id_take_nth_drop)
  then show ?thesis by simp
qed (use assms in simp)

lemma unique_ids_step:
  assumes "unique_ids s" and "op_keeps_id (snd (snd e))"
  shows "unique_ids (sm_step s e)"
proof (cases e)
  case (fields io now opn)
  show ?thesis
  proof (cases opn)
    case (OpAdd x)
    have "getById (inst_id x) s = None \<Longrightarrow> inst_id x \<notin> inst_id ` set (getAll s)"
      by (simp add: getById_def find_None_iff_key)
    then show ?thesis using assms(1) fields OpAdd by (auto simp: add_def unique_ids_def)
  next
    case (OpUpdate i us) then show ?thesis using assms fields by (auto intro: unique_ids_update)
  next
    case (OpRemove i)
    then show ?thesis using assms(1) fields distinct_take_drop_Suc [of "map inst_id (getAll s)"]
      by (auto simp: remove_def unique_ids_def take_map drop_map split: option.splits)
  next
    case (OpSetPid i p) then show ?thesis using assms fields
      by (auto simp: setPid_def intro!: unique_ids_update)
  next
    case (OpSetAuth u p) then show ?thesis using assms fields
      by (simp add: setAuth_def unique_ids_def getAll_def)
  next
    case OpSave then show ?thesis using assms fields by simp
  qed
qed

interpretation sm: machine sm_step "\<lambda>e. op_keeps_id (snd (snd e))" unique_ids
  by unfold_locales (rule unique_ids_step)

text \<open>C30: identifiers of registered instances stay unique over every sequence of registry operations
  from the empty registry, whatever the outcome of each file write, as long as no update gives an
  instance another identifier, which \<open>update\<close> itself would allow.\<close>

theorem instance_ids_unique:
  assumes "list_all (\<lambda>e. op_keeps_id (snd (snd e))) es"
  shows "unique_ids (foldl sm_step (new_ServiceManager now file) es)"
  by (rule sm.run_good [OF _ assms]) (simp add: unique_ids_def getAll_def new_ServiceManager_def)

section \<open>Manager ports\<close>

lemma alloc_loop_Some:
  "alloc_loop used bindable lo hi = Some p \<longleftrightarrow>
     lo \<le> p \<and> p \<le> hi \<and> p \<notin> used \<and> bindable p \<and>
     (\<forall>q. lo \<le> q \<and> q < p \<longrightarrow> q \<in> used \<or> \<not> bindable q)"
proof (induction used bindable lo hi rule: alloc_loop.induct)
  case (1 used bindable lo hi)
  show ?case
  proof (cases "lo \<le> hi \<and> (lo \<in> used \<or> \<not> bindable lo)")
    case True
    then have "alloc_loop used bindable lo hi = alloc_loop used bindable (lo + 1) hi"
      by (subst alloc_loop.simps) auto
    moreover have "(\<forall>q. lo \<le> q \<and> q < p \<longrightarrow> q \<in> used \<or> \<not> bindable q) \<longleftrightarrow>
        (\<forall>q. lo + 1 \<le> q \<and> q < p \<longrightarrow> q \<in> used \<or> \<not> bindable q)"
      using True by (metis add1_zle_eq order_le_less)
    moreover have "lo \<le> p \<and> p \<notin> used \<and> bindable p \<longleftrightarrow> lo + 1 \<le> p \<and> p \<notin> used \<and> bindable p"
      using True by (auto simp: order_le_less)
    ultimately show ?thesis using 1 True by auto
  next
    case False
    then show ?thesis by (subst alloc_loop.simps) (auto dest: spec [of _ lo])
  qed
qed

lemma alloc_loop_None:
  "alloc_loop used bindable lo hi = None \<longleftrightarrow> (\<forall>q. lo \<le> q \<and> q \<le> hi \<longrightarrow> q \<in> used \<or> \<not> bindable q)"
proof (induction used bindable lo hi rule: alloc_loop.induct)
  case (1 used bindable lo hi)
  show ?case
  proof (cases "lo \<le> hi \<and> (lo \<in> used \<or> \<not> bindable lo)")
    case True
    then have "alloc_loop used bindable lo hi = alloc_loop used bindable (lo + 1) hi"
      by (subst alloc_loop.simps) auto
    moreover have "(\<forall>q. lo \<le> q \<and> q \<le> hi \<longrightarrow> q \<in> used \<or> \<not> bindable q) \<longleftrightarrow>
        (\<forall>q. lo + 1 \<le> q \<and> q \<le> hi \<longrightarrow> q \<in> used \<or> \<not> bindable q)"
      using True by (metis add1_zle_eq order_le_less)
    ultimately show ?thesis using 1 True by auto
  next
    case False
    then show ?thesis by (subst alloc_loop.simps) (auto dest: spec [of _ lo])
  qed
qed

lemma allocateManagerPort_Inr:
  "allocateManagerPort a b bindable i s = Inr p \<longleftrightarrow>
     alloc_loop (used_ports i s) bindable (min a b) (max a b) = Some p"
  by (auto simp: allocateManagerPort_def Let_def split: option.split)

lemma allocateManagerPort_Inl:
  "(\<exists>e. allocateManagerPort a b bindable i s = Inl e) \<longleftrightarrow>
     alloc_loop (used_ports i s) bindable (min a b) (max a b) = None"
  by (auto simp: allocateManagerPort_def Let_def split: option.split)

text \<open>\<open>allocateManagerPort\<close> returns the least port of the configured range that no other
  instance has and that can be bound, and fails exactly when the range has none.\<close>

lemma allocateManagerPort_least:
  "(allocateManagerPort a b bindable i s = Inr p \<longleftrightarrow>
      min a b \<le> p \<and> p \<le> max a b \<and> p \<notin> used_ports i s \<and> bindable p \<and>
      (\<forall>q. min a b \<le> q \<and> q < p \<longrightarrow> q \<in> used_ports i s \<or> \<not> bindable q)) \<and>
   ((\<exists>e. allocateManagerPort a b bindable i s = Inl e) \<longleftrightarrow>
      (\<forall>q. min a b \<le> q \<and> q \<le> max a b \<longrightarrow> q \<in> used_ports i s \<or> \<not> bindable q))"
  unfolding allocateManagerPort_Inr allocateManagerPort_Inl alloc_loop_Some alloc_loop_None by simp

lemma api_updates_effect:
  assumes "api_updates env x s = Inr us" and "env_token env \<noteq> []"
    and "0 < min (env_start env) (env_end env)"
  shows "inst_id (apply_upds us x) = inst_id x \<and> truthy_str (managerToken (apply_upds us x)) \<and>
    truthy_num (managerPort (apply_upds us x)) \<and>
    (managerPort (apply_upds us x) \<noteq> managerPort x \<longrightarrow>
       the (managerPort (apply_upds us x)) \<notin> used_ports (inst_id x) s)"
  using assms
  by (auto simp: api_updates_def Let_def bindE_eq_Inr allocateManagerPort_Inr alloc_loop_Some
      apply_upds_def truthy_str_def truthy_num_def split: if_splits)

text \<open>\<open>ensureManagerApi\<close> leaves the instance with a port and a token that the registry
  holds, gives a newly allocated port to no other instance, and changes no other instance.\<close>

lemma ensureManagerApi_configures:
  assumes "getById (inst_id x) s = Some x" and "env_token env \<noteq> []"
    and "0 < min (env_start env) (env_end env)"
    and "ensureManagerApi env x s = (s', ms, Inr y)"
  shows "truthy_str (managerToken y) \<and> truthy_num (managerPort y) \<and>
    getById (inst_id x) s' = Some y \<and>
    (\<forall>j. j \<noteq> inst_id x \<longrightarrow> getById j s' = getById j s) \<and>
    (managerPort y \<noteq> managerPort x \<longrightarrow> the (managerPort y) \<notin> used_ports (inst_id x) s)"
proof (cases "truthy_str (managerToken x) \<and> truthy_num (managerPort x)")
  case True
  then show ?thesis using assms by (auto simp: ensureManagerApi_def)
next
  case False
  then obtain us where us: "api_updates env x s = Inr us"
    and up: "update (env_io env) (env_now env) (inst_id x) us s = (s', Inr ())"
    and y: "y = (case getById (inst_id x) s' of Some y \<Rightarrow> y | None \<Rightarrow> apply_upds us x)"
    using assms(4) by (auto simp: ensureManagerApi_def split: sum.splits prod.splits if_splits)
  note eff = api_updates_effect [OF us assms(2,3)]
  have "getById j s' = (if j = inst_id x then Some (apply_upds us x) else getById j s)" for j
    using getById_update [of "inst_id x" s us j "env_io env" "env_now env"] up assms(1) eff by auto
  then show ?thesis using y eff by simp
qed

definition sample_instance :: FerrumProxyInstance where
  "sample_instance = \<lparr>inst_id = ''a'', inst_name = ''n'', inst_version = ''1'', inst_platform = Linux,
     binaryPath = ''/b'', dataDir = ''/d'', configPath = ''/c'', inst_pid = None, lastStarted = None,
     autoStart = Some False, autoRestart = Some True, managerPort = None, managerToken = None,
     inst_metadata = None, sourceUrl = ''u''\<rparr>"

definition two_added :: "(js_error option \<times> string \<times> sm_op) list" where
  "two_added = [(None, [], OpAdd sample_instance), (Some TypeError, [], OpAdd (sample_instance\<lparr>inst_id := ''b''\<rparr>)),
     (None, [], OpAdd (sample_instance\<lparr>inst_name := ''m''\<rparr>)), (None, ''t'', OpUpdate ''a'' [UName ''n'']), (None, [], OpSetPid ''b'' (Some 5))]"

theorem instance_ids_unique_witness:
  "unique_ids (foldl sm_step (new_ServiceManager [] None) two_added) \<and>
   map inst_id (getAll (foldl sm_step (new_ServiceManager [] None) two_added)) = [''a'', ''b'']"
proof -
  have "unique_ids (foldl sm_step (new_ServiceManager [] None) two_added)"
    by (rule instance_ids_unique) (simp add: two_added_def)
  moreover have "map inst_id (getAll (foldl sm_step (new_ServiceManager [] None) two_added)) = [''a'', ''b'']" by code_simp
  ultimately show ?thesis by blast
qed

definition sample_manager :: ServiceManager where
  "sample_manager = fst (add None [] sample_instance (new_ServiceManager [] None))"

definition sample_env :: api_env where
  "sample_env = \<lparr>env_start = 37000, env_end = 37999, env_bindable = (\<lambda>p. 37000 < p),
     env_token = ''tok'', env_io = None, env_now = ''now''\<rparr>"

lemma sample_getAll: "getAll sample_manager = [sample_instance]"
  by (simp add: sample_manager_def add_def getById_def getAll_def new_ServiceManager_def
      save_def set_instances_def Let_def)

lemma sample_getById: "getById ''a'' sample_manager = Some sample_instance"
  by (simp add: getById_def sample_getAll) (simp add: sample_instance_def)

lemma sample_api:
  "ensureManagerApi sample_env sample_instance sample_manager =
     (let us = [UManagerToken ''tok'', UManagerPort (Some 37001)]; y = apply_upds us sample_instance;
          s' = fst (save None ''now'' (set_instances [y] sample_manager)) in
      (s', [MsgInstanceUpdated ''a'' us, MsgInstances [y]], Inr y))"
proof -
  have al: "allocateManagerPort 37000 37999 (\<lambda>p. 37000 < p) ''a'' sample_manager = Inr 37001"
    unfolding allocateManagerPort_Inr alloc_loop_Some
    by (auto simp: used_ports_def sample_getAll List.map_filter_def sample_instance_def)
  have id: "inst_id sample_instance = ''a''" "managerPort sample_instance = None"
      "managerToken sample_instance = None" by (simp_all add: sample_instance_def)
  show ?thesis
    by (simp add: ensureManagerApi_def api_updates_def sample_env_def id al update_def sample_getAll
      truthy_num_def truthy_str_def apply_upds_def getById_def split_beta Let_def)
qed

section \<open>The file\<close>

lemma bind_or_undefined_idem:
  "f (f r) = f r \<Longrightarrow> Option.bind (or_undefined (f r)) (\<lambda>r. or_undefined (f r)) = or_undefined (f r)"
  by (simp add: or_undefined_def)

lemma normalize_metadata_idem [simp]: "normalize_metadata (normalize_metadata m) = normalize_metadata m"
  by (simp add: normalize_metadata_def bind_or_undefined_idem [where f = trim]
      bind_or_undefined_idem [where f = "\<lambda>c. toUpperCase (trim c)"])

lemma normalize_instance_idem [simp]: "normalize_instance (normalize_instance x) = normalize_instance x"
  by (auto simp: normalize_instance_def option.map_comp comp_def)

text \<open>a process that reads the file back gets what the last successful save held; reading
  any existing file and saving it makes that file a fixed point of the two.\<close>

lemma save_load_roundtrip:
  assumes "load None io t s0 = (s, Inr ())" and "sm_file s0 \<noteq> None"
    and "save None now s = (s', Inr ())"
  shows "load None io' t' (new_ServiceManager t' (sm_file s')) = (s', Inr ())"
proof -
  obtain d where d: "sm_file s0 = Some d" using assms(2) by auto
  then have "getAll s = map normalize_instance (instances d)"
    using assms(1) by (auto simp: load_def getAll_def)
  then have "map normalize_instance (getAll s) = getAll s" by simp
  moreover have "sm_file s' = Some (sm_data s')" "sm_data s' = (sm_data s)\<lparr>lastUpdated := now\<rparr>"
    using assms(3) by (auto simp: save_def Let_def)
  ultimately show ?thesis
    by (simp add: load_def new_ServiceManager_def getAll_def)
qed

end
