(* ===== verification/AuthManager.thy ===== *)
theory AuthManager
  imports Services
begin

text \<open>
  Authentication of the management GUI: \<open>FerrumGUI/src/authManager.ts\<close> and the
  \<open>/api/auth\<close> handlers of \<open>FerrumGUI/src/index.ts\<close>.

  The two \<open>Map\<close> fields of the class are association lists. \<open>Date.now()\<close> and the random
  session token are arguments. A handler runs to its end without another request in between,
  as the single-threaded runtime does up to the first real suspension: \<open>verifyAuth\<close> awaits
  nothing, and \<open>setAuth\<close> stores the credentials before it awaits the file. A value the browser sends (a cookie, a header, a field of the JSON body) is absent or
  falsy, a string, or another truthy value (\<open>HOther\<close>: an array header, an object cookie, a
  number).
\<close>

section \<open>Requests and replies\<close>

datatype hval = HAbsent | HStr string | HOther

fun truthy :: "hval \<Rightarrow> bool" where
  "truthy HAbsent = False"
| "truthy (HStr s) = (s \<noteq> [])"
| "truthy HOther = True"

record request =
  req_path :: string
  req_cookie :: hval
  req_xtoken :: hval
  req_authorization :: "string option"

record response =
  r_status :: nat
  r_retryAfter :: "int option"
  r_retryAfterMs :: "ms option"
  r_requireAuth :: bool
  r_error :: "string option"
  r_session :: "string option"

datatype outcome = Next | Reply response

definition fail_with :: "nat \<Rightarrow> string \<Rightarrow> response" where
  "fail_with st msg = \<lparr>r_status = st, r_retryAfter = None, r_retryAfterMs = None, r_requireAuth = False,
                       r_error = Some msg, r_session = None\<rparr>"

definition ok_with :: "string option \<Rightarrow> response" where
  "ok_with tok = \<lparr>r_status = 200, r_retryAfter = None, r_retryAfterMs = None, r_requireAuth = False,
                   r_error = None, r_session = tok\<rparr>"

fun error_message :: "js_error \<Rightarrow> string" where
  "error_message (Error m) = m"
| "error_message (SysError m) = m"
| "error_message TypeError = ''TypeError''"
| "error_message RangeError = ''RangeError''"

text \<open>\<open>Math.max(1, Math.ceil(ms / 1000))\<close>\<close>

definition retry_seconds :: "ms \<Rightarrow> int" where
  "retry_seconds t = max 1 (- ((- t) div 1000))"

section \<open>The authentication manager\<close>

record session =
  ses_username :: string
  ses_expires :: ms

record login_failure =
  lf_count :: nat
  lf_first :: ms
  lf_blockedUntil :: "ms option"

record AuthManager =
  sessions :: "(string \<times> session) list"
  loginFailures :: "(string \<times> login_failure) list"

definition sessionDuration :: ms where "sessionDuration = 24 * 60 * 60 * 1000"
definition loginFailureWindow :: ms where "loginFailureWindow = 10 * 60 * 1000"
definition loginFailureThreshold :: nat where "loginFailureThreshold = 5"
definition loginLockoutDuration :: ms where "loginLockoutDuration = 15 * 60 * 1000"

definition new_AuthManager :: AuthManager where
  "new_AuthManager = \<lparr>sessions = [], loginFailures = []\<rparr>"

definition createSession :: "ms \<Rightarrow> string \<Rightarrow> string \<Rightarrow> AuthManager \<Rightarrow> AuthManager \<times> string" where
  "createSession now tok u a =
     (a\<lparr>sessions := AList.update tok \<lparr>ses_username = u, ses_expires = now + sessionDuration\<rparr> (sessions a)\<rparr>, tok)"

definition validateSession :: "ms \<Rightarrow> string \<Rightarrow> AuthManager \<Rightarrow> AuthManager \<times> bool" where
  "validateSession now tok a =
     (case map_of (sessions a) tok of
        None \<Rightarrow> (a, False)
      | Some ses \<Rightarrow>
          if now > ses_expires ses then (a\<lparr>sessions := AList.delete tok (sessions a)\<rparr>, False)
          else (a, True))"

definition deleteSession :: "string \<Rightarrow> AuthManager \<Rightarrow> AuthManager" where
  "deleteSession tok a = a\<lparr>sessions := AList.delete tok (sessions a)\<rparr>"

definition normalizeUsername :: "string \<Rightarrow> string" where
  "normalizeUsername u = toLowerCase (trim u)"

text \<open>A login attempt is allowed (\<open>None\<close>) or refused with the time left.\<close>

definition canAttemptLogin :: "ms \<Rightarrow> string \<Rightarrow> AuthManager \<Rightarrow> AuthManager \<times> ms option" where
  "canAttemptLogin now u a =
     (let key = normalizeUsername u in
      case map_of (loginFailures a) key of
        None \<Rightarrow> (a, None)
      | Some st \<Rightarrow>
          if lf_blockedUntil st \<noteq> None \<and> lf_blockedUntil st \<noteq> Some 0 \<and> the (lf_blockedUntil st) > now
          then (a, Some (the (lf_blockedUntil st) - now))
          else if now - lf_first st > loginFailureWindow
          then (a\<lparr>loginFailures := AList.delete key (loginFailures a)\<rparr>, None)
          else (a, None))"

text \<open>A failed login is recorded; the result is the lockout it starts, if any.\<close>

definition registerFailedLogin :: "ms \<Rightarrow> string \<Rightarrow> AuthManager \<Rightarrow> AuthManager \<times> ms option" where
  "registerFailedLogin now u a =
     (let key = normalizeUsername u;
          put = (\<lambda>st. a\<lparr>loginFailures := AList.update key st (loginFailures a)\<rparr>);
          fresh = \<lparr>lf_count = 1, lf_first = now, lf_blockedUntil = None\<rparr> in
      case map_of (loginFailures a) key of
        None \<Rightarrow> (put fresh, None)
      | Some cur \<Rightarrow>
          if now - lf_first cur > loginFailureWindow then (put fresh, None)
          else
            let nextCount = lf_count cur + 1 in
            if nextCount \<ge> loginFailureThreshold
            then (put \<lparr>lf_count = nextCount, lf_first = lf_first cur,
                       lf_blockedUntil = Some (now + loginLockoutDuration)\<rparr>, Some loginLockoutDuration)
            else (put \<lparr>lf_count = nextCount, lf_first = lf_first cur, lf_blockedUntil = None\<rparr>, None))"

definition clearFailedLogins :: "string \<Rightarrow> AuthManager \<Rightarrow> AuthManager" where
  "clearFailedLogins u a = a\<lparr>loginFailures := AList.delete (normalizeUsername u) (loginFailures a)\<rparr>"

section \<open>Credentials of a request\<close>

definition or_hval :: "hval \<Rightarrow> hval \<Rightarrow> hval" where
  "or_hval a b = (if truthy a then a else b)"

definition sessionTokenFromRequest :: "request \<Rightarrow> string option" where
  "sessionTokenFromRequest r =
     (case or_hval (req_cookie r) (req_xtoken r) of HStr t \<Rightarrow> Some t | _ \<Rightarrow> None)"

definition bearerTokenFromRequest :: "request \<Rightarrow> string option" where
  "bearerTokenFromRequest r =
     (case req_authorization r of
        None \<Rightarrow> None
      | Some h \<Rightarrow>
          if \<not> startsWith h ''Bearer '' then None
          else or_undefined (trim (drop 7 h)))"

text \<open>The identifier matched by \<open>/^\/api\/instances\/([^/]+)\/public-metadata$/\<close>.\<close>

definition metadata_path_id :: "string \<Rightarrow> string option" where
  "metadata_path_id p =
     (case split_char (CHR ''/'') p of
        [a, b, c, i, d] \<Rightarrow>
          if a = [] \<and> b = ''api'' \<and> c = ''instances'' \<and> i \<noteq> [] \<and> d = ''public-metadata''
          then Some i else None
      | _ \<Rightarrow> None)"

text \<open>The test \<open>/^\/api\/instances\/[^/]+\/manager\//\<close>, also \<open>isManagerProxyPath\<close> of the server.\<close>

definition isManagerProxyPath :: "string \<Rightarrow> bool" where
  "isManagerProxyPath p =
     (case split_char (CHR ''/'') p of
        a # b # c # i # m # x # rest \<Rightarrow> a = [] \<and> b = ''api'' \<and> c = ''instances'' \<and> i \<noteq> [] \<and> m = ''manager''
      | _ \<Rightarrow> False)"

definition isManagerTokenAllowed :: "request \<Rightarrow> ServiceManager \<Rightarrow> bool" where
  "isManagerTokenAllowed r s =
     (case bearerTokenFromRequest r of
        None \<Rightarrow> False
      | Some tok \<Rightarrow>
          if req_path r = ''/api/instances'' then list_ex (\<lambda>x. managerToken x = Some tok) (getAll s)
          else case metadata_path_id (req_path r) of
                 Some i \<Rightarrow>
                   (case getById i s of
                      None \<Rightarrow> False
                    | Some x \<Rightarrow> truthy_str (managerToken x) \<and> managerToken x = Some tok)
               | None \<Rightarrow> False)"

section \<open>Middleware\<close>

definition unauthorized :: response where
  "unauthorized = (fail_with 401 ''Unauthorized'')\<lparr>r_requireAuth := True\<rparr>"

text \<open>The common end of the two middlewares: a valid session or a 401.\<close>

definition require_session :: "ms \<Rightarrow> request \<Rightarrow> AuthManager \<Rightarrow> AuthManager \<times> outcome" where
  "require_session now r a =
     (case sessionTokenFromRequest r of
        None \<Rightarrow> (a, Reply unauthorized)
      | Some tok \<Rightarrow>
          if tok = [] then (a, Reply unauthorized)
          else case validateSession now tok a of
                 (a', True) \<Rightarrow> (a', Next)
               | (a', False) \<Rightarrow> (a', Reply unauthorized))"

definition strictAuthMiddleware ::
  "ms \<Rightarrow> ServiceManager \<Rightarrow> request \<Rightarrow> AuthManager \<Rightarrow> AuthManager \<times> outcome" where
  "strictAuthMiddleware now s r a =
     (if \<not> hasAuth s
      then (a, Reply ((fail_with 403 ''Authentication must be configured before issuing shared relay tokens'')
                   \<lparr>r_requireAuth := True\<rparr>))
      else require_session now r a)"

definition exempt_path :: "string \<Rightarrow> bool" where
  "exempt_path p \<longleftrightarrow>
     p = ''/api/auth/login'' \<or> p = ''/api/auth/status'' \<or> isManagerProxyPath p \<or> \<not> startsWith p ''/api/''"

definition authMiddleware ::
  "ms \<Rightarrow> ServiceManager \<Rightarrow> request \<Rightarrow> AuthManager \<Rightarrow> AuthManager \<times> outcome" where
  "authMiddleware now s r a =
     (if exempt_path (req_path r) then (a, Next)
      else if \<not> hasAuth s then (a, Next)
      else if isManagerTokenAllowed r s then (a, Next)
      else require_session now r a)"

section \<open>Handlers\<close>

text \<open>\<open>POST /api/auth/login\<close>. A user name that is truthy and not a string makes
  \<open>normalizeUsername\<close> throw a TypeError, which the handler turns into a 500.\<close>

definition too_many :: "ms \<Rightarrow> response" where
  "too_many t = (fail_with 429 ''Too many failed login attempts'')\<lparr>r_retryAfter := Some (retry_seconds t), r_retryAfterMs := Some t\<rparr>"

definition login_check :: "ms \<Rightarrow> string \<Rightarrow> bool \<Rightarrow> string \<Rightarrow> AuthManager \<Rightarrow> AuthManager \<times> response" where
  "login_check now tok valid u a =
     (if \<not> valid
      then case registerFailedLogin now u a of
             (a', Some t) \<Rightarrow> (a', too_many t)
           | (a', None) \<Rightarrow> (a', fail_with 401 ''Invalid credentials'')
      else case createSession now tok u (clearFailedLogins u a) of
             (a', t) \<Rightarrow> (a', ok_with (Some t)))"

definition login ::
  "ms \<Rightarrow> string \<Rightarrow> ServiceManager \<Rightarrow> hval \<Rightarrow> hval \<Rightarrow> AuthManager \<Rightarrow> AuthManager \<times> response" where
  "login now tok s username password a =
     (if \<not> truthy username \<or> \<not> truthy password
      then (a, fail_with 400 ''Username and password required'')
      else case username of
        HStr u \<Rightarrow>
          (case canAttemptLogin now u a of
             (a', Some t) \<Rightarrow> (a', too_many t)
           | (a', None) \<Rightarrow>
               let valid = (case password of HStr p \<Rightarrow> verifyAuth u p s | _ \<Rightarrow> \<not> hasAuth s) in
               login_check now tok valid u a')
      | _ \<Rightarrow> (a, fail_with 500 ''username.trim is not a function''))"

text \<open>\<open>POST /api/auth/logout\<close>; deleting a key that is not a string changes nothing.\<close>

definition logout :: "request \<Rightarrow> AuthManager \<Rightarrow> AuthManager \<times> response" where
  "logout r a =
     (case or_hval (req_cookie r) (req_xtoken r) of
        HStr t \<Rightarrow> ((if t \<noteq> [] then deleteSession t a else a), ok_with None)
      | _ \<Rightarrow> (a, ok_with None))"

record auth_status =
  st_hasAuth :: bool
  st_isAuthenticated :: bool
  st_requireAuth :: bool

definition auth_status :: "ms \<Rightarrow> ServiceManager \<Rightarrow> request \<Rightarrow> AuthManager \<Rightarrow> AuthManager \<times> auth_status" where
  "auth_status now s r a =
     (let has = hasAuth s;
          (a', isauth) = (case or_hval (req_cookie r) (req_xtoken r) of
                          HStr t \<Rightarrow> if t \<noteq> [] then validateSession now t a else (a, False)
                        | _ \<Rightarrow> (a, False)) in
      (a', \<lparr>st_hasAuth = has, st_isAuthenticated = \<not> has \<or> isauth, st_requireAuth = has \<and> \<not> isauth\<rparr>))"

text \<open>\<open>POST /api/auth/setup\<close>. A truthy password that is not a string has no \<open>length\<close> below 8
  (\<open>undefined < 8\<close> is false), so its length test passes; string passwords are modelled.\<close>

definition auth_setup ::
  "js_error option \<Rightarrow> string \<Rightarrow> ms \<Rightarrow> string \<Rightarrow> string \<Rightarrow> string \<Rightarrow> ServiceManager \<times> AuthManager
     \<Rightarrow> (ServiceManager \<times> AuthManager) \<times> response" where
  "auth_setup io stamp now tok u p sa =
     (case sa of (s, a) \<Rightarrow>
      if hasAuth s then ((s, a), fail_with 403 ''Auth already configured'')
      else if u = [] \<or> p = [] then ((s, a), fail_with 400 ''Username and password required'')
      else if length p < 8 then ((s, a), fail_with 400 ''Password must be at least 8 characters'')
      else case setAuth io stamp u p s of
             (s', Inl e) \<Rightarrow> ((s', a), fail_with 500 (error_message e))
           | (s', Inr _) \<Rightarrow>
               (case createSession now tok u a of (a', t) \<Rightarrow> ((s', a'), ok_with (Some t))))"

definition change_password ::
  "js_error option \<Rightarrow> string \<Rightarrow> string \<Rightarrow> string \<Rightarrow> ServiceManager \<Rightarrow> ServiceManager \<times> response" where
  "change_password io stamp cur new s =
     (if cur = [] \<or> new = [] then (s, fail_with 400 ''Current and new password required'')
      else if length new < 8 then (s, fail_with 400 ''Password must be at least 8 characters'')
      else case getAuth s of
             None \<Rightarrow> (s, fail_with 401 ''Invalid current password'')
           | Some c \<Rightarrow>
               if cred_password c \<noteq> cur then (s, fail_with 401 ''Invalid current password'')
               else case setAuth io stamp (cred_username c) new s of
                      (s', Inl e) \<Rightarrow> (s', fail_with 500 (error_message e))
                    | (s', Inr _) \<Rightarrow> (s', ok_with None))"

section \<open>Sessions refine their history\<close>

text \<open>The calls that touch the session map, each with the time it runs at.\<close>

datatype session_event =
    EvCreate ms string string
  | EvValidate ms string
  | EvDelete ms string

primrec ev_time :: "session_event \<Rightarrow> ms" where
  "ev_time (EvCreate t k u) = t"
| "ev_time (EvValidate t k) = t"
| "ev_time (EvDelete t k) = t"

primrec session_step :: "AuthManager \<Rightarrow> session_event \<Rightarrow> AuthManager" where
  "session_step a (EvCreate t k u) = fst (createSession t k u a)"
| "session_step a (EvValidate t k) = fst (validateSession t k a)"
| "session_step a (EvDelete t k) = deleteSession k a"

text \<open>The specification looks only at the history, newest event first: the last creation or
  deletion of the token decides, and validations never matter.\<close>

fun session_valid_spec :: "ms \<Rightarrow> string \<Rightarrow> session_event list \<Rightarrow> bool" where
  "session_valid_spec now k [] = False"
| "session_valid_spec now k (EvCreate t k' u # h) =
     (if k' = k then now \<le> t + sessionDuration else session_valid_spec now k h)"
| "session_valid_spec now k (EvValidate t k' # h) = session_valid_spec now k h"
| "session_valid_spec now k (EvDelete t k' # h) = (k' \<noteq> k \<and> session_valid_spec now k h)"

lemma validateSession_iff:
  "snd (validateSession now k a) \<longleftrightarrow>
     (case map_of (sessions a) k of None \<Rightarrow> False | Some ses \<Rightarrow> now \<le> ses_expires ses)"
  by (simp add: validateSession_def split: option.split)

lemma map_of_sessions_create [simp]:
  "map_of (sessions (fst (createSession t k u a))) =
     (map_of (sessions a))(k \<mapsto> \<lparr>ses_username = u, ses_expires = t + sessionDuration\<rparr>)"
  by (simp add: createSession_def update_conv')

lemma map_of_sessions_delete [simp]:
  "map_of (sessions (deleteSession k a)) = (map_of (sessions a))(k := None)"
  by (simp add: deleteSession_def delete_conv')

lemma map_of_sessions_validate:
  "map_of (sessions (fst (validateSession t k a))) =
     (case map_of (sessions a) k of
        None \<Rightarrow> map_of (sessions a)
      | Some ses \<Rightarrow> if t > ses_expires ses then (map_of (sessions a))(k := None) else map_of (sessions a))"
  by (simp add: validateSession_def delete_conv' split: option.split)

lemma session_step_valid:
  assumes "ev_time e \<le> now"
  shows "snd (validateSession now k (session_step a e)) \<longleftrightarrow>
           (case e of
              EvCreate t k' u \<Rightarrow> if k' = k then now \<le> t + sessionDuration else snd (validateSession now k a)
            | EvValidate t k' \<Rightarrow> snd (validateSession now k a)
            | EvDelete t k' \<Rightarrow> k' \<noteq> k \<and> snd (validateSession now k a))"
  using assms
  by (cases e) (auto simp: validateSession_iff map_of_sessions_validate split: option.split)

text \<open>C8: A session token validates exactly when the history of calls says so: its newest creation is
  at most 24 hours old and no deletion came after it. Expiry clean-up done by earlier validations and
  calls on other tokens never change the answer.\<close>

theorem session_history_refines:
  assumes "\<forall>e \<in> set evs. ev_time e \<le> now"
  shows "snd (validateSession now k (foldl session_step new_AuthManager evs)) \<longleftrightarrow>
           session_valid_spec now k (rev evs)"
  using assms
proof (induction evs rule: rev_induct)
  case Nil
  then show ?case by (simp add: validateSession_iff new_AuthManager_def)
next
  case (snoc e evs)
  then show ?case by (cases e) (simp_all add: session_step_valid del: session_step.simps)
qed

theorem session_history_refines_witness:
  "snd (validateSession 5000 ''t'' (foldl session_step new_AuthManager
      [EvCreate 0 ''t'' ''admin'', EvCreate 1 ''x'' ''admin'', EvValidate 2 ''t'', EvDelete 3 ''x'']))"
  by (subst session_history_refines) (simp_all add: sessionDuration_def)

section \<open>Login lockout\<close>

lemmas lockout_defs = loginFailureWindow_def loginFailureThreshold_def loginLockoutDuration_def

lemma canAttemptLogin_other:
  "normalizeUsername v \<noteq> normalizeUsername u \<Longrightarrow>
     map_of (loginFailures (fst (canAttemptLogin now v a))) (normalizeUsername u) =
     map_of (loginFailures a) (normalizeUsername u)"
  by (auto simp: canAttemptLogin_def Let_def delete_conv' split: option.split)

lemma registerFailedLogin_other:
  "normalizeUsername v \<noteq> normalizeUsername u \<Longrightarrow>
     map_of (loginFailures (fst (registerFailedLogin now v a))) (normalizeUsername u) =
     map_of (loginFailures a) (normalizeUsername u)"
  by (auto simp: registerFailedLogin_def Let_def update_conv' split: option.split)

text \<open>The failure entry of one user name, and what an attempt does to it.\<close>

definition failure_of :: "string \<Rightarrow> AuthManager \<Rightarrow> login_failure option" where
  "failure_of u a = map_of (loginFailures a) (normalizeUsername u)"

lemma failure_of_createSession [simp]: "failure_of u (fst (createSession t k v a)) = failure_of u a"
  by (simp add: failure_of_def createSession_def)

lemma failure_of_clear:
  "failure_of u (clearFailedLogins v a) =
     (if normalizeUsername v = normalizeUsername u then None else failure_of u a)"
  by (simp add: failure_of_def clearFailedLogins_def delete_conv')

lemma login_other_user:
  assumes "normalizeUsername v \<noteq> normalizeUsername u"
  shows "failure_of u (fst (login now tok s (HStr v) pw a)) = failure_of u a"
proof -
  have can: "failure_of u (fst (canAttemptLogin now v a)) = failure_of u a"
    using canAttemptLogin_other [OF assms] by (simp add: failure_of_def)
  have reg: "failure_of u (fst (registerFailedLogin now v b)) = failure_of u b" for b
    using registerFailedLogin_other [OF assms] by (simp add: failure_of_def)
  have "failure_of u (fst (login_check now tok ok v b)) = failure_of u b" for ok b
    using reg [of b] assms
    by (auto simp: login_check_def failure_of_clear split_beta split: option.split)
  then show ?thesis
    using can by (auto simp: login_def Let_def split: prod.split option.split)
qed

text \<open>A wrong attempt for \<open>u\<close>, and whether the handler compared the password. Every attempt of
  the sequence carries credentials that \<open>verifyAuth\<close> refuses when it names \<open>u\<close>.\<close>

record attempt =
  at_time :: ms
  at_user :: string
  at_password :: hval
  at_token :: string

definition run_login :: "ServiceManager \<Rightarrow> attempt \<Rightarrow> AuthManager \<Rightarrow> AuthManager \<times> response" where
  "run_login s x a = login (at_time x) (at_token x) s (HStr (at_user x)) (at_password x) a"

definition password_checked :: "attempt \<Rightarrow> AuthManager \<Rightarrow> bool" where
  "password_checked x a \<longleftrightarrow> at_user x \<noteq> [] \<and> truthy (at_password x) \<and>
     snd (canAttemptLogin (at_time x) (at_user x) a) = None"

definition for_user :: "string \<Rightarrow> attempt \<Rightarrow> bool" where
  "for_user u x \<longleftrightarrow> normalizeUsername (at_user x) = normalizeUsername u"

definition wrong_guess :: "ServiceManager \<Rightarrow> attempt \<Rightarrow> bool" where
  "wrong_guess s x \<longleftrightarrow> hasAuth s \<and> (case at_password x of HStr p \<Rightarrow> \<not> verifyAuth (at_user x) p s | _ \<Rightarrow> True)"

fun checked_guesses :: "ServiceManager \<Rightarrow> string \<Rightarrow> attempt list \<Rightarrow> AuthManager \<Rightarrow> nat" where
  "checked_guesses s u [] a = 0"
| "checked_guesses s u (x # xs) a =
     (if for_user u x \<and> password_checked x a then 1 else 0) + checked_guesses s u xs (fst (run_login s x a))"

text \<open>The failure entry of a user after one wrong attempt that was checked, or one that was
  refused or malformed.\<close>

definition checked_entry :: "ms \<Rightarrow> login_failure option \<Rightarrow> login_failure" where
  "checked_entry now e =
     (case e of
        None \<Rightarrow> \<lparr>lf_count = 1, lf_first = now, lf_blockedUntil = None\<rparr>
      | Some f \<Rightarrow>
          if now - lf_first f > loginFailureWindow then \<lparr>lf_count = 1, lf_first = now, lf_blockedUntil = None\<rparr>
          else \<lparr>lf_count = lf_count f + 1, lf_first = lf_first f,
                lf_blockedUntil = (if lf_count f + 1 \<ge> loginFailureThreshold
                                   then Some (now + loginLockoutDuration) else None)\<rparr>)"

lemma checked_guess_entry:
  assumes "for_user u x" and "wrong_guess s x" and "password_checked x a"
  shows "failure_of u (fst (run_login s x a)) = Some (checked_entry (at_time x) (failure_of u a))"
proof -
  have reg: "failure_of u (fst (registerFailedLogin t v b)) = Some (checked_entry t (failure_of u b))"
    if "normalizeUsername v = normalizeUsername u" for t v b
    using that
    by (auto simp: failure_of_def registerFailedLogin_def checked_entry_def Let_def update_conv' split: option.split)
  have can: "checked_entry t (failure_of u (fst (canAttemptLogin t v b))) = checked_entry t (failure_of u b)"
    if "normalizeUsername v = normalizeUsername u" for t v b
    using that
    by (auto simp: failure_of_def canAttemptLogin_def checked_entry_def Let_def delete_conv' split: option.split)
  have "(case at_password x of HStr p \<Rightarrow> verifyAuth (at_user x) p s | _ \<Rightarrow> \<not> hasAuth s) = False"
    using assms(2) by (auto simp: wrong_guess_def split: hval.split)
  then have "fst (run_login s x a) =
      fst (registerFailedLogin (at_time x) (at_user x) (fst (canAttemptLogin (at_time x) (at_user x) a)))"
    using assms(3)
    by (auto simp: run_login_def login_def password_checked_def login_check_def Let_def split_beta
          split: option.split)
  then show ?thesis
    using reg can assms(1) by (simp add: for_user_def)
qed

lemma unchecked_guess_entry:
  assumes "for_user u x" and "\<not> password_checked x a"
  shows "failure_of u (fst (run_login s x a)) = failure_of u a"
proof -
  have "fst (run_login s x a) = a"
    if "at_user x \<noteq> []" "truthy (at_password x)" "snd (canAttemptLogin (at_time x) (at_user x) a) \<noteq> None"
  proof -
    have "fst (canAttemptLogin (at_time x) (at_user x) a) = a"
      using that(3) by (auto simp: canAttemptLogin_def Let_def split: option.splits if_splits)
    then show ?thesis
      using that by (auto simp: run_login_def login_def split_beta split: option.split)
  qed
  moreover have "fst (run_login s x a) = a" if "at_user x = [] \<or> \<not> truthy (at_password x)"
    using that by (auto simp: run_login_def login_def)
  ultimately show ?thesis using assms(2) unfolding password_checked_def by metis
qed

text \<open>The budget of guesses: five for every started window since \<open>t0\<close>, and what the current
  window has used.\<close>

definition guess_budget :: "ms \<Rightarrow> ms \<Rightarrow> nat \<Rightarrow> login_failure option \<Rightarrow> bool" where
  "guess_budget t0 now n e \<longleftrightarrow> t0 \<le> now \<and>
     (case e of
        None \<Rightarrow> int n \<le> 5 * ((now - t0) div loginFailureWindow)
      | Some f \<Rightarrow> t0 \<le> lf_first f \<and> lf_first f \<le> now \<and> lf_count f \<le> 5 \<and>
          int n \<le> 5 * ((lf_first f - t0) div loginFailureWindow) + int (lf_count f) \<and>
          (lf_count f = 5 \<longrightarrow> (\<exists>b \<ge> lf_first f + loginLockoutDuration. lf_blockedUntil f = Some b)))"

lemma guess_budget_later: "guess_budget t0 now n e \<Longrightarrow> now \<le> t \<Longrightarrow> guess_budget t0 t n e"
proof -
  assume a: "guess_budget t0 now n e" and t: "now \<le> t"
  have "(now - t0) div loginFailureWindow \<le> (t - t0) div loginFailureWindow"
    using t by (intro zdiv_mono1) (simp_all add: lockout_defs)
  then show ?thesis using a t by (auto simp: guess_budget_def split: option.splits)
qed

lemma window_div_step:
  assumes "f + loginFailureWindow < t"
  shows "(f - t0) div loginFailureWindow + 1 \<le> (t - t0) div loginFailureWindow"
proof -
  have "(f - t0 + loginFailureWindow) div loginFailureWindow \<le> (t - t0) div loginFailureWindow"
    using assms by (intro zdiv_mono1) (simp_all add: lockout_defs)
  then show ?thesis by (simp add: lockout_defs)
qed

lemma guess_budget_checked:
  assumes b: "guess_budget t0 now n e" and t: "now \<le> t" and t0: "0 \<le> t0"
    and free: "\<And>f b. e = Some f \<Longrightarrow> lf_blockedUntil f = Some b \<Longrightarrow> b \<noteq> 0 \<Longrightarrow> b \<le> t"
  shows "guess_budget t0 t (Suc n) (Some (checked_entry t e))"
proof (cases e)
  case None
  have "(now - t0) div loginFailureWindow \<le> (t - t0) div loginFailureWindow"
    using t by (intro zdiv_mono1) (simp_all add: lockout_defs)
  then show ?thesis
    using b t None by (simp add: guess_budget_def checked_entry_def)
next
  case (Some f)
  note inv = b [unfolded guess_budget_def Some, simplified]
  show ?thesis
  proof (cases "t - lf_first f > loginFailureWindow")
    case True
    then have "(lf_first f - t0) div loginFailureWindow + 1 \<le> (t - t0) div loginFailureWindow"
      by (intro window_div_step) simp
    then show ?thesis
      using True inv t Some by (simp add: guess_budget_def checked_entry_def)
  next
    case False
    have "lf_count f \<noteq> 5"
    proof
      assume "lf_count f = 5"
      then obtain c where "c \<ge> lf_first f + loginLockoutDuration" "lf_blockedUntil f = Some c"
        using inv by auto
      then show False using free [OF Some, of c] inv False t0 by (auto simp: lockout_defs)
    qed
    then show ?thesis
      using False inv t Some
      by (auto simp: guess_budget_def checked_entry_def loginFailureThreshold_def)
  qed
qed

lemma password_checked_free:
  "password_checked x a \<Longrightarrow> for_user u x \<Longrightarrow> failure_of u a = Some f \<Longrightarrow>
     lf_blockedUntil f = Some b \<Longrightarrow> b \<noteq> 0 \<Longrightarrow> b \<le> at_time x"
  by (auto simp: password_checked_def for_user_def failure_of_def canAttemptLogin_def Let_def
        split: option.splits if_splits)

fun times_from :: "ms \<Rightarrow> attempt list \<Rightarrow> bool" where
  "times_from t [] = True"
| "times_from t (x # xs) = (t \<le> at_time x \<and> times_from (at_time x) xs)"

fun end_time :: "ms \<Rightarrow> attempt list \<Rightarrow> ms" where
  "end_time t [] = t"
| "end_time t (x # xs) = end_time (at_time x) xs"

lemma checked_guesses_budget:
  assumes "guess_budget t0 now n (failure_of u a)" and "times_from now xs" and "0 \<le> t0"
    and "\<forall>x \<in> set xs. for_user u x \<longrightarrow> wrong_guess s x"
  shows "\<exists>e. guess_budget t0 (end_time now xs) (n + checked_guesses s u xs a) e"
  using assms
proof (induction xs arbitrary: now n a)
  case Nil
  then show ?case by auto
next
  case (Cons x xs)
  let ?a = "fst (run_login s x a)"
  have le: "now \<le> at_time x" using Cons.prems(2) by simp
  show ?case
  proof (cases "for_user u x \<and> password_checked x a")
    case True
    have "guess_budget t0 (at_time x) (Suc n) (failure_of u ?a)"
      using guess_budget_checked [OF Cons.prems(1) le Cons.prems(3)] password_checked_free [of x a u]
        checked_guess_entry [of u x s a] True Cons.prems(4) by auto
    from Cons.IH [OF this] Cons.prems True show ?thesis by simp
  next
    case False
    have "failure_of u ?a = failure_of u a"
      using False unchecked_guess_entry [of u x a s] login_other_user [of "at_user x" u]
      by (cases "for_user u x") (auto simp: run_login_def for_user_def)
    then have "guess_budget t0 (at_time x) n (failure_of u ?a)"
      using guess_budget_later [OF Cons.prems(1) le] by simp
    from Cons.IH [OF this] Cons.prems False show ?thesis by auto
  qed
qed

lemma guess_budget_bound:
  assumes "guess_budget t0 now n e"
  shows "int n \<le> 5 * ((now - t0) div loginFailureWindow + 1)"
proof (cases e)
  case None
  then show ?thesis using assms by (simp add: guess_budget_def)
next
  case (Some f)
  then have "(lf_first f - t0) div loginFailureWindow \<le> (now - t0) div loginFailureWindow"
    using assms by (intro zdiv_mono1) (simp_all add: guess_budget_def lockout_defs)
  then show ?thesis using assms Some by (simp add: guess_budget_def)
qed

text \<open>C1: Brute force is bounded. In any sequence of login requests for any users in which no attempt
  for \<open>u\<close> has the right credentials, the number of passwords compared for \<open>u\<close> is at most five per
  started ten-minute window, whatever spelling of the name (case, outer blanks) is used.\<close>

theorem login_guess_bound:
  assumes "failure_of u a = None" and "0 \<le> t0" and "times_from t0 xs"
    and "\<forall>x \<in> set xs. for_user u x \<longrightarrow> wrong_guess s x"
  shows "int (checked_guesses s u xs a) \<le> 5 * ((end_time t0 xs - t0) div loginFailureWindow + 1)"
proof -
  have "guess_budget t0 t0 0 (failure_of u a)" using assms(1) by (simp add: guess_budget_def)
  from checked_guesses_budget [OF this assms(3,2,4)] obtain e
    where "guess_budget t0 (end_time t0 xs) (checked_guesses s u xs a) e" by auto
  then show ?thesis by (rule guess_budget_bound)
qed

definition guarded_manager :: ServiceManager where
  "guarded_manager = (new_ServiceManager [] None)\<lparr>sm_data := \<lparr>instances = [], lastUpdated = [],
     auth = Some \<lparr>cred_username = ''admin'', cred_password = ''secret-pass''\<rparr>\<rparr>\<rparr>"

definition guess_at :: "ms \<Rightarrow> string \<Rightarrow> attempt" where
  "guess_at t u = \<lparr>at_time = t, at_user = u, at_password = HStr ''guess'', at_token = ''tok''\<rparr>"

theorem login_guess_bound_witness:
  "int (checked_guesses guarded_manager ''admin''
      (map2 guess_at [1, 2, 3, 4, 5, 6, 7] [''admin'', ''Admin '', ''ADMIN'', ''admin'', '' admin'', ''admin'', ''Admin''])
      new_AuthManager) \<le> 5"
  using login_guess_bound [of "''admin''" new_AuthManager 1
      "map2 guess_at [1, 2, 3, 4, 5, 6, 7] [''admin'', ''Admin '', ''ADMIN'', ''admin'', '' admin'', ''admin'', ''Admin'']"
      guarded_manager]
  by (simp add: failure_of_def new_AuthManager_def guess_at_def wrong_guess_def guarded_manager_def
      hasAuth_def getAuth_def verifyAuth_def loginFailureWindow_def)

subsection \<open>A lockout holds until the time it announces\<close>

definition locked_until :: "string \<Rightarrow> ms \<Rightarrow> AuthManager \<Rightarrow> bool" where
  "locked_until u b a \<longleftrightarrow> b \<noteq> 0 \<and> (\<exists>f. failure_of u a = Some f \<and> lf_blockedUntil f = Some b)"

lemma locked_refuses:
  "locked_until u b a \<Longrightarrow> for_user u x \<Longrightarrow> at_time x < b \<Longrightarrow>
     canAttemptLogin (at_time x) (at_user x) a = (a, Some (b - at_time x))"
  by (auto simp: locked_until_def for_user_def failure_of_def canAttemptLogin_def Let_def)

lemma locked_kept:
  assumes "locked_until u b a" and "at_time x < b"
  shows "locked_until u b (fst (run_login s x a))"
proof (cases "for_user u x")
  case True
  then have "\<not> password_checked x a"
    using locked_refuses [OF assms(1) True assms(2)] by (simp add: password_checked_def)
  then show ?thesis
    using unchecked_guess_entry [OF True] assms(1) by (simp add: locked_until_def)
next
  case False
  then show ?thesis
    using login_other_user [of "at_user x" u] assms(1) by (simp add: locked_until_def run_login_def for_user_def)
qed

lemma locked_kept_run:
  "locked_until u b a \<Longrightarrow> \<forall>x \<in> set xs. at_time x < b \<Longrightarrow>
     locked_until u b (foldl (\<lambda>a x. fst (run_login s x a)) a xs)"
  by (induction xs arbitrary: a) (auto intro: locked_kept)

lemma registerFailedLogin_locks:
  assumes "snd (registerFailedLogin now v a) = Some r" and "0 \<le> now"
  shows "locked_until v (now + r) (fst (registerFailedLogin now v a))"
  using assms
  by (auto simp: registerFailedLogin_def locked_until_def failure_of_def Let_def update_conv' lockout_defs
      split: option.splits if_splits)

lemma canAttemptLogin_locks:
  assumes "snd (canAttemptLogin now v a) = Some r"
  shows "locked_until v (now + r) (fst (canAttemptLogin now v a))"
  using assms
  by (auto simp: canAttemptLogin_def locked_until_def failure_of_def Let_def split: option.splits if_splits)

lemma login_429_locks:
  assumes "r_retryAfterMs (snd (run_login s x a)) = Some r" and "0 \<le> at_time x"
  shows "locked_until (at_user x) (at_time x + r) (fst (run_login s x a))"
  using assms registerFailedLogin_locks canAttemptLogin_locks
  by (auto simp: run_login_def login_def login_check_def fail_with_def ok_with_def too_many_def Let_def split_beta
      split: if_splits option.splits)

text \<open>C11: A lockout is kept to the millisecond it announces. When a login request is answered with
  \<open>retryAfterMs = r\<close>, every later well-formed request for that user before \<open>r\<close> has passed is answered
  429 without a session, also one with the right password, whatever other logins run in between.\<close>

theorem lockout_announced_is_kept:
  assumes "run_login s x a = (a', resp)" and "r_retryAfterMs resp = Some r" and "0 \<le> at_time x"
    and "\<forall>z \<in> set xs. at_time z < at_time x + r"
    and "for_user (at_user x) y" and "at_user y \<noteq> []" and "truthy (at_password y)" and "at_time y < at_time x + r"
  shows "r_status (snd (run_login s y (foldl (\<lambda>a z. fst (run_login s z a)) a' xs))) = 429 \<and>
         r_session (snd (run_login s y (foldl (\<lambda>a z. fst (run_login s z a)) a' xs))) = None"
proof -
  have "locked_until (at_user x) (at_time x + r) a'"
    using login_429_locks [of s x a r] assms(1-3) by simp
  then have "locked_until (at_user x) (at_time x + r) (foldl (\<lambda>a z. fst (run_login s z a)) a' xs)"
    using assms(4) by (rule locked_kept_run)
  from locked_refuses [OF this assms(5,8)] show ?thesis
    using assms(6,7) by (simp add: run_login_def login_def too_many_def fail_with_def)
qed

definition locked_sample :: AuthManager where
  "locked_sample = \<lparr>sessions = [],
     loginFailures = [(''admin'', \<lparr>lf_count = 4, lf_first = 1, lf_blockedUntil = None\<rparr>)]\<rparr>"

lemma normalize_admin: "normalizeUsername ''admin'' = ''admin''"
  by code_simp

lemma locked_sample_reply:
  "run_login guarded_manager (guess_at 5 ''admin'') locked_sample =
     (\<lparr>sessions = [], loginFailures = [(''admin'',
        \<lparr>lf_count = 5, lf_first = 1, lf_blockedUntil = Some 900005\<rparr>)]\<rparr>, too_many 900000)"
  by (simp add: run_login_def guess_at_def login_def canAttemptLogin_def registerFailedLogin_def login_check_def
      locked_sample_def normalize_admin guarded_manager_def verifyAuth_def getAuth_def lockout_defs)

theorem lockout_announced_is_kept_witness:
  "r_status (snd (run_login guarded_manager
      ((guess_at 900004 ''admin'')\<lparr>at_password := HStr ''secret-pass''\<rparr>)
      (fst (run_login guarded_manager (guess_at 5 ''admin'') locked_sample)))) = 429"
  using lockout_announced_is_kept [OF locked_sample_reply, of 900000 "[]"
      "(guess_at 900004 ''admin'')\<lparr>at_password := HStr ''secret-pass''\<rparr>"]
  unfolding locked_sample_reply by (simp add: too_many_def guess_at_def for_user_def)

section \<open>What the middleware lets through\<close>

lemma require_session_Next:
  "snd (require_session now r a) = Next \<longleftrightarrow>
     (\<exists>tok. sessionTokenFromRequest r = Some tok \<and> tok \<noteq> [] \<and> snd (validateSession now tok a))"
  by (auto simp: require_session_def split: option.splits prod.splits bool.splits)

lemma join_split_path: "split_char c s = xs \<Longrightarrow> s = join_with [c] xs"
  using split_char_join [of c s] by simp

lemma metadata_path_id_Some:
  assumes "metadata_path_id p = Some i"
  shows "p = ''/api/instances/'' @ i @ ''/public-metadata'' \<and> i \<noteq> [] \<and> CHR ''/'' \<notin> set i"
proof -
  have sp: "split_char (CHR ''/'') p = [[], ''api'', ''instances'', i, ''public-metadata'']" and i: "i \<noteq> []"
    using assms by (auto simp: metadata_path_id_def split: list.splits if_splits)
  have "p = ''/api/instances/'' @ i @ ''/public-metadata''"
    using join_split_path [OF sp] by simp
  moreover have "CHR ''/'' \<notin> set i"
    using split_char_no_sep [of i "CHR ''/''" p] sp by simp
  ultimately show ?thesis using i by simp
qed

text \<open>C3: A manager token opens nothing but two routes. When authentication is configured, a guarded
  API request that passes the middleware has a valid session, or carries the bearer token of some
  instance and asks for \<open>/api/instances\<close>, or asks for the public metadata of the one instance whose
  token it carries.\<close>

theorem authMiddleware_sound:
  assumes "hasAuth s" and "\<not> exempt_path (req_path r)" and "snd (authMiddleware now s r a) = Next"
  shows "(\<exists>tok. sessionTokenFromRequest r = Some tok \<and> tok \<noteq> [] \<and> snd (validateSession now tok a)) \<or>
     (\<exists>tok. bearerTokenFromRequest r = Some tok \<and> tok \<noteq> [] \<and>
        ((req_path r = ''/api/instances'' \<and> (\<exists>x \<in> set (getAll s). managerToken x = Some tok)) \<or>
         (\<exists>i x. req_path r = ''/api/instances/'' @ i @ ''/public-metadata'' \<and> i \<noteq> [] \<and> CHR ''/'' \<notin> set i \<and>
            getById i s = Some x \<and> managerToken x = Some tok)))"
proof (cases "isManagerTokenAllowed r s")
  case True
  then obtain tok where tok: "bearerTokenFromRequest r = Some tok"
    by (auto simp: isManagerTokenAllowed_def split: option.splits)
  then have "tok \<noteq> []"
    by (auto simp: bearerTokenFromRequest_def or_undefined_def split: option.splits if_splits)
  moreover have "(req_path r = ''/api/instances'' \<and> (\<exists>x \<in> set (getAll s). managerToken x = Some tok)) \<or>
      (\<exists>i x. metadata_path_id (req_path r) = Some i \<and> getById i s = Some x \<and> managerToken x = Some tok)"
    using True tok by (auto simp: isManagerTokenAllowed_def list_ex_iff split: if_splits option.splits)
  ultimately show ?thesis using tok metadata_path_id_Some by blast
next
  case False
  then have "snd (require_session now r a) = Next"
    using assms by (simp add: authMiddleware_def)
  then show ?thesis by (simp add: require_session_Next)
qed

definition instances_request :: request where
  "instances_request = \<lparr>req_path = ''/api/instances'', req_cookie = HStr ''t'', req_xtoken = HAbsent,
     req_authorization = None\<rparr>"

theorem authMiddleware_sound_witness:
  "snd (authMiddleware 5 guarded_manager instances_request
      (fst (createSession 0 ''t'' ''admin'' new_AuthManager))) = Next \<and>
   (\<exists>tok. sessionTokenFromRequest instances_request = Some tok \<or> bearerTokenFromRequest instances_request = Some tok)"
proof -
  have ex: "\<not> exempt_path (req_path instances_request)"
    by code_simp
  have auth: "hasAuth guarded_manager"
    by (simp add: guarded_manager_def hasAuth_def getAuth_def)
  have pass: "snd (authMiddleware 5 guarded_manager instances_request
      (fst (createSession 0 ''t'' ''admin'' new_AuthManager))) = Next"
    using ex
    by (auto simp: authMiddleware_def require_session_Next validateSession_iff sessionDuration_def
        sessionTokenFromRequest_def instances_request_def or_hval_def)
  show ?thesis using authMiddleware_sound [OF auth ex pass] pass by blast
qed

text \<open>C33: Every guarded route can be reached without credentials. The guard compares the path prefix byte by
  byte, so for every guarded path, in every state with a login configured, a request without credentials is
  refused, and the same request with \<open>/API/\<close> for \<open>/api/\<close>, the same path to a router that ignores
  case, passes.\<close>

theorem authMiddleware_prefix_is_case_sensitive:
  assumes "\<not> exempt_path p" and "hasAuth s" and "sessionTokenFromRequest r = None" and "bearerTokenFromRequest r = None"
  shows "authMiddleware now s (r\<lparr>req_path := p\<rparr>) a = (a, Reply unauthorized) \<and>
    (\<exists>q. toLowerCase q = toLowerCase p \<and> authMiddleware now s (r\<lparr>req_path := q\<rparr>) a = (a, Next))"
proof -
  let ?q = "''/API/'' @ drop 5 p"
  have "startsWith p ''/api/''" using assms(1) by (simp add: exempt_path_def)
  then have p: "p = ''/api/'' @ drop 5 p" by (auto simp: startsWith_def prefix_def)
  have "map lower_char ''/API/'' = map lower_char ''/api/''" by code_simp
  then have "toLowerCase ?q = toLowerCase (''/api/'' @ drop 5 p)" by (simp only: toLowerCase_def map_append)
  then have "toLowerCase ?q = toLowerCase p" using p by simp
  moreover have "exempt_path ?q" by (simp add: exempt_path_def startsWith_def)
  moreover have "sessionTokenFromRequest (r\<lparr>req_path := p\<rparr>) = None" "bearerTokenFromRequest (r\<lparr>req_path := p\<rparr>) = None"
    using assms(3,4) by (simp_all add: sessionTokenFromRequest_def bearerTokenFromRequest_def)
  ultimately show ?thesis
    using assms(1,2) by (auto simp: authMiddleware_def isManagerTokenAllowed_def require_session_def)
qed

theorem authMiddleware_prefix_is_case_sensitive_witness:
  "\<exists>q. toLowerCase q = ''/api/instances'' \<and>
    authMiddleware 5 guarded_manager (instances_request\<lparr>req_cookie := HAbsent, req_path := q\<rparr>) new_AuthManager = (new_AuthManager, Next)"
proof -
  let ?r = "instances_request\<lparr>req_cookie := HAbsent\<rparr>"
  have "\<not> exempt_path ''/api/instances''" "toLowerCase ''/api/instances'' = ''/api/instances''" by code_simp+
  moreover have "hasAuth guarded_manager" by (simp add: guarded_manager_def hasAuth_def getAuth_def)
  moreover have "sessionTokenFromRequest ?r = None" "bearerTokenFromRequest ?r = None"
    by (simp_all add: sessionTokenFromRequest_def bearerTokenFromRequest_def instances_request_def or_hval_def)
  ultimately show ?thesis using authMiddleware_prefix_is_case_sensitive [of "''/api/instances''" guarded_manager ?r 5 new_AuthManager] by auto
qed

end
