(* ===== verification/SecurityGuard.thy ===== *)
theory SecurityGuard
  imports AuthManager
begin

text \<open>
  The request guard of \<open>FerrumGUI/src/index.ts\<close>: user-agent filter, one token bucket per client
  address with violation counting and temporary blocks, the guard middleware, the WebSocket upgrade
  listener and the write lock during a GUI update.

  The \<open>Map\<close> of bucket states is an association list; an object changed in place is an update of
  its entry. Token counts are exact rationals: rounding of the runtime's floating point numbers is
  not modelled. The environment settings are the fields of the record \<open>sec_config\<close>.
\<close>

datatype SecurityScope = Web | Api | Auth | Websocket

record SecurityState =
  ss_tokens :: rat
  ss_lastRefillAt :: ms
  ss_violations :: nat
  ss_blockedUntil :: "ms option"

record sec_config =
  http_per_minute :: int
  http_burst :: int
  auth_per_minute :: int
  auth_burst :: int
  websocket_per_minute :: int
  websocket_burst :: int
  block_after :: int
  block_ms :: ms
  extra_agents :: string

definition readPositiveIntegerEnv :: "string option \<Rightarrow> int \<Rightarrow> int" where
  "readPositiveIntegerEnv raw fallback =
     (case raw of
        None \<Rightarrow> fallback
      | Some r \<Rightarrow>
          if r = [] then fallback
          else case parseInt r of
                 None \<Rightarrow> fallback
               | Some n \<Rightarrow> if n \<le> 0 then fallback else n)"

text \<open>The settings read from the environment \<open>env\<close> at start-up, with the source's defaults.\<close>

definition read_config :: "(string \<Rightarrow> string option) \<Rightarrow> sec_config" where
  "read_config env = \<lparr>
     http_per_minute = readPositiveIntegerEnv (env ''FERRUMPROXYGUI_RATE_LIMIT_PER_MINUTE'') 240,
     http_burst = readPositiveIntegerEnv (env ''FERRUMPROXYGUI_RATE_LIMIT_BURST'') 80,
     auth_per_minute = readPositiveIntegerEnv (env ''FERRUMPROXYGUI_AUTH_RATE_LIMIT_PER_MINUTE'') 30,
     auth_burst = readPositiveIntegerEnv (env ''FERRUMPROXYGUI_AUTH_RATE_LIMIT_BURST'') 10,
     websocket_per_minute = readPositiveIntegerEnv (env ''FERRUMPROXYGUI_WEBSOCKET_RATE_LIMIT_PER_MINUTE'') 30,
     websocket_burst = readPositiveIntegerEnv (env ''FERRUMPROXYGUI_WEBSOCKET_RATE_LIMIT_BURST'') 12,
     block_after = readPositiveIntegerEnv (env ''FERRUMPROXYGUI_RATE_LIMIT_BLOCK_AFTER'') 6,
     block_ms = readPositiveIntegerEnv (env ''FERRUMPROXYGUI_RATE_LIMIT_BLOCK_MS'') (10 * 60 * 1000),
     extra_agents = (case env ''FERRUMPROXYGUI_BLOCKED_USER_AGENTS'' of None \<Rightarrow> [] | Some v \<Rightarrow> v)\<rparr>"

definition DEFAULT_BLOCKED_USER_AGENT_FRAGMENTS :: "string list" where
  "DEFAULT_BLOCKED_USER_AGENT_FRAGMENTS =
     [''curl/'', ''wget/'', ''python-requests'', ''python-httpx'', ''aiohttp'', ''httpx/'', ''go-http-client'',
      ''java/'', ''libwww-perl'', ''masscan'', ''nmap'', ''nikto'', ''sqlmap'', ''nessus'', ''acunetix'',
      ''zgrab'', ''w3af'', ''scrapy'']"

definition blockedUserAgentFragments :: "sec_config \<Rightarrow> string list" where
  "blockedUserAgentFragments c =
     nub (DEFAULT_BLOCKED_USER_AGENT_FRAGMENTS @
       filter (\<lambda>f. f \<noteq> []) (map (\<lambda>f. toLowerCase (trim f)) (split_char (CHR '','') (extra_agents c))))"

definition isBlockedUserAgent :: "sec_config \<Rightarrow> string option \<Rightarrow> bool" where
  "isBlockedUserAgent c ua =
     (case ua of
        None \<Rightarrow> True
      | Some s \<Rightarrow>
          if s = [] \<or> trim s = [] then True
          else list_ex (\<lambda>f. str_includes (toLowerCase s) f) (blockedUserAgentFragments c))"

definition selectSecurityScope :: "string \<Rightarrow> SecurityScope" where
  "selectSecurityScope p =
     (if startsWith p ''/api/auth/'' then Auth
      else if startsWith p ''/api/'' then Api
      else Web)"

record policy =
  pol_capacity :: rat
  pol_refillPerMs :: rat

definition getRateLimitPolicy :: "sec_config \<Rightarrow> SecurityScope \<Rightarrow> policy" where
  "getRateLimitPolicy c scope =
     (case scope of
        Auth \<Rightarrow> \<lparr>pol_capacity = of_int (auth_burst c), pol_refillPerMs = of_int (auth_per_minute c) / 60000\<rparr>
      | Websocket \<Rightarrow>
          \<lparr>pol_capacity = of_int (websocket_burst c), pol_refillPerMs = of_int (websocket_per_minute c) / 60000\<rparr>
      | _ \<Rightarrow> \<lparr>pol_capacity = of_int (http_burst c), pol_refillPerMs = of_int (http_per_minute c) / 60000\<rparr>)"

type_synonym sec_map = "(string \<times> SecurityState) list"

definition getSecurityState :: "string \<Rightarrow> ms \<Rightarrow> rat \<Rightarrow> sec_map \<Rightarrow> sec_map \<times> SecurityState" where
  "getSecurityState key now initial mp =
     (case map_of mp key of
        Some st \<Rightarrow> (mp, st)
      | None \<Rightarrow>
          let st = \<lparr>ss_tokens = initial, ss_lastRefillAt = now, ss_violations = 0, ss_blockedUntil = None\<rparr> in
          (AList.update key st mp, st))"

text \<open>\<open>state.blockedUntil && state.blockedUntil > now\<close>\<close>

definition blocked_at :: "ms \<Rightarrow> SecurityState \<Rightarrow> bool" where
  "blocked_at now st =
     (case ss_blockedUntil st of None \<Rightarrow> False | Some b \<Rightarrow> b \<noteq> 0 \<and> b > now)"

definition idle_limit :: ms where "idle_limit = 30 * 60 * 1000"

definition pruneExpiredSecurityStates :: "ms \<Rightarrow> sec_map \<Rightarrow> sec_map" where
  "pruneExpiredSecurityStates now mp =
     filter (\<lambda>(k, st). blocked_at now st \<or> \<not> (now - ss_lastRefillAt st > idle_limit)) mp"

datatype verdict = Allowed | Denied ms

text \<open>What \<open>consumeSecurityToken\<close> does to the state object of the client.\<close>

definition consume_state :: "sec_config \<Rightarrow> policy \<Rightarrow> ms \<Rightarrow> SecurityState \<Rightarrow> SecurityState \<times> verdict" where
  "consume_state c pol now st =
     (if blocked_at now st then (st, Denied (the (ss_blockedUntil st) - now))
      else
        let elapsed = max 0 (now - ss_lastRefillAt st);
            tokens = min (pol_capacity pol) (ss_tokens st + of_int elapsed * pol_refillPerMs pol);
            st1 = st\<lparr>ss_tokens := tokens, ss_lastRefillAt := now\<rparr> in
        if tokens < 1 then
          let st2 = st1\<lparr>ss_violations := ss_violations st + 1\<rparr> in
          if int (ss_violations st + 1) \<ge> block_after c
          then (st2\<lparr>ss_blockedUntil := Some (now + block_ms c)\<rparr>, Denied (block_ms c))
          else (st2, Denied \<lceil>(1 - tokens) / pol_refillPerMs pol\<rceil>)
        else (st1\<lparr>ss_tokens := tokens - 1, ss_violations := ss_violations st - 1\<rparr>, Allowed))"

definition consumeSecurityToken ::
  "sec_config \<Rightarrow> ms \<Rightarrow> string \<Rightarrow> SecurityScope \<Rightarrow> sec_map \<Rightarrow> sec_map \<times> verdict" where
  "consumeSecurityToken c now key scope mp =
     (let pol = getRateLimitPolicy c scope;
          (mp1, st) = getSecurityState key now (pol_capacity pol) (pruneExpiredSecurityStates now mp);
          (st', v) = consume_state c pol now st in
      (AList.update key st' mp1, v))"

section \<open>The guard middleware and the upgrade listener\<close>

datatype guard_reply = GNext | GJson nat string "int option" | GText nat string "int option"

definition rejectSuspiciousRequest :: "string \<Rightarrow> nat \<Rightarrow> string \<Rightarrow> ms option \<Rightarrow> guard_reply" where
  "rejectSuspiciousRequest path status msg retry =
     (let h = (case retry of None \<Rightarrow> None | Some r \<Rightarrow> if r = 0 then None else Some (retry_seconds r)) in
      if startsWith path ''/api/'' then GJson status msg h else GText status msg h)"

definition client_key :: "string option \<Rightarrow> string" where
  "client_key remote = (case remote of None \<Rightarrow> ''unknown'' | Some a \<Rightarrow> a)"

definition securityGuard ::
  "sec_config \<Rightarrow> SecurityScope option \<Rightarrow> ms \<Rightarrow> string option \<Rightarrow> string option \<Rightarrow> string \<Rightarrow> sec_map
     \<Rightarrow> sec_map \<times> guard_reply" where
  "securityGuard c override now remote ua path mp =
     (let key = client_key remote;
          scope = (case override of Some sc \<Rightarrow> sc | None \<Rightarrow> selectSecurityScope path) in
      if \<not> isManagerProxyPath path \<and> isBlockedUserAgent c ua
      then (mp, rejectSuspiciousRequest path 403 ''Forbidden'' None)
      else case consumeSecurityToken c now key scope mp of
             (mp', Allowed) \<Rightarrow> (mp', GNext)
           | (mp', Denied r) \<Rightarrow> (mp', rejectSuspiciousRequest path 429 ''Too Many Requests'' (Some r)))"

datatype upgrade_reply = UContinue | UForbidden string | UTooMany int

definition upgrade_guard ::
  "sec_config \<Rightarrow> ms \<Rightarrow> string option \<Rightarrow> string option \<Rightarrow> sec_map \<Rightarrow> sec_map \<times> upgrade_reply" where
  "upgrade_guard c now remote ua mp =
     (if isBlockedUserAgent c ua then (mp, UForbidden ''Forbidden'')
      else case consumeSecurityToken c now (client_key remote) Websocket mp of
             (mp', Allowed) \<Rightarrow> (mp', UContinue)
           | (mp', Denied r) \<Rightarrow>
               (mp', if r \<noteq> 0 then UTooMany (retry_seconds r) else UForbidden ''Too Many Requests''))"

text \<open>The write lock on \<open>/api\<close> during a GUI update.\<close>

definition update_lock :: "bool \<Rightarrow> string \<Rightarrow> guard_reply" where
  "update_lock guiUpdating verb =
     (if guiUpdating \<and> verb \<notin> set [''GET'', ''HEAD'', ''OPTIONS'']
      then GJson 503 ''GUI update in progress. Wait for the GUI to restart.'' None
      else GNext)"

section \<open>The allowance of one client\<close>

definition max_burst :: "sec_config \<Rightarrow> int" where
  "max_burst c = max (http_burst c) (max (auth_burst c) (websocket_burst c))"

definition max_per_minute :: "sec_config \<Rightarrow> int" where
  "max_per_minute c = max (http_per_minute c) (max (auth_per_minute c) (websocket_per_minute c))"

text \<open>Positive settings whose largest bucket refills within the half hour after which an idle bucket
  is forgotten.\<close>

definition sane_config :: "sec_config \<Rightarrow> bool" where
  "sane_config c \<longleftrightarrow> 0 < http_per_minute c \<and> 0 < auth_per_minute c \<and> 0 < websocket_per_minute c \<and>
     0 < http_burst c \<and> 0 < auth_burst c \<and> 0 < websocket_burst c \<and> max_burst c \<le> 30 * max_per_minute c"

abbreviation burst :: "sec_config \<Rightarrow> rat" where "burst c \<equiv> of_int (max_burst c)"

abbreviation rate_of :: "sec_config \<Rightarrow> rat" where "rate_of c \<equiv> of_int (max_per_minute c) / 60000"

definition bucket_credit :: "sec_config \<Rightarrow> ms \<Rightarrow> SecurityState option \<Rightarrow> rat" where
  "bucket_credit c t e =
     (case e of
        None \<Rightarrow> burst c
      | Some st \<Rightarrow> min (burst c) (ss_tokens st + rate_of c * of_int (t - ss_lastRefillAt st)))"

definition bucket_ok :: "sec_config \<Rightarrow> ms \<Rightarrow> SecurityState option \<Rightarrow> bool" where
  "bucket_ok c t e =
     (case e of
        None \<Rightarrow> True
      | Some st \<Rightarrow> 0 \<le> ss_tokens st \<and> ss_tokens st \<le> burst c \<and> ss_lastRefillAt st \<le> t)"

lemma policy_bounds:
  assumes "sane_config c"
  shows "1 \<le> pol_capacity (getRateLimitPolicy c sc)" and "pol_capacity (getRateLimitPolicy c sc) \<le> burst c"
    and "0 < pol_refillPerMs (getRateLimitPolicy c sc)" and "pol_refillPerMs (getRateLimitPolicy c sc) \<le> rate_of c"
  using assms
  by (cases sc; simp add: getRateLimitPolicy_def sane_config_def max_burst_def max_per_minute_def)+

lemma sane_rate: "sane_config c \<Longrightarrow> 0 < rate_of c \<and> 1 \<le> burst c \<and> burst c \<le> rate_of c * of_int idle_limit"
proof -
  assume "sane_config c"
  then have "0 < max_per_minute c" "1 \<le> max_burst c" and le: "max_burst c \<le> 30 * max_per_minute c"
    by (auto simp: sane_config_def max_per_minute_def max_burst_def)
  moreover have "(of_int (max_burst c) :: rat) \<le> of_int (30 * max_per_minute c)"
    using le by (simp only: of_int_le_iff)
  ultimately show ?thesis by (simp add: idle_limit_def)
qed

text \<open>The step of the state object, whatever branch it takes.\<close>

lemma consume_state_cases:
  assumes "consume_state c pol now st = (st', v)"
  obtains (blocked) "blocked_at now st" "st' = st" "v \<noteq> Allowed"
  | (denied) "ss_tokens st' = min (pol_capacity pol) (ss_tokens st + of_int (max 0 (now - ss_lastRefillAt st)) * pol_refillPerMs pol)"
      "ss_lastRefillAt st' = now" "v \<noteq> Allowed"
  | (allowed) "ss_tokens st' = min (pol_capacity pol) (ss_tokens st + of_int (max 0 (now - ss_lastRefillAt st)) * pol_refillPerMs pol) - 1"
      "0 \<le> ss_tokens st'" "ss_lastRefillAt st' = now" "v = Allowed"
  using assms
  by (auto simp: consume_state_def Let_def not_less split: if_splits)

lemma consume_state_pays:
  assumes cfg: "sane_config c" and ok: "bucket_ok c t (Some st)" and t: "t \<le> now"
    and step: "consume_state c (getRateLimitPolicy c sc) now st = (st', v)"
  shows "bucket_ok c now (Some st')"
    and "(if v = Allowed then 1 else 0) + bucket_credit c now (Some st') \<le> bucket_credit c now (Some st)"
proof -
  let ?pol = "getRateLimitPolicy c sc" and ?d = "now - ss_lastRefillAt st"
  note pol = policy_bounds [OF cfg, of sc]
  have d: "0 \<le> ?d" using ok t by (simp add: bucket_ok_def)
  then have r: "0 \<le> of_int ?d * pol_refillPerMs ?pol" "of_int ?d * pol_refillPerMs ?pol \<le> rate_of c * of_int ?d"
    using pol(3,4) by (simp_all add: mult.commute [of "rate_of c"] mult_left_mono del: of_int_diff times_divide_eq_left times_divide_eq_right)
  have m: "max 0 ?d = ?d" using d by simp
  define got where "got = min (pol_capacity ?pol) (ss_tokens st + of_int ?d * pol_refillPerMs ?pol)"
  have got: "0 \<le> got" "got \<le> burst c" "got \<le> bucket_credit c now (Some st)"
    using r pol ok by (auto simp: got_def bucket_credit_def bucket_ok_def)
  have "bucket_ok c now (Some st') \<and>
    (if v = Allowed then 1 else 0) + bucket_credit c now (Some st') \<le> bucket_credit c now (Some st)"
    using step
  proof (cases rule: consume_state_cases)
    case blocked
    then show ?thesis using ok t by (auto simp: bucket_ok_def)
  next
    case denied
    then have "ss_tokens st' = got" by (simp only: got_def m)
    then show ?thesis using denied got by (simp add: bucket_ok_def bucket_credit_def)
  next
    case allowed
    then have "ss_tokens st' = got - 1" by (simp only: got_def m)
    then show ?thesis using allowed got by (simp add: bucket_ok_def bucket_credit_def)
  qed
  then show "bucket_ok c now (Some st')"
    and "(if v = Allowed then 1 else 0) + bucket_credit c now (Some st') \<le> bucket_credit c now (Some st)" by auto
qed

lemma map_of_prune:
  "distinct (map fst mp) \<Longrightarrow> map_of (pruneExpiredSecurityStates now mp) k =
     (case map_of mp k of
        None \<Rightarrow> None
      | Some st \<Rightarrow> if blocked_at now st \<or> now - ss_lastRefillAt st \<le> idle_limit then Some st else None)"
  by (induction mp)
    (auto simp: pruneExpiredSecurityStates_def map_of_eq_None_iff split: option.splits)

lemma distinct_prune: "distinct (map fst mp) \<Longrightarrow> distinct (map fst (pruneExpiredSecurityStates now mp))"
  unfolding pruneExpiredSecurityStates_def by (rule distinct_map_filter)

lemma distinct_consume:
  "distinct (map fst mp) \<Longrightarrow> distinct (map fst (fst (consumeSecurityToken c now k sc mp)))"
  by (auto simp: consumeSecurityToken_def getSecurityState_def Let_def split_beta distinct_update distinct_prune
      split: option.splits)

text \<open>The entry the token is taken from: the surviving one or a fresh full bucket.\<close>

definition entry_for :: "policy \<Rightarrow> ms \<Rightarrow> SecurityState option \<Rightarrow> SecurityState" where
  "entry_for pol now e =
     (case e of
        Some st \<Rightarrow> st
      | None \<Rightarrow> \<lparr>ss_tokens = pol_capacity pol, ss_lastRefillAt = now, ss_violations = 0, ss_blockedUntil = None\<rparr>)"

lemma consume_verdict:
  "snd (consumeSecurityToken c now k sc mp) =
     snd (consume_state c (getRateLimitPolicy c sc) now
       (entry_for (getRateLimitPolicy c sc) now (map_of (pruneExpiredSecurityStates now mp) k)))"
  by (simp add: consumeSecurityToken_def getSecurityState_def entry_for_def Let_def split_beta split: option.split)

lemma consume_map:
  "map_of (fst (consumeSecurityToken c now k sc mp)) k' =
     (if k' = k then Some (fst (consume_state c (getRateLimitPolicy c sc) now
        (entry_for (getRateLimitPolicy c sc) now (map_of (pruneExpiredSecurityStates now mp) k))))
      else map_of (pruneExpiredSecurityStates now mp) k')"
  by (auto simp: consumeSecurityToken_def getSecurityState_def entry_for_def Let_def split_beta update_conv'
      split: option.split)

lemma credit_later:
  assumes "sane_config c" and "bucket_ok c t e" and "t \<le> now"
  shows "bucket_credit c now e \<le> bucket_credit c t e + rate_of c * of_int (now - t)"
proof (cases e)
  case None
  have "0 \<le> rate_of c * of_int (now - t)"
    using sane_rate [OF assms(1)] assms(3) by simp
  then show ?thesis using None by (simp add: bucket_credit_def)
next
  case (Some st)
  have "0 \<le> rate_of c * of_int (now - t)"
    using sane_rate [OF assms(1)] assms(3) by simp
  then show ?thesis using Some by (auto simp: bucket_credit_def algebra_simps min_def add_divide_distrib diff_divide_distrib)
qed

lemma prune_credit:
  assumes "sane_config c" and "distinct (map fst mp)" and "bucket_ok c t (map_of mp k)" and "t \<le> now"
  shows "bucket_ok c now (map_of (pruneExpiredSecurityStates now mp) k)"
    and "bucket_credit c now (map_of (pruneExpiredSecurityStates now mp) k) = bucket_credit c now (map_of mp k)"
proof -
  show "bucket_ok c now (map_of (pruneExpiredSecurityStates now mp) k)"
    using assms(3,4) by (cases "map_of mp k") (auto simp: map_of_prune [OF assms(2)] bucket_ok_def)
  have full: "burst c \<le> ss_tokens st + rate_of c * of_int (now - ss_lastRefillAt st)"
    if "map_of mp k = Some st" "idle_limit < now - ss_lastRefillAt st" for st
  proof -
    have "rate_of c * of_int idle_limit \<le> rate_of c * of_int (now - ss_lastRefillAt st)"
      using that sane_rate [OF assms(1)] by (intro mult_left_mono) simp_all
    moreover have "0 \<le> ss_tokens st" using assms(3) that by (simp add: bucket_ok_def)
    ultimately show ?thesis using sane_rate [OF assms(1)] by linarith
  qed
  show "bucket_credit c now (map_of (pruneExpiredSecurityStates now mp) k) = bucket_credit c now (map_of mp k)"
    using full by (cases "map_of mp k") (auto simp: map_of_prune [OF assms(2)] bucket_credit_def)
qed

lemma entry_for_credit:
  assumes "sane_config c" and "bucket_ok c now e"
  shows "bucket_ok c now (Some (entry_for (getRateLimitPolicy c sc) now e))"
    and "bucket_credit c now (Some (entry_for (getRateLimitPolicy c sc) now e)) \<le> bucket_credit c now e"
  using policy_bounds [OF assms(1), of sc] assms(2)
  by (auto simp: entry_for_def bucket_ok_def bucket_credit_def split: option.splits)

record sec_event =
  ev_at :: ms
  ev_client :: string
  ev_scope :: SecurityScope

definition sec_step :: "sec_config \<Rightarrow> sec_map \<Rightarrow> sec_event \<Rightarrow> sec_map" where
  "sec_step c mp e = fst (consumeSecurityToken c (ev_at e) (ev_client e) (ev_scope e) mp)"

text \<open>1 for a request of the client \<open>k\<close> that is let through, 0 for any other.\<close>

definition passes :: "sec_config \<Rightarrow> string \<Rightarrow> sec_map \<Rightarrow> sec_event \<Rightarrow> rat" where
  "passes c k mp e =
     (if ev_client e = k \<and> snd (consumeSecurityToken c (ev_at e) (ev_client e) (ev_scope e) mp) = Allowed
      then 1 else 0)"

definition client_ok :: "sec_config \<Rightarrow> string \<Rightarrow> ms \<Rightarrow> sec_map \<Rightarrow> bool" where
  "client_ok c k t mp \<longleftrightarrow> sane_config c \<and> distinct (map fst mp) \<and> bucket_ok c t (map_of mp k)"

lemma sec_step_client:
  assumes "client_ok c k t mp" and "t \<le> ev_at e"
  shows "client_ok c k (ev_at e) (sec_step c mp e)"
    and "passes c k mp e + bucket_credit c (ev_at e) (map_of (sec_step c mp e) k) \<le>
           bucket_credit c t (map_of mp k) + rate_of c * of_int (ev_at e - t)"
proof -
  note cfg = assms(1) [unfolded client_ok_def, THEN conjunct1]
  let ?now = "ev_at e" and ?pol = "getRateLimitPolicy c (ev_scope e)"
  let ?old = "map_of (pruneExpiredSecurityStates ?now mp) k"
  have pr: "bucket_ok c ?now ?old" "bucket_credit c ?now ?old = bucket_credit c ?now (map_of mp k)"
    using prune_credit [OF cfg _ _ assms(2)] assms(1) by (auto simp: client_ok_def)
  have later: "bucket_credit c ?now (map_of mp k) \<le> bucket_credit c t (map_of mp k) + rate_of c * of_int (?now - t)"
    using credit_later [OF cfg _ assms(2)] assms(1) by (simp add: client_ok_def)
  have "bucket_ok c ?now (map_of (sec_step c mp e) k) \<and>
     passes c k mp e + bucket_credit c ?now (map_of (sec_step c mp e) k) \<le> bucket_credit c ?now ?old"
  proof (cases "ev_client e = k")
    case True
    note en = entry_for_credit [OF cfg pr(1), of "ev_scope e"]
    obtain st' v where st: "consume_state c ?pol ?now (entry_for ?pol ?now ?old) = (st', v)" by fastforce
    show ?thesis
      using consume_state_pays [OF cfg en(1) order_refl st] en(2) st True
      by (auto simp: sec_step_def passes_def consume_map consume_verdict)
  next
    case False
    then show ?thesis using pr(1) by (simp add: sec_step_def passes_def consume_map)
  qed
  then show "client_ok c k ?now (sec_step c mp e)"
    and "passes c k mp e + bucket_credit c ?now (map_of (sec_step c mp e) k) \<le>
           bucket_credit c t (map_of mp k) + rate_of c * of_int (?now - t)"
    using assms(1) distinct_consume pr(2) later by (auto simp: client_ok_def sec_step_def)
qed

lemma bucket_credit_nonneg: "sane_config c \<Longrightarrow> bucket_ok c t e \<Longrightarrow> 0 \<le> bucket_credit c t e"
  using sane_rate [of c] by (auto simp: bucket_credit_def bucket_ok_def split: option.splits)

interpretation bucket: amortised "sec_step c" "passes c k" ev_at "client_ok c k"
  "\<lambda>t mp. bucket_credit c t (map_of mp k)" "rate_of c" for c k
proof unfold_locales
  fix t mp and e :: sec_event
  assume a: "client_ok c k t mp" "t \<le> ev_at e"
  show "client_ok c k (ev_at e) (sec_step c mp e)" using sec_step_client(1) [OF a] .
  show "passes c k mp e + bucket_credit c (ev_at e) (map_of (sec_step c mp e) k) \<le>
      bucket_credit c t (map_of mp k) + rate_of c * of_int (ev_at e - t)" using sec_step_client(2) [OF a] .
next
  fix t mp
  assume "client_ok c k t mp"
  then show "0 \<le> bucket_credit c t (map_of mp k)" using bucket_credit_nonneg by (simp add: client_ok_def)
qed

text \<open>C2: The rate limit holds. Over any sequence of requests of any clients and scopes at
  non-decreasing times, the requests of one client that are let through are at most the largest burst
  plus the largest refill rate times the elapsed time, although the scopes share one bucket, fresh
  buckets start full and idle ones are forgotten. The settings are positive and the largest burst
  refills within the half hour after which an idle bucket is forgotten, which the code does not check.\<close>

theorem rate_limit_bound:
  assumes "sane_config c" and "timed ev_at t0 es"
  shows "total_charge (sec_step c) (passes c k) [] es \<le>
     of_int (max_burst c) + of_int (max_per_minute c) / 60000 * of_int (end_at ev_at t0 es - t0)"
  using bucket.total_le [of c k t0 "[]" es] assms
  by (simp add: client_ok_def bucket_ok_def bucket_credit_def)

lemma default_config_sane: "sane_config (read_config (\<lambda>_. None))"
  by (simp add: read_config_def readPositiveIntegerEnv_def sane_config_def max_burst_def max_per_minute_def)

theorem rate_limit_bound_witness:
  "total_charge (sec_step (read_config (\<lambda>_. None))) (passes (read_config (\<lambda>_. None)) ''::1'') []
     (replicate 100 \<lparr>ev_at = 7, ev_client = ''::1'', ev_scope = Web\<rparr>) \<le> 80"
proof -
  have t: "timed ev_at 7 (replicate n \<lparr>ev_at = 7, ev_client = ''::1'', ev_scope = Web\<rparr>) \<and>
      end_at ev_at 7 (replicate n \<lparr>ev_at = 7, ev_client = ''::1'', ev_scope = Web\<rparr>) = 7" for n
    by (induction n) auto
  show ?thesis
    using rate_limit_bound [OF default_config_sane t [THEN conjunct1], of "''::1''" 100] t [of 100]
    by (simp add: read_config_def readPositiveIntegerEnv_def max_burst_def del: replicate.simps)
qed

section \<open>Blocks\<close>

definition sec_blocked :: "string \<Rightarrow> ms \<Rightarrow> sec_map \<Rightarrow> bool" where
  "sec_blocked k b mp \<longleftrightarrow> distinct (map fst mp) \<and> b \<noteq> 0 \<and>
     (\<exists>st. map_of mp k = Some st \<and> ss_blockedUntil st = Some b)"

lemma sec_blocked_entry:
  "sec_blocked k b mp \<Longrightarrow> now < b \<Longrightarrow>
     \<exists>st. map_of (pruneExpiredSecurityStates now mp) k = Some st \<and> blocked_at now st \<and> ss_blockedUntil st = Some b"
  by (auto simp: sec_blocked_def map_of_prune blocked_at_def simp del: map_of_eq_Some_iff)

lemma sec_blocked_step:
  assumes "sec_blocked k b mp" and "ev_at e < b"
  shows "sec_blocked k b (sec_step c mp e)"
proof -
  obtain st where st: "map_of (pruneExpiredSecurityStates (ev_at e) mp) k = Some st"
      "blocked_at (ev_at e) st" "ss_blockedUntil st = Some b"
    using sec_blocked_entry [OF assms] by auto
  then have "\<exists>st'. map_of (sec_step c mp e) k = Some st' \<and> ss_blockedUntil st' = Some b"
    by (auto simp: sec_step_def consume_map entry_for_def consume_state_def simp del: map_of_eq_Some_iff)
  moreover have "distinct (map fst (sec_step c mp e))"
    using assms(1) unfolding sec_step_def sec_blocked_def by (blast intro: distinct_consume)
  ultimately show ?thesis using assms(1) by (simp add: sec_blocked_def)
qed

lemma sec_blocked_run:
  "sec_blocked k b mp \<Longrightarrow> \<forall>e \<in> set es. ev_at e < b \<Longrightarrow> sec_blocked k b (foldl (sec_step c) mp es)"
  by (induction es arbitrary: mp) (auto intro: sec_blocked_step)

lemma consume_starts_block:
  assumes "distinct (map fst mp)" and "0 \<le> now" and "0 < block_ms c"
    and "map_of (fst (consumeSecurityToken c now k sc mp)) k = Some st" and "ss_violations st \<ge> nat (block_after c)"
    and "ss_tokens st < 1" and "snd (consumeSecurityToken c now k sc mp) = Denied r" and "0 < block_after c"
    and "\<not> (\<exists>st0. map_of mp k = Some st0 \<and> blocked_at now st0)"
  shows "sec_blocked k (now + r) (fst (consumeSecurityToken c now k sc mp)) \<and> r = block_ms c"
proof -
  let ?pol = "getRateLimitPolicy c sc"
  let ?e = "entry_for ?pol now (map_of (pruneExpiredSecurityStates now mp) k)"
  have "\<not> blocked_at now ?e"
    using assms(1,9) by (auto simp: entry_for_def map_of_prune blocked_at_def simp del: map_of_eq_Some_iff split: option.splits)
  then have "consume_state c ?pol now ?e = (st, Denied r) \<Longrightarrow> r = block_ms c \<and> ss_blockedUntil st = Some (now + block_ms c)"
    using assms(5,8) by (auto simp: consume_state_def Let_def nat_le_iff split: if_splits)
  moreover have "consume_state c ?pol now ?e = (st, Denied r)"
    using assms(4,7) by (simp add: consume_map consume_verdict prod_eq_iff)
  ultimately show ?thesis
    using assms(1-4) distinct_consume [OF assms(1)] by (auto simp: sec_blocked_def simp del: map_of_eq_Some_iff)
qed

text \<open>C16: A client that reaches the violation limit is shut out for the whole block: every later
  request of it, on any scope, before the block ends is denied with exactly the time left, whatever
  other clients do and however many requests it sends.\<close>

theorem block_is_kept:
  assumes "distinct (map fst mp)" and "0 \<le> now" and "0 < block_ms c" and "0 < block_after c"
    and "\<not> (\<exists>st0. map_of mp k = Some st0 \<and> blocked_at now st0)"
    and "consumeSecurityToken c now k sc mp = (mp', Denied r)"
    and "map_of mp' k = Some st" and "ss_violations st \<ge> nat (block_after c)" and "ss_tokens st < 1"
    and "\<forall>e \<in> set es. ev_at e < now + block_ms c" and "t < now + block_ms c"
  shows "snd (consumeSecurityToken c t k sc' (foldl (sec_step c) mp' es)) = Denied (now + block_ms c - t)"
proof -
  have "sec_blocked k (now + block_ms c) mp'"
    using consume_starts_block [OF assms(1-3) _ assms(8,9) _ assms(4,5), of sc r] assms(6,7)
    by (metis fst_conv snd_conv)
  then have "sec_blocked k (now + block_ms c) (foldl (sec_step c) mp' es)"
    using assms(10) by (rule sec_blocked_run)
  from sec_blocked_entry [OF this assms(11)] show ?thesis
    by (auto simp: consume_verdict entry_for_def consume_state_def)
qed

definition noisy_state :: SecurityState where
  "noisy_state = \<lparr>ss_tokens = 0, ss_lastRefillAt = 9, ss_violations = 5, ss_blockedUntil = None\<rparr>"

lemma noisy_blocked:
  "consumeSecurityToken (read_config (\<lambda>_. None)) 9 ''k'' Api [(''k'', noisy_state)] =
     ([(''k'', noisy_state\<lparr>ss_violations := 6, ss_blockedUntil := Some 600009\<rparr>)], Denied 600000)"
  by (simp add: consumeSecurityToken_def pruneExpiredSecurityStates_def getSecurityState_def consume_state_def
      noisy_state_def blocked_at_def idle_limit_def getRateLimitPolicy_def read_config_def readPositiveIntegerEnv_def)

theorem block_is_kept_witness:
  "snd (consumeSecurityToken (read_config (\<lambda>_. None)) 600008 ''k'' Web
     [(''k'', noisy_state\<lparr>ss_violations := 6, ss_blockedUntil := Some 600009\<rparr>)]) = Denied 1"
  using block_is_kept [OF _ _ _ _ _ noisy_blocked, of "noisy_state\<lparr>ss_violations := 6, ss_blockedUntil := Some 600009\<rparr>"
      "[]" 600008 Web]
  by (simp add: noisy_state_def blocked_at_def read_config_def readPositiveIntegerEnv_def)

text \<open>A scanner's user agent never reaches a handler. When the agent string contains one of the
  blocked fragments in any mixture of cases, the guard answers 403 on every path outside the manager
  proxy, and neither takes a token nor changes any bucket.\<close>

lemma blocked_agent_refused:
  assumes "f \<in> set DEFAULT_BLOCKED_USER_AGENT_FRAGMENTS" and "toLowerCase mid = f" and "\<not> isManagerProxyPath path"
  shows "securityGuard c ov now remote (Some (pre @ mid @ post)) path mp =
     (mp, rejectSuspiciousRequest path 403 ''Forbidden'' None)"
proof -
  have "f \<in> set (blockedUserAgentFragments c)"
    using assms(1) by (simp add: blockedUserAgentFragments_def set_nub)
  moreover have "str_includes (toLowerCase (pre @ mid @ post)) f"
    using assms(2) by (auto simp: str_includes_def toLowerCase_def)
  ultimately have "isBlockedUserAgent c (Some (pre @ mid @ post))"
    by (auto simp: isBlockedUserAgent_def list_ex_iff)
  then show ?thesis using assms(3) by (simp add: securityGuard_def Let_def)
qed

end
