(* ===== verification/JsValue.thy ===== *)
theory JsValue
  imports Prelude
begin

text \<open>
  Values the program receives from JSON and YAML documents, and the conversions of the language the
  sources apply to them: truthiness, property access (a TypeError on \<open>undefined\<close> and \<open>null\<close>),
  \<open>Number(...)\<close>, comparison, \<open>Math.max\<close> and \<open>Number.isInteger\<close>. Finite numbers are exact
  rationals; rounding to 53 bits is not modelled.
\<close>

datatype jsnum = Fin rat | PInf | NInf | NaN

datatype jsval =
    JUndef
  | JNull
  | JBool bool
  | JNum jsnum
  | JStr string
  | JArr "jsval list"
  | JObj "(string \<times> jsval) list"

section \<open>Numbers\<close>

fun js_less :: "jsnum \<Rightarrow> jsnum \<Rightarrow> bool" where
  "js_less (Fin a) (Fin b) = (a < b)"
| "js_less NInf (Fin b) = True"
| "js_less NInf PInf = True"
| "js_less (Fin a) PInf = True"
| "js_less _ _ = False"

fun js_add :: "jsnum \<Rightarrow> jsnum \<Rightarrow> jsnum" where
  "js_add (Fin a) (Fin b) = Fin (a + b)"
| "js_add (Fin a) PInf = PInf"
| "js_add PInf (Fin b) = PInf"
| "js_add PInf PInf = PInf"
| "js_add (Fin a) NInf = NInf"
| "js_add NInf (Fin b) = NInf"
| "js_add NInf NInf = NInf"
| "js_add _ _ = NaN"

fun js_neg :: "jsnum \<Rightarrow> jsnum" where
  "js_neg (Fin a) = Fin (- a)"
| "js_neg PInf = NInf"
| "js_neg NInf = PInf"
| "js_neg NaN = NaN"

definition js_sub :: "jsnum \<Rightarrow> jsnum \<Rightarrow> jsnum" where
  "js_sub a b = js_add a (js_neg b)"

definition js_max :: "jsnum \<Rightarrow> jsnum \<Rightarrow> jsnum" where
  "js_max a b = (if a = NaN \<or> b = NaN then NaN else if js_less a b then b else a)"

definition num_truthy :: "jsnum \<Rightarrow> bool" where
  "num_truthy n \<longleftrightarrow> n \<noteq> NaN \<and> n \<noteq> Fin 0"

text \<open>\<open>a || b\<close> on numbers\<close>

definition num_or :: "jsnum \<Rightarrow> jsnum \<Rightarrow> jsnum" where
  "num_or a b = (if num_truthy a then a else b)"

definition rat_is_int :: "rat \<Rightarrow> bool" where
  "rat_is_int q \<longleftrightarrow> of_int \<lfloor>q\<rfloor> = q"

fun num_is_int :: "jsnum \<Rightarrow> bool" where
  "num_is_int (Fin q) = rat_is_int q"
| "num_is_int _ = False"

section \<open>\<open>Number(s)\<close> of a string\<close>

definition is_hex :: "char \<Rightarrow> bool" where
  "is_hex c \<longleftrightarrow> is_digit c \<or> (97 \<le> (of_char c :: nat) \<and> (of_char c :: nat) \<le> 102) \<or>
     (65 \<le> (of_char c :: nat) \<and> (of_char c :: nat) \<le> 70)"

definition hex_val :: "char \<Rightarrow> nat" where
  "hex_val c = (if is_digit c then of_char c - 48
     else if 97 \<le> (of_char c :: nat) then of_char c - 87 else of_char c - 55)"

text \<open>An unsigned integer literal in base \<open>b\<close> after \<open>0x\<close>, \<open>0o\<close> or \<open>0b\<close>.\<close>

definition radix_literal :: "nat \<Rightarrow> string \<Rightarrow> jsnum" where
  "radix_literal b s =
     (if s \<noteq> [] \<and> list_all (\<lambda>c. is_hex c \<and> hex_val c < b) s
      then Fin (of_nat (foldl (\<lambda>n c. b * n + hex_val c) 0 s)) else NaN)"

text \<open>The exponent part: empty, or \<open>e\<close> with an optionally signed digit string.\<close>

definition exponent :: "string \<Rightarrow> int option" where
  "exponent s =
     (case s of
        [] \<Rightarrow> Some 0
      | c # cs \<Rightarrow>
          if c \<noteq> CHR ''e'' \<and> c \<noteq> CHR ''E'' then None
          else let (neg, ds) = (case cs of
                     d # rest \<Rightarrow> if d = CHR ''-'' then (True, rest)
                                 else if d = CHR ''+'' then (False, rest) else (False, cs)
                   | [] \<Rightarrow> (False, [])) in
            if ds = [] \<or> \<not> list_all is_digit ds then None
            else Some (if neg then - int (dec_val ds) else int (dec_val ds)))"

definition unsigned_decimal :: "string \<Rightarrow> jsnum" where
  "unsigned_decimal s =
     (if s = ''Infinity'' then PInf
      else
        let ip = takeWhile is_digit s; r1 = dropWhile is_digit s;
            (fp, r2) = (case r1 of
                          c # r \<Rightarrow> if c = CHR ''.'' then (takeWhile is_digit r, dropWhile is_digit r) else ([], r1)
                        | [] \<Rightarrow> ([], [])) in
        if ip = [] \<and> fp = [] then NaN
        else case exponent r2 of
               None \<Rightarrow> NaN
             | Some e \<Rightarrow>
                 let m = of_nat (dec_val (ip @ fp)) / 10 ^ length fp in
                 Fin (if 0 \<le> e then m * 10 ^ nat e else m / 10 ^ nat (- e)))"

definition str_number :: "string \<Rightarrow> jsnum" where
  "str_number str =
     (case trim str of
        [] \<Rightarrow> Fin 0
      | c # cs \<Rightarrow>
          if c = CHR ''-'' then js_neg (unsigned_decimal cs)
          else if c = CHR ''+'' then unsigned_decimal cs
          else case cs of
                 p # ds \<Rightarrow>
                   if c = CHR ''0'' \<and> (p = CHR ''x'' \<or> p = CHR ''X'') then radix_literal 16 ds
                   else if c = CHR ''0'' \<and> (p = CHR ''o'' \<or> p = CHR ''O'') then radix_literal 8 ds
                   else if c = CHR ''0'' \<and> (p = CHR ''b'' \<or> p = CHR ''B'') then radix_literal 2 ds
                   else unsigned_decimal (c # cs)
               | [] \<Rightarrow> unsigned_decimal [c])"

section \<open>Values\<close>

fun js_truthy :: "jsval \<Rightarrow> bool" where
  "js_truthy JUndef = False"
| "js_truthy JNull = False"
| "js_truthy (JBool b) = b"
| "js_truthy (JNum n) = num_truthy n"
| "js_truthy (JStr s) = (s \<noteq> [])"
| "js_truthy (JArr xs) = True"
| "js_truthy (JObj fs) = True"

text \<open>\<open>Number(v)\<close>. An array is converted through its comma-joined text: an empty one is 0, one of a
  single element is that element's text, a longer one contains a comma and is NaN.\<close>

fun js_number :: "jsval \<Rightarrow> jsnum" and elem_number :: "jsval \<Rightarrow> jsnum" where
  "js_number JUndef = NaN"
| "js_number JNull = Fin 0"
| "js_number (JBool b) = Fin (if b then 1 else 0)"
| "js_number (JNum n) = n"
| "js_number (JStr s) = str_number s"
| "js_number (JArr []) = Fin 0"
| "js_number (JArr [x]) = elem_number x"
| "js_number (JArr (x # y # xs)) = NaN"
| "js_number (JObj fs) = NaN"
| "elem_number JUndef = Fin 0"
| "elem_number JNull = Fin 0"
| "elem_number (JBool b) = NaN"
| "elem_number (JNum n) = n"
| "elem_number (JStr s) = str_number s"
| "elem_number (JArr []) = Fin 0"
| "elem_number (JArr [x]) = elem_number x"
| "elem_number (JArr (x # y # xs)) = NaN"
| "elem_number (JObj fs) = NaN"

definition own :: "(string \<times> jsval) list \<Rightarrow> string \<Rightarrow> jsval" where
  "own fs k = (case map_of fs k of None \<Rightarrow> JUndef | Some v \<Rightarrow> v)"

text \<open>\<open>v.k\<close> for the data properties the sources read, and \<open>v?.k\<close>.\<close>

fun js_prop :: "jsval \<Rightarrow> string \<Rightarrow> jsval res" where
  "js_prop JUndef k = Inl TypeError"
| "js_prop JNull k = Inl TypeError"
| "js_prop (JObj fs) k = Inr (own fs k)"
| "js_prop (JArr xs) k = Inr (if k = ''length'' then JNum (Fin (of_nat (length xs))) else JUndef)"
| "js_prop (JStr s) k = Inr (if k = ''length'' then JNum (Fin (of_nat (length s))) else JUndef)"
| "js_prop (JBool b) k = Inr JUndef"
| "js_prop (JNum n) k = Inr JUndef"

definition opt_prop :: "jsval \<Rightarrow> string \<Rightarrow> jsval res" where
  "opt_prop v k = (if v = JUndef \<or> v = JNull then Inr JUndef else js_prop v k)"

fun is_str :: "jsval \<Rightarrow> bool" where "is_str (JStr s) = True" | "is_str _ = False"
fun is_num :: "jsval \<Rightarrow> bool" where "is_num (JNum n) = True" | "is_num _ = False"
fun is_bool :: "jsval \<Rightarrow> bool" where "is_bool (JBool b) = True" | "is_bool _ = False"
fun is_arr :: "jsval \<Rightarrow> bool" where "is_arr (JArr xs) = True" | "is_arr _ = False"

text \<open>\<open>typeof v === 'object'\<close>, true of \<open>null\<close> and arrays too.\<close>

fun is_objty :: "jsval \<Rightarrow> bool" where
  "is_objty JNull = True" | "is_objty (JArr xs) = True" | "is_objty (JObj fs) = True" | "is_objty _ = False"

definition is_integer :: "jsval \<Rightarrow> bool" where
  "is_integer v = (case v of JNum n \<Rightarrow> num_is_int n | _ \<Rightarrow> False)"

definition is_safe_integer :: "jsval \<Rightarrow> bool" where
  "is_safe_integer v =
     (case v of JNum (Fin q) \<Rightarrow> rat_is_int q \<and> - 9007199254740991 \<le> q \<and> q \<le> 9007199254740991 | _ \<Rightarrow> False)"

section \<open>Lemmas\<close>

lemma rat_is_int_of_int [simp]: "rat_is_int (of_int i)"
  by (simp add: rat_is_int_def)

lemma rat_is_int_iff: "rat_is_int q \<longleftrightarrow> (\<exists>i. q = of_int i)"
  by (auto simp: rat_is_int_def)

lemma num_truthy_Fin [simp]: "num_truthy (Fin q) \<longleftrightarrow> q \<noteq> 0"
  by (simp add: num_truthy_def)

lemma digit_not_ws: "is_digit c \<Longrightarrow> \<not> is_ws c"
  by (auto simp: is_digit_def is_ws_def)

lemma digits_trim: "list_all is_digit s \<Longrightarrow> trim s = s"
proof -
  assume d: "list_all is_digit s"
  have keep: "dropWhile is_ws xs = xs" if "set xs \<subseteq> set s" for xs
    using d that by (cases xs) (auto simp: list_all_iff digit_not_ws)
  show ?thesis unfolding trim_def using keep [of s] keep [of "rev s"] by simp
qed

lemma digits_split: "list_all is_digit s \<Longrightarrow> takeWhile is_digit s = s \<and> dropWhile is_digit s = []"
  by (auto simp: list_all_iff)

lemma digit_chars: "is_digit c \<Longrightarrow> 48 \<le> (of_char c :: nat) \<and> (of_char c :: nat) \<le> 57"
  by (simp add: is_digit_def)

lemma not_digit_chars:
  "\<not> is_digit (CHR ''-'')" "\<not> is_digit (CHR ''+'')" "\<not> is_digit (CHR ''x'')" "\<not> is_digit (CHR ''X'')"
  "\<not> is_digit (CHR ''o'')" "\<not> is_digit (CHR ''O'')" "\<not> is_digit (CHR ''b'')" "\<not> is_digit (CHR ''B'')"
  "\<not> is_digit (CHR ''I'')" "\<not> is_digit (CHR ''.'')"
  by code_simp+

lemma unsigned_decimal_digits:
  "list_all is_digit s \<Longrightarrow> s \<noteq> [] \<Longrightarrow> unsigned_decimal s = Fin (of_nat (dec_val s))"
proof -
  assume d: "list_all is_digit s" and ne: "s \<noteq> []"
  have "s \<noteq> ''Infinity''" using d not_digit_chars by auto
  moreover have "takeWhile is_digit s = s" "dropWhile is_digit s = []" using digits_split [OF d] by auto
  ultimately show ?thesis using ne unfolding unsigned_decimal_def by (simp add: exponent_def del: takeWhile_eq_all_conv dropWhile_eq_Nil_conv)
qed

lemma str_number_digits:
  assumes "list_all is_digit s" and "s \<noteq> []"
  shows "str_number s = Fin (of_nat (dec_val s))"
proof -
  obtain c cs where s: "s = c # cs" using assms(2) by (cases s) auto
  have "c \<noteq> CHR ''-'' \<and> c \<noteq> CHR ''+''" using assms(1) s not_digit_chars by auto
  moreover have "p \<notin> {CHR ''x'', CHR ''X'', CHR ''o'', CHR ''O'', CHR ''b'', CHR ''B''}" if "cs = p # ds" for p ds
    using assms(1) s that not_digit_chars by auto
  ultimately show ?thesis
    using digits_trim [OF assms(1)] unsigned_decimal_digits [OF assms] s
    by (cases cs) (simp_all add: str_number_def)
qed

lemma str_number_show_nat [simp]: "str_number (show_nat n) = Fin (of_nat n)"
proof -
  have "list_all is_digit (show_nat n)" "show_nat n \<noteq> []"
    using all_digits_show_nat [of n] by (simp_all add: all_digits_def)
  then show ?thesis by (simp add: str_number_digits dec_val_show_nat)
qed

end
