(* ===== verification/ManagerProxy.thy ===== *)
theory ManagerProxy
  imports AuthManager JsValue
begin

text \<open>
  The proxy from the GUI to the manager API of an instance: \<open>FerrumGUI/src/managerProxy.ts\<close> and the
  handler \<open>/api/instances/:id/manager/*\<close> of \<open>index.ts\<close>. The answer of the instance is the
  argument \<open>fetch\<close>; \<open>decodeURIComponent\<close> returns code points, \<open>None\<close> for the URIError.
\<close>

section \<open>\<open>decodeURIComponent\<close>\<close>

fun pct_byte :: "string \<Rightarrow> (nat \<times> string) option" where
  "pct_byte (p # h # l # rest) =
     (if p = CHR ''%'' \<and> is_hex h \<and> is_hex l then Some (16 * hex_val h + hex_val l, rest) else None)"
| "pct_byte _ = None"

text \<open>The next \<open>n\<close> escaped continuation bytes, accumulated into \<open>acc\<close>.\<close>

fun cont_bytes :: "nat \<Rightarrow> nat \<Rightarrow> string \<Rightarrow> (nat \<times> string) option" where
  "cont_bytes 0 acc s = Some (acc, s)"
| "cont_bytes (Suc n) acc s =
     (case pct_byte s of
        None \<Rightarrow> None
      | Some (b, r) \<Rightarrow> if 128 \<le> b \<and> b < 192 then cont_bytes n (64 * acc + (b - 128)) r else None)"

definition utf8_escape :: "nat \<Rightarrow> string \<Rightarrow> (nat \<times> string) option" where
  "utf8_escape b r =
     (if b < 128 then Some (b, r)
      else if 192 \<le> b \<and> b < 224 then
        (case cont_bytes 1 (b - 192) r of Some (u, r') \<Rightarrow> if 128 \<le> u then Some (u, r') else None | None \<Rightarrow> None)
      else if 224 \<le> b \<and> b < 240 then
        (case cont_bytes 2 (b - 224) r of
           Some (u, r') \<Rightarrow> if 2048 \<le> u \<and> \<not> (55296 \<le> u \<and> u < 57344) then Some (u, r') else None
         | None \<Rightarrow> None)
      else if 240 \<le> b \<and> b < 248 then
        (case cont_bytes 3 (b - 240) r of
           Some (u, r') \<Rightarrow> if 65536 \<le> u \<and> u < 1114112 then Some (u, r') else None
         | None \<Rightarrow> None)
      else None)"

lemma pct_byte_length: "pct_byte s = Some (b, r) \<Longrightarrow> length r < length s"
  by (cases s rule: pct_byte.cases) (auto split: if_splits)

lemma cont_bytes_length: "cont_bytes n acc s = Some (u, r) \<Longrightarrow> length r \<le> length s"
proof (induction n arbitrary: acc s)
  case (Suc n)
  then obtain b r0 where "pct_byte s = Some (b, r0)" "cont_bytes n (64 * acc + (b - 128)) r0 = Some (u, r)"
    by (auto split: option.splits if_splits)
  then show ?case using Suc.IH [of "64 * acc + (b - 128)" r0] pct_byte_length [of s b r0] by simp
qed simp

lemma utf8_escape_length: "utf8_escape b r = Some (u, r') \<Longrightarrow> length r' \<le> length r"
  by (auto simp: utf8_escape_def simp del: cont_bytes.simps One_nat_def split: if_splits option.splits
      dest: cont_bytes_length)

function decodeURIComponent :: "string \<Rightarrow> nat list option" where
  "decodeURIComponent [] = Some []"
| "decodeURIComponent (c # cs) =
     (if c \<noteq> CHR ''%'' then map_option (\<lambda>ds. of_char c # ds) (decodeURIComponent cs)
      else case pct_byte (c # cs) of
             None \<Rightarrow> None
           | Some (b, r) \<Rightarrow>
               (case utf8_escape b r of
                  None \<Rightarrow> None
                | Some (u, r') \<Rightarrow> map_option (\<lambda>ds. u # ds) (decodeURIComponent r')))"
  by pat_completeness auto
termination
  by (relation "measure length") (auto dest!: pct_byte_length utf8_escape_length)

section \<open>\<open>managerProxy.ts\<close>\<close>

record forward_headers =
  h_authorization :: string
  h_ifNoneMatch :: "string option"

definition managerForwardHeaders ::
  "string option \<Rightarrow> bool \<Rightarrow> string \<Rightarrow> string option \<Rightarrow> forward_headers option" where
  "managerForwardHeaders authorization hasGuiSession managerTok ifNoneMatch =
     (let callerToken = (case authorization of
            Some h \<Rightarrow> if startsWith h ''Bearer '' then trim (drop 7 h) else []
          | None \<Rightarrow> []) in
      if authorization \<noteq> None \<and> callerToken = [] then None
      else if callerToken = [] \<and> \<not> hasGuiSession then None
      else Some \<lparr>h_authorization = ''Bearer '' @ (if callerToken \<noteq> [] then callerToken else managerTok),
                 h_ifNoneMatch = (if truthy_str ifNoneMatch then ifNoneMatch else None)\<rparr>)"

text \<open>The class \<open>[A-Za-z0-9_/-]\<close> on code points.\<close>

definition path_code :: "nat \<Rightarrow> bool" where
  "path_code d \<longleftrightarrow> (65 \<le> d \<and> d \<le> 90) \<or> (97 \<le> d \<and> d \<le> 122) \<or> (48 \<le> d \<and> d \<le> 57) \<or> d = 95 \<or> d = 47 \<or> d = 45"

fun split_code :: "nat \<Rightarrow> nat list \<Rightarrow> nat list list" where
  "split_code c [] = [[]]"
| "split_code c (x # xs) =
     (if x = c then [] # split_code c xs
      else case split_code c xs of l # ls \<Rightarrow> (x # l) # ls | [] \<Rightarrow> [[x]])"

definition validManagerPath :: "string \<Rightarrow> bool" where
  "validManagerPath v =
     (if \<not> startsWith v ''api/v1/'' then False
      else case decodeURIComponent v of
             None \<Rightarrow> False
           | Some ds \<Rightarrow>
               ds \<noteq> [] \<and> list_all path_code ds \<and>
               \<not> list_ex (\<lambda>part. part = [] \<or> part = [46] \<or> part = [46, 46]) (split_code 47 ds))"

section \<open>The proxy handler\<close>

datatype qval = QStr string | QArr "qval list" | QObj

fun q_string :: "qval \<Rightarrow> string" where
  "q_string (QStr s) = s"
| "q_string (QArr xs) = join_with '','' (map q_string xs)"
| "q_string QObj = ''[object Object]''"

text \<open>\<open>searchParams.set\<close>: the first entry of the key is replaced, the others go; a new key is appended.\<close>

definition sp_set :: "string \<Rightarrow> string \<Rightarrow> (string \<times> string) list \<Rightarrow> (string \<times> string) list" where
  "sp_set k v ps = AList.update k v (takeWhile (\<lambda>p. fst p \<noteq> k) ps @
     (case dropWhile (\<lambda>p. fst p \<noteq> k) ps of [] \<Rightarrow> [] | p # rest \<Rightarrow> p # filter (\<lambda>q. fst q \<noteq> k) rest))"

definition add_query :: "(string \<times> string) list \<Rightarrow> string \<times> qval \<Rightarrow> (string \<times> string) list" where
  "add_query ps kv =
     (case kv of
        (k, QArr xs) \<Rightarrow> ps @ map (\<lambda>x. (k, q_string x)) xs
      | (k, v) \<Rightarrow> sp_set k (q_string v) ps)"

record proxy_request =
  px_request :: request
  px_id :: string
  px_ifNoneMatch :: hval
  px_method :: string
  px_path :: string
  px_query :: "(string \<times> qval) list"
  px_body :: jsval

record forward =
  fw_url :: string
  fw_params :: "(string \<times> string) list"
  fw_method :: string
  fw_headers :: forward_headers
  fw_json :: bool
  fw_body :: "jsval option"

record fetch_response =
  fr_status :: nat
  fr_etag :: "string option"
  fr_json :: "jsval option"

datatype proxy_reply =
    PError response
  | PForwarded nat "string option" "jsval option"

definition requestHasValidGuiSession :: "ms \<Rightarrow> ServiceManager \<Rightarrow> request \<Rightarrow> AuthManager \<Rightarrow> AuthManager \<times> bool" where
  "requestHasValidGuiSession now s r a =
     (if \<not> hasAuth s then (a, False)
      else case sessionTokenFromRequest r of
             None \<Rightarrow> (a, False)
           | Some t \<Rightarrow> if t = [] then (a, False) else validateSession now t a)"

definition managerTokenFromRequest :: "request \<Rightarrow> string" where
  "managerTokenFromRequest r =
     (case req_authorization r of
        Some h \<Rightarrow> if startsWith h ''Bearer '' then trim (drop 7 h) else []
      | None \<Rightarrow> [])"

definition requestHasAnyManagerBearer :: "ServiceManager \<Rightarrow> request \<Rightarrow> bool" where
  "requestHasAnyManagerBearer s r =
     (let tok = managerTokenFromRequest r in
      if tok = [] then False else list_ex (\<lambda>x. managerToken x = Some tok) (getAll s))"

text \<open>What is sent on, when the guards of the handler let it.\<close>

definition proxy_forward ::
  "ServiceManager \<Rightarrow> proxy_request \<Rightarrow> bool \<Rightarrow> response + forward" where
  "proxy_forward s r gui =
     (case getById (px_id r) s of
        None \<Rightarrow> Inl (fail_with 404 ''Instance not found'')
      | Some x \<Rightarrow>
          if \<not> truthy_num (managerPort x) \<or> \<not> truthy_str (managerToken x)
          then Inl (fail_with 400 ''Manager API is not configured for this instance'')
          else case managerForwardHeaders (req_authorization (px_request r)) gui (the (managerToken x))
                      (case px_ifNoneMatch r of HStr e \<Rightarrow> Some e | _ \<Rightarrow> None) of
                 None \<Rightarrow> Inl unauthorized
               | Some hs \<Rightarrow>
                   if \<not> validManagerPath (px_path r)
                   then Inl (fail_with 400 ''Manager proxy path must start with api/v1/'')
                   else
                     let hasBody = (toUpperCase (px_method r) \<notin> set [''GET'', ''HEAD''] \<and> px_body r \<noteq> JUndef) in
                     Inr \<lparr>fw_url = ''http://127.0.0.1:'' @ show_int (the (managerPort x)) @ ''/'' @ px_path r,
                          fw_params = foldl add_query [] (px_query r), fw_method = px_method r, fw_headers = hs,
                          fw_json = hasBody, fw_body = (if hasBody then Some (px_body r) else None)\<rparr>)"

definition manager_proxy ::
  "(forward \<Rightarrow> fetch_response res) \<Rightarrow> ms \<Rightarrow> ServiceManager \<Rightarrow> proxy_request \<Rightarrow> AuthManager
     \<Rightarrow> AuthManager \<times> proxy_reply" where
  "manager_proxy fetch now s r a =
     (let known = (case getById (px_id r) s of
                     None \<Rightarrow> False | Some x \<Rightarrow> truthy_num (managerPort x) \<and> truthy_str (managerToken x));
          (a', gui) = (if known then requestHasValidGuiSession now s (px_request r) a else (a, False)) in
      case proxy_forward s r gui of
        Inl e \<Rightarrow> (a', PError e)
      | Inr fw \<Rightarrow>
          (case fetch fw of
             Inl e \<Rightarrow> (a', PError (fail_with 500 (error_message e)))
           | Inr resp \<Rightarrow>
               (a', PForwarded (fr_status resp) (if truthy_str (fr_etag resp) then fr_etag resp else None)
                 (if fr_status resp = 204 \<or> fr_status resp = 304 then None
                  else Some (case fr_json resp of None \<Rightarrow> JObj [] | Some j \<Rightarrow> j)))))"

section \<open>Accepted paths\<close>

lemma utf8_escape_small: "utf8_escape b r = Some (u, r') \<Longrightarrow> u < 128 \<Longrightarrow> b = u \<and> r' = r"
  by (auto simp: utf8_escape_def split: if_splits option.splits)

lemma path_code_small: "path_code d \<Longrightarrow> d < 128"
  by (auto simp: path_code_def)

lemma hex_not_pct: "\<not> is_hex (CHR ''%'')"
  by code_simp

lemma hex_path_code: "is_hex c \<Longrightarrow> path_code (of_char c)"
  by (auto simp: is_hex_def is_digit_def path_code_def)

text \<open>Reading an accepted string from the left: each step consumes one plain character or one escape of
  an accepted code.\<close>

lemma decode_step:
  assumes "decodeURIComponent (c # cs) = Some ds" and "list_all path_code ds"
  obtains (plain) ds' where "c \<noteq> CHR ''%''" "path_code (of_char c)" "decodeURIComponent cs = Some ds'" "list_all path_code ds'"
  | (escape) h l r ds' where "c = CHR ''%''" "cs = h # l # r" "is_hex h" "is_hex l" "path_code (16 * hex_val h + hex_val l)"
      "16 * hex_val h + hex_val l \<in> set ds" "decodeURIComponent r = Some ds'" "list_all path_code ds'"
proof (cases "c = CHR ''%''")
  case False
  then show ?thesis using assms plain by auto
next
  case True
  then obtain b r u r' ds' where d: "pct_byte (c # cs) = Some (b, r)" "utf8_escape b r = Some (u, r')"
      "decodeURIComponent r' = Some ds'" "ds = u # ds'"
    using assms(1) by (auto split: option.splits)
  have "path_code u" using assms(2) d(4) by simp
  then have "b = u" "r' = r" using utf8_escape_small [OF d(2)] path_code_small by auto
  moreover obtain h l where "cs = h # l # r" "is_hex h" "is_hex l" "b = 16 * hex_val h + hex_val l"
    using d(1) by (cases "c # cs" rule: pct_byte.cases) (auto split: if_splits)
  ultimately show ?thesis using True d assms(2) escape by auto
qed

lemma accepted_chars:
  "decodeURIComponent v = Some ds \<Longrightarrow> list_all path_code ds \<Longrightarrow> c \<in> set v \<Longrightarrow>
     path_code (of_char c) \<or> c = CHR ''%''"
proof (induction "length v" arbitrary: v ds rule: less_induct)
  case less
  then obtain a cs where v: "v = a # cs" by (cases v) auto
  from less.prems(1,2) [unfolded v] show ?case
  proof (cases rule: decode_step)
    case (plain ds')
    then show ?thesis using less.hyps [of cs ds'] less.prems(3) v by auto
  next
    case (escape h l r ds')
    then show ?thesis using less.hyps [of r ds'] less.prems(3) v hex_path_code by auto
  qed
qed

text \<open>An escape that occurs anywhere in an accepted string is decoded to an accepted code.\<close>

lemma accepted_escape:
  "decodeURIComponent v = Some ds \<Longrightarrow> list_all path_code ds \<Longrightarrow> v = pre @ CHR ''%'' # h # l # post \<Longrightarrow>
     path_code (16 * hex_val h + hex_val l)"
proof (induction "length v" arbitrary: v ds pre rule: less_induct)
  case less
  obtain a cs where v: "v = a # cs" using less.prems(3) by (cases pre) auto
  from less.prems(1,2) [unfolded v] show ?case
  proof (cases rule: decode_step)
    case (plain ds')
    then obtain pre' where "cs = pre' @ CHR ''%'' # h # l # post"
      using less.prems(3) v by (cases pre) auto
    then show ?thesis using less.hyps [of cs ds'] plain v by simp
  next
    case (escape h' l' r ds')
    consider "pre = []" | pre' where "r = pre' @ CHR ''%'' # h # l # post"
      using less.prems(3) v escape hex_not_pct
      by (cases pre; cases "tl pre"; cases "tl (tl pre)") auto
    then show ?thesis
    proof cases
      case 1
      then show ?thesis using less.prems(3) v escape by simp
    next
      case 2
      then show ?thesis using less.hyps [of r ds'] escape v by simp
    qed
  qed
qed

text \<open>The path segments the URL standard reads as \<open>.\<close> or \<open>..\<close>.\<close>

definition dot_segment :: "string \<Rightarrow> bool" where
  "dot_segment seg \<longleftrightarrow>
     toLowerCase seg \<in> set [''.'', ''..'', ''%2e'', ''.%2e'', ''%2e.'', ''%2e%2e'']"

lemma lower_char_inverse:
  "lower_char c = CHR ''.'' \<Longrightarrow> c = CHR ''.''" "lower_char c = CHR ''%'' \<Longrightarrow> c = CHR ''%''"
  "lower_char c = CHR ''2'' \<Longrightarrow> hex_val c = 2" "lower_char c = CHR ''e'' \<Longrightarrow> hex_val c = 14"
proof -
  show "lower_char c = CHR ''.'' \<Longrightarrow> c = CHR ''.''" "lower_char c = CHR ''%'' \<Longrightarrow> c = CHR ''%''"
    by (rule lower_char_fixed; simp)+
  show "lower_char c = CHR ''2'' \<Longrightarrow> hex_val c = 2"
    using lower_char_fixed [of c "CHR ''2''"] by (simp add: hex_val_def is_digit_def)
  assume "lower_char c = CHR ''e''"
  then have "(of_char c :: nat) = 101 \<or> (of_char c :: nat) = 69"
    using of_char_lower [of c] by (auto simp: Let_def split: if_splits)
  then show "hex_val c = 14" by (auto simp: hex_val_def is_digit_def)
qed

lemma dot_segment_shape:
  assumes "dot_segment seg"
  obtains "CHR ''.'' \<in> set seg" | h l rest where "seg = CHR ''%'' # h # l # rest" "16 * hex_val h + hex_val l = 46"
  using assms lower_char_inverse
  by (fastforce simp: dot_segment_def toLowerCase_def map_eq_Cons_conv)

lemma join_with_infix: "seg \<in> set xs \<Longrightarrow> \<exists>pre post. join_with sep xs = pre @ seg @ post"
proof (induction sep xs rule: join_with.induct)
  case (2 sep x)
  then show ?case by (intro exI [of _ "[]"]) simp
next
  case (3 sep x y ys)
  then consider "seg = x" | "seg \<in> set (y # ys)" by auto
  then show ?case
  proof cases
    case 1
    then show ?thesis by (intro exI [of _ "[]"] exI [of _ "sep @ join_with sep (y # ys)"]) simp
  next
    case 2
    then obtain pre post where "join_with sep (y # ys) = pre @ seg @ post" using "3.IH" by blast
    then show ?thesis by (intro exI [of _ "x @ sep @ pre"] exI [of _ post]) simp
  qed
qed simp

lemma split_char_infix: "seg \<in> set (split_char c s) \<Longrightarrow> \<exists>pre post. s = pre @ seg @ post"
  using join_with_infix [of seg "split_char c s" "[c]"] by (simp add: split_char_join)

text \<open>C6: A path the proxy accepts cannot leave the manager API. It starts with \<open>api/v1/\<close>, has only
  letters, digits, \<open>_\<close>, \<open>-\<close>, \<open>/\<close> and percent signs (so no query, fragment or backslash), and none of its
  segments is a dot segment in any spelling, percent-encoded ones included.\<close>

theorem validManagerPath_confined:
  assumes "validManagerPath v"
  shows "prefix ''api/v1/'' v \<and> (\<forall>c \<in> set v. path_code (of_char c) \<or> c = CHR ''%'') \<and>
     \<not> list_ex dot_segment (split_char (CHR ''/'') v)"
proof -
  obtain ds where ds: "decodeURIComponent v = Some ds" "list_all path_code ds"
    using assms by (auto simp: validManagerPath_def split: if_splits option.splits)
  have chars: "\<forall>c \<in> set v. path_code (of_char c) \<or> c = CHR ''%''" using accepted_chars [OF ds] by blast
  have "\<not> dot_segment seg" if seg: "seg \<in> set (split_char (CHR ''/'') v)" for seg
  proof
    assume dot: "dot_segment seg"
    obtain pre post where v: "v = pre @ seg @ post" using split_char_infix [OF seg] by blast
    from dot show False
    proof (cases rule: dot_segment_shape)
      case 1
      then have "CHR ''.'' \<in> set v" using v by simp
      then have "path_code (of_char (CHR ''.'')) \<or> CHR ''.'' = CHR ''%''" using chars by blast
      then show False by (simp add: path_code_def)
    next
      case (2 h l rest)
      then have "path_code 46" using accepted_escape [OF ds, of pre h l "rest @ post"] v by simp
      then show False by (simp add: path_code_def)
    qed
  qed
  then show ?thesis
    using assms chars by (auto simp: validManagerPath_def startsWith_def list_ex_iff split: if_splits)
qed

theorem validManagerPath_confined_witness:
  "validManagerPath ''api/v1/players/%41b'' \<and> \<not> list_ex dot_segment (split_char (CHR ''/'') ''api/v1/players/%41b'')"
proof -
  have v: "validManagerPath ''api/v1/players/%41b''" by code_simp
  show ?thesis using validManagerPath_confined [OF v] v by simp
qed

section \<open>Credentials\<close>

text \<open>C4: The proxy never lends out the manager token. What is forwarded carries the caller's own bearer
  token whenever the caller sent an Authorization header; the stored token is used only for a caller
  without that header who has a valid GUI session on a GUI with authentication configured.\<close>

theorem proxy_credentials:
  assumes "manager_proxy fetch now s r a = (a', reply)" and "reply = PForwarded st etag body"
  shows "\<exists>x fw. getById (px_id r) s = Some x \<and>
     proxy_forward s r (snd (requestHasValidGuiSession now s (px_request r) a)) = Inr fw \<and>
     (\<exists>resp. fetch fw = Inr resp \<and> fr_status resp = st) \<and> validManagerPath (px_path r) \<and>
     fw_url fw = ''http://127.0.0.1:'' @ show_int (the (managerPort x)) @ ''/'' @ px_path r \<and>
     (case req_authorization (px_request r) of
        Some h \<Rightarrow> \<exists>tok. tok \<noteq> [] \<and> startsWith h ''Bearer '' \<and> tok = trim (drop 7 h) \<and>
                    h_authorization (fw_headers fw) = ''Bearer '' @ tok
      | None \<Rightarrow> hasAuth s \<and> snd (requestHasValidGuiSession now s (px_request r) a) \<and>
                h_authorization (fw_headers fw) = ''Bearer '' @ the (managerToken x))"
proof -
  let ?gui = "snd (requestHasValidGuiSession now s (px_request r) a)"
  obtain fw resp where fw: "proxy_forward s r ?gui = Inr fw" "fetch fw = Inr resp" "fr_status resp = st"
    using assms
    by (auto simp: manager_proxy_def proxy_forward_def Let_def split_beta split: sum.splits if_splits option.splits)
  have "?gui \<Longrightarrow> hasAuth s"
    by (auto simp: requestHasValidGuiSession_def split: if_splits)
  with fw show ?thesis
    by (auto simp: proxy_forward_def managerForwardHeaders_def Let_def split: option.splits if_splits)
qed

definition proxied_instance :: FerrumProxyInstance where
  "proxied_instance = sample_instance\<lparr>managerPort := Some 37001, managerToken := Some ''admin-token''\<rparr>"

definition proxied_request :: proxy_request where
  "proxied_request = \<lparr>px_request = \<lparr>req_path = ''/api/instances/a/manager/api/v1/stats'', req_cookie = HAbsent,
     req_xtoken = HAbsent, req_authorization = Some ''Bearer guest''\<rparr>, px_id = ''a'', px_ifNoneMatch = HAbsent,
     px_method = ''GET'', px_path = ''api/v1/stats'', px_query = [], px_body = JUndef\<rparr>"

definition proxied_manager :: ServiceManager where
  "proxied_manager = set_instances [proxied_instance] guarded_manager"

definition answer :: "forward \<Rightarrow> fetch_response res" where
  "answer fw = Inr \<lparr>fr_status = 200, fr_etag = None, fr_json = None\<rparr>"

lemma proxied_sample:
  "manager_proxy answer 0 proxied_manager proxied_request new_AuthManager =
     (new_AuthManager, PForwarded 200 None (Some (JObj [])))"
proof -
  have "validManagerPath ''api/v1/stats''" by code_simp
  moreover have "trim (drop 7 ''Bearer guest'') = ''guest''" and "startsWith ''Bearer guest'' ''Bearer ''" by code_simp+
  moreover have "getById ''a'' proxied_manager = Some proxied_instance"
    by (simp add: proxied_manager_def getById_def getAll_def set_instances_def proxied_instance_def sample_instance_def)
  ultimately show ?thesis
    by (simp add: manager_proxy_def proxy_forward_def managerForwardHeaders_def proxied_request_def answer_def
        proxied_instance_def requestHasValidGuiSession_def sessionTokenFromRequest_def or_hval_def
        truthy_num_def truthy_str_def Let_def)
qed

theorem proxy_credentials_witness:
  "manager_proxy answer 0 proxied_manager proxied_request new_AuthManager =
     (new_AuthManager, PForwarded 200 None (Some (JObj []))) \<and>
   (\<exists>fw. proxy_forward proxied_manager proxied_request
       (snd (requestHasValidGuiSession 0 proxied_manager (px_request proxied_request) new_AuthManager)) = Inr fw \<and>
     h_authorization (fw_headers fw) = ''Bearer guest'')"
proof -
  have "trim (drop 7 ''Bearer guest'') = ''guest''" by code_simp
  moreover have "req_authorization (px_request proxied_request) = Some ''Bearer guest''"
    by (simp add: proxied_request_def)
  ultimately show ?thesis
    using proxy_credentials [OF proxied_sample refl] proxied_sample by fastforce
qed

end
