(* ===== verification/ProcessManager.thy ===== *)
theory ProcessManager
  imports Services Utf8
begin

text \<open>
  The process manager: \<open>FerrumGUI/src/processManager.ts\<close>. Its \<open>Map\<close> fields are association
  lists, the child processes are the operating system's: \<open>spawn\<close> is an argument (the pid it
  reports, if any), and signals, spawned commands and emitted events are recorded in order in the
  field \<open>pm_out\<close>. What children do later (output, exit, error) are separate steps. Output comes in
  buffers of bytes that are decoded one by one, and messages are lists of UTF-16 code units. Log time
  stamps are the milliseconds their ISO text renders.
\<close>

section \<open>State\<close>

datatype log_type = Stdout | Stderr | System

record LogEntry =
  le_timestamp :: ms
  le_type :: log_type
  le_message :: units

record ProcessOptions =
  po_workingDirectory :: string
  po_binaryPath :: string
  po_args :: "string list option"
  po_useSudo :: bool

datatype pm_event =
    Spawned string string "string list"
  | SpawnFailed string string "string list"
  | Killed string string
  | LogEmitted string LogEntry
  | ExitEmitted string "int option" "string option"
  | ErrorEmitted string string

record ProcessManager =
  pm_processes :: "(string \<times> int option) list"
  pm_logs :: "(string \<times> LogEntry list) list"
  pm_buffers :: "(string \<times> units) list"
  pm_startedAt :: "(string \<times> ms) list"
  pm_startsBlocked :: bool
  pm_out :: "pm_event list"

definition maxLogEntries :: nat where "maxLogEntries = 1000"

definition new_ProcessManager :: ProcessManager where
  "new_ProcessManager = \<lparr>pm_processes = [], pm_logs = [], pm_buffers = [], pm_startedAt = [],
     pm_startsBlocked = False, pm_out = []\<rparr>"

definition emit :: "pm_event \<Rightarrow> ProcessManager \<Rightarrow> ProcessManager" where
  "emit e st = st\<lparr>pm_out := pm_out st @ [e]\<rparr>"

section \<open>Logs\<close>

definition logs_of :: "string \<Rightarrow> ProcessManager \<Rightarrow> LogEntry list" where
  "logs_of i st = (case map_of (pm_logs st) i of None \<Rightarrow> [] | Some l \<Rightarrow> l)"

definition put_log :: "string \<Rightarrow> ProcessManager \<Rightarrow> LogEntry \<Rightarrow> ProcessManager" where
  "put_log i st e =
     (let l = logs_of i st @ [e];
          l' = (if length l > maxLogEntries then drop (length l - maxLogEntries) l else l) in
      st\<lparr>pm_logs := AList.update i l' (pm_logs st)\<rparr>)"

definition mk_entry :: "ms \<Rightarrow> log_type \<Rightarrow> units \<Rightarrow> LogEntry" where
  "mk_entry now ty msg = \<lparr>le_timestamp = now, le_type = ty, le_message = trim_units msg\<rparr>"

definition addLog :: "ms \<Rightarrow> string \<Rightarrow> log_type \<Rightarrow> units \<Rightarrow> ProcessManager \<Rightarrow> ProcessManager \<times> LogEntry" where
  "addLog now i ty msg st = (put_log i st (mk_entry now ty msg), mk_entry now ty msg)"

definition log_and_emit :: "ms \<Rightarrow> string \<Rightarrow> log_type \<Rightarrow> units \<Rightarrow> ProcessManager \<Rightarrow> ProcessManager" where
  "log_and_emit now i ty msg st =
     (case addLog now i ty msg st of (st', e) \<Rightarrow> emit (LogEmitted i e) st')"

text \<open>\<open>s.split(/\r?\n/)\<close>\<close>

fun split_lines :: "units \<Rightarrow> units list" where
  "split_lines [] = [[]]"
| "split_lines (c # cs) =
     (if c = 10 then [] # split_lines cs
      else if c = 13 \<and> cs \<noteq> [] \<and> hd cs = 10 then split_lines cs
      else case split_lines cs of l # ls \<Rightarrow> (c # l) # ls | [] \<Rightarrow> [[c]])"

definition logBufferKey :: "string \<Rightarrow> log_type \<Rightarrow> string" where
  "logBufferKey i ty = i @ '':'' @ (case ty of Stdout \<Rightarrow> ''stdout'' | Stderr \<Rightarrow> ''stderr'' | System \<Rightarrow> ''system'')"

definition buffer_of :: "string \<Rightarrow> ProcessManager \<Rightarrow> units" where
  "buffer_of k st = (case map_of (pm_buffers st) k of None \<Rightarrow> [] | Some b \<Rightarrow> b)"

definition set_buffer :: "string \<Rightarrow> units \<Rightarrow> ProcessManager \<Rightarrow> ProcessManager" where
  "set_buffer k b st = st\<lparr>pm_buffers := AList.update k b (pm_buffers st)\<rparr>"

definition log_line :: "ms \<Rightarrow> string \<Rightarrow> log_type \<Rightarrow> ProcessManager \<Rightarrow> units \<Rightarrow> ProcessManager" where
  "log_line now i ty st line = (if trim_units line = [] then st else log_and_emit now i ty line st)"

definition addBufferedLogs :: "ms \<Rightarrow> string \<Rightarrow> log_type \<Rightarrow> units \<Rightarrow> ProcessManager \<Rightarrow> ProcessManager" where
  "addBufferedLogs now i ty chunk st =
     (let key = logBufferKey i ty;
          lines = split_lines (buffer_of key st @ chunk) in
      foldl (log_line now i ty) (set_buffer key (last lines) st) (butlast lines))"

definition flush_one :: "ms \<Rightarrow> string \<Rightarrow> ProcessManager \<Rightarrow> log_type \<Rightarrow> ProcessManager" where
  "flush_one now i st ty =
     (let key = logBufferKey i ty;
          st' = (case map_of (pm_buffers st) key of
                   None \<Rightarrow> st
                 | Some b \<Rightarrow> if trim_units b = [] then st else log_and_emit now i ty b st) in
      st'\<lparr>pm_buffers := AList.delete key (pm_buffers st')\<rparr>)"

definition flushBufferedLogs :: "ms \<Rightarrow> string \<Rightarrow> ProcessManager \<Rightarrow> ProcessManager" where
  "flushBufferedLogs now i st = foldl (flush_one now i) st [Stdout, Stderr]"

definition clearLogs :: "string \<Rightarrow> ProcessManager \<Rightarrow> ProcessManager" where
  "clearLogs i st = st\<lparr>pm_logs := AList.update i [] (pm_logs st),
     pm_buffers := AList.delete (logBufferKey i Stderr) (AList.delete (logBufferKey i Stdout) (pm_buffers st))\<rparr>"

text \<open>\<open>logs.slice(-limit)\<close> for a positive limit; a negative one skips from the front.\<close>

definition getLogs :: "string \<Rightarrow> int option \<Rightarrow> ProcessManager \<Rightarrow> LogEntry list" where
  "getLogs i limit st =
     (let l = logs_of i st in
      case limit of
        None \<Rightarrow> l
      | Some n \<Rightarrow> if n = 0 then l
                  else if n > 0 then drop (length l - nat n) l else drop (nat (- n)) l)"

section \<open>Processes\<close>

definition isRunning :: "string \<Rightarrow> ProcessManager \<Rightarrow> bool" where
  "isRunning i st \<longleftrightarrow> map_of (pm_processes st) i \<noteq> None"

definition getPid :: "string \<Rightarrow> ProcessManager \<Rightarrow> int option" where
  "getPid i st = Option.bind (map_of (pm_processes st) i) (\<lambda>p. p)"

definition getUptimeSeconds :: "ms \<Rightarrow> string \<Rightarrow> ProcessManager \<Rightarrow> int option" where
  "getUptimeSeconds now i st = map_option (\<lambda>t. max 0 ((now - t) div 1000)) (map_of (pm_startedAt st) i)"

definition show_pid :: "int option \<Rightarrow> string" where
  "show_pid p = (case p of None \<Rightarrow> ''undefined'' | Some n \<Rightarrow> show_int n)"

definition command_of :: "bool \<Rightarrow> ProcessOptions \<Rightarrow> string \<times> string list" where
  "command_of win32 opts =
     (let args = (case po_args opts of None \<Rightarrow> [] | Some a \<Rightarrow> a) in
      if po_useSudo opts \<and> \<not> win32 then (''sudo'', ''-n'' # po_binaryPath opts # args)
      else (po_binaryPath opts, args))"

text \<open>What \<open>spawn\<close> did: a child whose command could not be run has no pid and never lives.\<close>

definition spawn_event :: "int option \<Rightarrow> string \<Rightarrow> string \<Rightarrow> string list \<Rightarrow> pm_event" where
  "spawn_event pid i cmd args = (case pid of None \<Rightarrow> SpawnFailed i cmd args | Some _ \<Rightarrow> Spawned i cmd args)"

definition start ::
  "ms \<Rightarrow> bool \<Rightarrow> int option \<Rightarrow> string \<Rightarrow> ProcessOptions \<Rightarrow> ProcessManager \<Rightarrow> ProcessManager \<times> int res" where
  "start now win32 pid i opts st =
     (if pm_startsBlocked st then (st, Inl (Error ''GUI update is stopping managed processes''))
      else if isRunning i st then (st, Inl (Error (''Process for instance '' @ i @ '' is already running'')))
      else
        let (cmd, args) = command_of win32 opts;
            st1 = emit (spawn_event pid i cmd args) st;
            st2 = st1\<lparr>pm_processes := AList.update i pid (pm_processes st1),
                      pm_startedAt := AList.update i now (pm_startedAt st1),
                      pm_logs := AList.update i [] (pm_logs st1)\<rparr>;
            st3 = log_and_emit now i System (lit (''Process started (PID: '' @ show_pid pid @ '')'')) st2 in
        (st3, case pid of
                Some p \<Rightarrow> if p = 0 then Inl (Error ''Failed to get process PID'') else Inr p
              | None \<Rightarrow> Inl (Error ''Failed to get process PID'')))"

definition show_bool :: "bool \<Rightarrow> string" where
  "show_bool b = (if b then ''true'' else ''false'')"

definition stop :: "ms \<Rightarrow> bool \<Rightarrow> string \<Rightarrow> ProcessManager \<Rightarrow> ProcessManager \<times> unit res" where
  "stop now force i st =
     (if \<not> isRunning i st then (st, Inl (Error (''No running process found for instance '' @ i)))
      else
        let st1 = fst (addLog now i System (lit (''Stopping process (force: '' @ show_bool force @ '')'')) st) in
        (emit (Killed i (if force then ''SIGKILL'' else ''SIGTERM'')) st1, Inr ()))"

text \<open>The listeners on the child. Each buffer is decoded on its own.\<close>

definition on_data :: "ms \<Rightarrow> string \<Rightarrow> log_type \<Rightarrow> 8 word list \<Rightarrow> ProcessManager \<Rightarrow> ProcessManager" where
  "on_data now i ty data st = addBufferedLogs now i ty (data_toString data) st"

definition show_code :: "int option \<Rightarrow> string" where
  "show_code c = (case c of None \<Rightarrow> ''null'' | Some n \<Rightarrow> show_int n)"

definition show_signal :: "string option \<Rightarrow> string" where
  "show_signal s = (case s of None \<Rightarrow> ''null'' | Some x \<Rightarrow> x)"

definition on_exit :: "ms \<Rightarrow> string \<Rightarrow> int option \<Rightarrow> string option \<Rightarrow> ProcessManager \<Rightarrow> ProcessManager" where
  "on_exit now i code sig st =
     (let st1 = flushBufferedLogs now i st;
          st2 = log_and_emit now i System
                  (lit (''Process exited with code '' @ show_code code @ '', signal '' @ show_signal sig)) st1;
          st3 = emit (ExitEmitted i code sig) st2 in
      st3\<lparr>pm_processes := AList.delete i (pm_processes st3), pm_startedAt := AList.delete i (pm_startedAt st3)\<rparr>)"

definition on_error :: "ms \<Rightarrow> string \<Rightarrow> string \<Rightarrow> ProcessManager \<Rightarrow> ProcessManager" where
  "on_error now i msg st =
     emit (ErrorEmitted i msg) (log_and_emit now i System (lit (''Process error: '' @ msg)) st)"

datatype child_event =
    ChildData log_type "8 word list"
  | ChildExit "int option" "string option"
  | ChildError string

fun child_step :: "ProcessManager \<Rightarrow> ms \<times> string \<times> child_event \<Rightarrow> ProcessManager" where
  "child_step st (now, i, ChildData ty data) = on_data now i ty data st"
| "child_step st (now, i, ChildExit c s) = on_exit now i c s st"
| "child_step st (now, i, ChildError m) = on_error now i m st"

text \<open>\<open>restart\<close>: \<open>during\<close> is what happens until the process is gone or ten seconds have passed.\<close>

definition restart ::
  "ms \<Rightarrow> bool \<Rightarrow> int option \<Rightarrow> (ms \<times> string \<times> child_event) list \<Rightarrow> string \<Rightarrow> ProcessOptions \<Rightarrow> ProcessManager
     \<Rightarrow> ProcessManager \<times> int res" where
  "restart now win32 pid during i opts st =
     (let st1 = (if isRunning i st then foldl child_step (fst (stop now False i st)) during else st) in
      start now win32 pid i opts st1)"

definition stopAll :: "ms \<Rightarrow> ProcessManager \<Rightarrow> ProcessManager" where
  "stopAll now st = foldl (\<lambda>s i. fst (stop now False i s)) st (map fst (pm_processes st))"

text \<open>\<open>stopAllAndWait\<close>: \<open>w1\<close> is what happens in the first wait, \<open>w2\<close> in the one after SIGKILL.\<close>

definition stopAllAndWait ::
  "ms \<Rightarrow> (ms \<times> string \<times> child_event) list \<Rightarrow> (ms \<times> string \<times> child_event) list \<Rightarrow> ProcessManager
     \<Rightarrow> ProcessManager \<times> unit res" where
  "stopAllAndWait now w1 w2 st =
     (let st1 = foldl child_step (stopAll now (st\<lparr>pm_startsBlocked := True\<rparr>)) w1;
          st2 = (if pm_processes st1 \<noteq> []
                 then foldl child_step
                        (foldl (\<lambda>s i. fst (stop now True i s)) st1 (map fst (pm_processes st1))) w2
                 else st1) in
      if pm_processes st2 \<noteq> [] then (st2, Inl (Error ''Managed processes did not stop before GUI update''))
      else (st2, Inr ()))"

definition resumeStarts :: "ProcessManager \<Rightarrow> ProcessManager" where
  "resumeStarts st = st\<lparr>pm_startsBlocked := False\<rparr>"

section \<open>Output in pieces\<close>

lemma split_lines_ne [simp]: "split_lines s \<noteq> []"
  by (induction s) (auto split: list.splits)

lemma split_lines_single: "split_lines s = [l] \<Longrightarrow> l = s \<and> 10 \<notin> set s"
proof (induction s arbitrary: l)
  case (Cons c cs)
  show ?case
  proof (cases "c = 13 \<and> cs \<noteq> [] \<and> hd cs = 10")
    case True
    then have "10 \<notin> set cs" using Cons by auto
    then show ?thesis using True by (cases cs) auto
  next
    case False
    then show ?thesis using Cons by (auto split: if_splits list.splits)
  qed
qed simp

lemma split_lines_append:
  "split_lines (a @ b) = butlast (split_lines a) @ split_lines (last (split_lines a) @ b)"
proof (induction a)
  case (Cons c a)
  obtain l ls where e: "split_lines a = l # ls" by (cases "split_lines a") auto
  have lf: "c \<noteq> 10 \<Longrightarrow> a = [] \<Longrightarrow> ?case" by simp
  have crlf: "c = 13 \<Longrightarrow> a \<noteq> [] \<Longrightarrow> hd a = 10 \<Longrightarrow> ?case"
    using Cons.IH by simp
  show ?case
  proof (cases "c = 10")
    case True
    then show ?thesis using Cons.IH by simp
  next
    case False
    show ?thesis
    proof (cases "ls = []")
      case True
      have same: "l = a" and "10 \<notin> set a" using split_lines_single [of a l] e True by auto
      then have hd: "a \<noteq> [] \<Longrightarrow> hd a \<noteq> 10" by (cases a) auto
      show ?thesis using lf crlf hd False e True same by (cases "a = []") auto
    next
      case ls: False
      have "\<not> (c = 13 \<and> a \<noteq> [] \<and> hd a = 10) \<Longrightarrow> ?thesis"
        using Cons.IH e ls False by (cases a) (auto split: list.splits)
      then show ?thesis using crlf by blast
    qed
  qed
qed simp

lemmas log_defs = log_line_def log_and_emit_def addLog_def put_log_def emit_def Let_def

lemma logs_of_set_buffer [simp]: "logs_of i (set_buffer k b st) = logs_of i st"
  by (simp add: logs_of_def set_buffer_def)

lemma set_buffer_log_line: "set_buffer k b (log_line now i ty st l) = log_line now i ty (set_buffer k b st) l"
  by (simp add: log_defs logs_of_def set_buffer_def)

lemma set_buffer_log_lines:
  "set_buffer k b (foldl (log_line now i ty) st ls) = foldl (log_line now i ty) (set_buffer k b st) ls"
  by (induction ls arbitrary: st) (simp_all add: set_buffer_log_line)

lemma buffer_of_log_lines [simp]: "buffer_of k (foldl (log_line now i ty) st ls) = buffer_of k st"
  by (induction ls arbitrary: st) (simp_all add: log_defs buffer_of_def)

lemma buffer_of_set_buffer [simp]: "buffer_of k (set_buffer k b st) = b"
  by (simp add: buffer_of_def set_buffer_def update_conv')

lemma set_buffer_twice [simp]: "set_buffer k b (set_buffer k b' st) = set_buffer k b st"
  by (simp add: set_buffer_def)

lemma addBufferedLogs_append:
  "addBufferedLogs now i ty c2 (addBufferedLogs now i ty c1 st) = addBufferedLogs now i ty (c1 @ c2) st"
proof -
  let ?k = "logBufferKey i ty" and ?s = "split_lines (buffer_of (logBufferKey i ty) st @ c1)"
  have "split_lines (buffer_of ?k st @ c1 @ c2) = butlast ?s @ split_lines (last ?s @ c2)"
    using split_lines_append [of "buffer_of ?k st @ c1" c2] by simp
  then show ?thesis
    by (simp add: addBufferedLogs_def Let_def set_buffer_log_lines butlast_append)
qed

lemma addBufferedLogs_concat:
  assumes "chunks \<noteq> []"
  shows "foldl (\<lambda>s c. addBufferedLogs now i ty c s) st chunks = addBufferedLogs now i ty (concat chunks) st"
  using assms
proof (induction chunks rule: rev_nonempty_induct)
  case (snoc c cs)
  then show ?case by (simp add: addBufferedLogs_append)
qed simp

lemma on_data_concat:
  assumes "chunks \<noteq> []" and "list_all whole_chars (butlast chunks)"
  shows "foldl (\<lambda>s c. on_data now i ty c s) st chunks = addBufferedLogs now i ty (data_toString (concat chunks)) st"
proof -
  have "foldl (\<lambda>s c. on_data now i ty c s) st chunks =
      foldl (\<lambda>s c. addBufferedLogs now i ty c s) st (map data_toString chunks)"
    by (simp add: on_data_def foldl_map)
  then show ?thesis
    using addBufferedLogs_concat [of "map data_toString chunks"] assms by (simp add: data_toString_concat)
qed

section \<open>The bounded log\<close>

lemma logs_of_put_log:
  "logs_of i (put_log i st e) = drop (length (logs_of i st) + 1 - maxLogEntries) (logs_of i st @ [e])"
  by (simp add: put_log_def Let_def logs_of_def update_conv')

interpretation pml: bounded_log "put_log i" "logs_of i" maxLogEntries for i
  by unfold_locales (rule logs_of_put_log)

lemma logs_of_log_lines:
  "logs_of i (foldl (log_line now i ty) st ls) =
     logs_of i (foldl (put_log i) st (map (mk_entry now ty) (filter (\<lambda>l. trim_units l \<noteq> []) ls)))"
proof -
  have cong: "logs_of i (foldl (put_log i) s es) = logs_of i (foldl (put_log i) s' es)"
    if "logs_of i s = logs_of i s'" for s s' es
    using that by (induction es arbitrary: s s') (simp_all add: logs_of_put_log)
  have emit: "logs_of i (emit e s) = logs_of i s" for e s by (simp add: emit_def logs_of_def)
  show ?thesis
  proof (induction ls arbitrary: st)
    case (Cons l ls)
    then show ?case
      using cong [OF emit, of "LogEmitted i (mk_entry now ty l)" "put_log i st (mk_entry now ty l)"]
      by (simp add: log_line_def log_and_emit_def addLog_def)
  qed simp
qed

text \<open>C23: Output arrives in buffers that are decoded one by one. As long as no cut falls inside a
  character, the log of a process does not depend on how its output is cut, not even inside a line
  ending: after any buffers it holds the newest 1000 entries of the old log followed by the trimmed
  non-blank complete lines of the whole decoded output, in order.\<close>

theorem process_log_of_output:
  assumes "buffer_of (logBufferKey i ty) st = []" and "length (logs_of i st) \<le> maxLogEntries" and "chunks \<noteq> []"
    and "list_all whole_chars (butlast chunks)"
  shows "logs_of i (foldl (\<lambda>s c. on_data now i ty c s) st chunks) =
     (let entries = logs_of i st @ map (mk_entry now ty)
            (filter (\<lambda>l. trim_units l \<noteq> []) (butlast (split_lines (data_toString (concat chunks))))) in
      drop (length entries - maxLogEntries) entries)"
  unfolding on_data_concat [OF assms(3,4)]
  using assms(1,2)
    pml.run_keeps_newest [of i "set_buffer (logBufferKey i ty) (last (split_lines (data_toString (concat chunks)))) st"]
  by (simp add: addBufferedLogs_def logs_of_log_lines Let_def)

definition chunks_sample :: "8 word list list" where
  "chunks_sample = [[0x6F, 0x6E, 0xC3, 0xA9, 13], [10, 32, 10, 0x74], [0x77, 10, 0x72]]"

theorem process_log_of_output_witness:
  "list_all whole_chars (butlast chunks_sample) \<and>
   logs_of ''a'' (foldl (\<lambda>s c. on_data 5 ''a'' Stdout c s) new_ProcessManager chunks_sample) =
     [mk_entry 5 Stdout [0x6F, 0x6E, 0xE9], mk_entry 5 Stdout [0x74, 0x77]]"
proof -
  have w: "list_all whole_chars (butlast chunks_sample)"
    by (simp add: chunks_sample_def whole_chars_def utf8_end_def lead_byte_def)
  have d: "data_toString (concat chunks_sample) = [0x6F, 0x6E, 0xE9, 13, 10, 32, 10, 0x74, 0x77, 10, 0x72]"
    by (simp add: chunks_sample_def data_toString_def utf8_end_def lead_byte_def utf16_def)
  have "filter (\<lambda>l. trim_units l \<noteq> []) (butlast (split_lines (data_toString (concat chunks_sample)))) =
      [[0x6F, 0x6E, 0xE9], [0x74, 0x77]]"
    unfolding d by (simp add: trim_units_def ws_unit_def)
  then show ?thesis
    using process_log_of_output [of "''a''" Stdout new_ProcessManager chunks_sample 5, OF _ _ _ w] w
    by (simp add: buffer_of_def logs_of_def new_ProcessManager_def maxLogEntries_def) (simp add: chunks_sample_def)
qed

section \<open>One live child per instance\<close>

text \<open>Everything that can happen to the manager. A child exits only while it is in the map, since its
  entry is removed by nothing else, and only if it was really spawned: of a child without a pid the
  runtime reports an error and no exit. Output may come at any time.\<close>

inductive pm_reachable :: "ProcessManager \<Rightarrow> bool" where
  init: "pm_reachable new_ProcessManager"
| start: "pm_reachable st \<Longrightarrow> pm_reachable (fst (start now win32 pid i opts st))"
| stop: "pm_reachable st \<Longrightarrow> pm_reachable (fst (stop now force i st))"
| data: "pm_reachable st \<Longrightarrow> pm_reachable (on_data now i ty data st)"
| exit: "pm_reachable st \<Longrightarrow> getPid i st \<noteq> None \<Longrightarrow> pm_reachable (on_exit now i code sig st)"
| error: "pm_reachable st \<Longrightarrow> pm_reachable (on_error now i msg st)"
| clear: "pm_reachable st \<Longrightarrow> pm_reachable (clearLogs i st)"
| block: "pm_reachable st \<Longrightarrow> pm_reachable (st\<lparr>pm_startsBlocked := True\<rparr>)"
| resume: "pm_reachable st \<Longrightarrow> pm_reachable (resumeStarts st)"

fun is_spawn :: "string \<Rightarrow> pm_event \<Rightarrow> bool" where
  "is_spawn i (Spawned j c a) = (i = j)" | "is_spawn i _ = False"

fun is_exit :: "string \<Rightarrow> pm_event \<Rightarrow> bool" where
  "is_exit i (ExitEmitted j c s) = (i = j)" | "is_exit i _ = False"

definition live_children :: "string \<Rightarrow> ProcessManager \<Rightarrow> int" where
  "live_children i st = int (length (filter (is_spawn i) (pm_out st))) - int (length (filter (is_exit i) (pm_out st)))"

definition logs_bounded :: "ProcessManager \<Rightarrow> bool" where
  "logs_bounded st \<longleftrightarrow> (\<forall>i. length (logs_of i st) \<le> maxLogEntries)"

text \<open>The part of the state that logging leaves alone.\<close>

definition pm_core :: "ProcessManager \<Rightarrow> (string \<times> int option) list \<times> (string \<times> ms) list \<times> bool \<times> pm_event list" where
  "pm_core st = (pm_processes st, pm_startedAt st, pm_startsBlocked st,
     filter (\<lambda>e. case e of LogEmitted _ _ \<Rightarrow> False | _ \<Rightarrow> True) (pm_out st))"

lemma pm_core_live: "pm_core st = pm_core st' \<Longrightarrow> live_children i st = live_children i st'"
proof -
  have f: "filter (is_spawn i) es = filter (is_spawn i) (filter (\<lambda>e. case e of LogEmitted _ _ \<Rightarrow> False | _ \<Rightarrow> True) es)"
    "filter (is_exit i) es = filter (is_exit i) (filter (\<lambda>e. case e of LogEmitted _ _ \<Rightarrow> False | _ \<Rightarrow> True) es)" for es
    by (induction es) (auto split: pm_event.splits)
  assume "pm_core st = pm_core st'"
  then show ?thesis
    using f [of "pm_out st"] f [of "pm_out st'"] unfolding live_children_def pm_core_def by simp
qed

lemma pm_core_log [simp]: "pm_core (log_and_emit now i ty msg st) = pm_core st"
  by (simp add: pm_core_def log_and_emit_def addLog_def put_log_def emit_def Let_def)

lemma pm_core_addLog [simp]: "pm_core (fst (addLog now i ty msg st)) = pm_core st"
  by (simp add: pm_core_def addLog_def put_log_def Let_def)

lemma pm_core_log_lines [simp]: "pm_core (foldl (log_line now i ty) st ls) = pm_core st"
  by (induction ls arbitrary: st) (simp_all add: log_line_def)

lemma pm_core_data [simp]: "pm_core (addBufferedLogs now i ty chunk st) = pm_core st"
  by (simp add: addBufferedLogs_def Let_def) (simp add: pm_core_def set_buffer_def)

lemma pm_core_flush_one [simp]: "pm_core (flush_one now i st ty) = pm_core st"
proof -
  have del: "pm_core (s\<lparr>pm_buffers := b\<rparr>) = pm_core s" for s b by (simp add: pm_core_def)
  show ?thesis by (simp add: flush_one_def Let_def del split: option.split)
qed

lemma pm_core_flush [simp]: "pm_core (flushBufferedLogs now i st) = pm_core st"
  by (simp add: flushBufferedLogs_def)

lemma bounded_put_log: "logs_bounded st \<Longrightarrow> logs_bounded (put_log i st e)"
  unfolding logs_bounded_def
proof
  fix j
  assume b: "\<forall>i. length (logs_of i st) \<le> maxLogEntries"
  show "length (logs_of j (put_log i st e)) \<le> maxLogEntries"
  proof (cases "j = i")
    case True
    then show ?thesis using pml.push_bound [of i st e] b by simp
  next
    case False
    then have "logs_of j (put_log i st e) = logs_of j st"
      by (simp add: put_log_def Let_def logs_of_def update_conv')
    then show ?thesis using b by simp
  qed
qed

lemma bounded_cong: "pm_logs st = pm_logs st' \<Longrightarrow> logs_bounded st = logs_bounded st'"
  by (simp add: logs_bounded_def logs_of_def)

lemma bounded_log_and_emit: "logs_bounded st \<Longrightarrow> logs_bounded (log_and_emit now i ty msg st)"
  using bounded_put_log [of st i "mk_entry now ty msg"]
    bounded_cong [of "log_and_emit now i ty msg st" "put_log i st (mk_entry now ty msg)"]
  by (simp add: log_and_emit_def addLog_def emit_def)

lemma bounded_log_lines: "logs_bounded st \<Longrightarrow> logs_bounded (foldl (log_line now i ty) st ls)"
  by (induction ls arbitrary: st) (simp_all add: log_line_def bounded_log_and_emit)

lemma bounded_empty: "logs_bounded st \<Longrightarrow> logs_bounded (st\<lparr>pm_logs := AList.update i [] (pm_logs st)\<rparr>)"
  by (simp add: logs_bounded_def logs_of_def update_conv')

lemma bounded_data: "logs_bounded st \<Longrightarrow> logs_bounded (addBufferedLogs now i ty chunk st)"
proof -
  assume b: "logs_bounded st"
  then have "logs_bounded (set_buffer k x st)" for k x
    using bounded_cong [of "set_buffer k x st" st] by (simp add: set_buffer_def)
  then show ?thesis by (simp add: addBufferedLogs_def Let_def bounded_log_lines)
qed

lemma bounded_flush: "logs_bounded st \<Longrightarrow> logs_bounded (flushBufferedLogs now i st)"
proof -
  have one: "logs_bounded s \<Longrightarrow> logs_bounded (flush_one now i s ty)" for s ty
  proof -
    assume b: "logs_bounded s"
    define s' where "s' = (case map_of (pm_buffers s) (logBufferKey i ty) of None \<Rightarrow> s
      | Some b \<Rightarrow> if trim_units b = [] then s else log_and_emit now i ty b s)"
    have "logs_bounded s'" using b by (simp add: s'_def bounded_log_and_emit split: option.split)
    then show ?thesis
      using bounded_cong [of "flush_one now i s ty" s'] by (simp add: flush_one_def Let_def s'_def)
  qed
  assume "logs_bounded st"
  then show ?thesis by (simp add: flushBufferedLogs_def one)
qed

definition pm_inv :: "ProcessManager \<Rightarrow> bool" where
  "pm_inv st \<longleftrightarrow> (\<forall>i. live_children i st = (if getPid i st = None then 0 else 1)) \<and> logs_bounded st \<and>
     dom (map_of (pm_startedAt st)) = dom (map_of (pm_processes st))"

lemma pm_inv_core:
  assumes "pm_core st' = pm_core st" and "logs_bounded st'" and "pm_inv st"
  shows "pm_inv st'"
  using assms pm_core_live [OF assms(1)]
  by (auto simp: pm_inv_def getPid_def pm_core_def)

lemma live_children_spawn:
  "pm_out st' = pm_out st @ [spawn_event pid i c a] \<Longrightarrow>
     live_children j st' = live_children j st + (if j = i \<and> pid \<noteq> None then 1 else 0)"
  by (auto simp: live_children_def spawn_event_def split: option.split)

lemma live_children_exit:
  "pm_out st' = pm_out st @ [ExitEmitted i c g] \<Longrightarrow> live_children j st' = live_children j st - (if j = i then 1 else 0)"
  by (simp add: live_children_def)

lemma pm_inv_spawned:
  assumes inv: "pm_inv st" and stopped: "\<not> isRunning i st" and b: "logs_bounded st'"
    and "pm_out st' = pm_out st @ [spawn_event pid i c a]" and "pm_processes st' = AList.update i pid (pm_processes st)"
    and "pm_startedAt st' = AList.update i now (pm_startedAt st)"
  shows "pm_inv st'"
  using assms live_children_spawn [OF assms(4)]
  by (auto simp: pm_inv_def isRunning_def getPid_def update_conv')

lemma pm_inv_exited:
  assumes inv: "pm_inv st" and run: "getPid i st \<noteq> None" and b: "logs_bounded st'"
    and "pm_out st' = pm_out st @ [ExitEmitted i c g]" and "pm_processes st' = AList.delete i (pm_processes st)"
    and "pm_startedAt st' = AList.delete i (pm_startedAt st)"
  shows "pm_inv st'"
  using assms live_children_exit [OF assms(4)]
  by (auto simp: pm_inv_def getPid_def delete_conv')

definition spawned :: "ms \<Rightarrow> bool \<Rightarrow> int option \<Rightarrow> string \<Rightarrow> ProcessOptions \<Rightarrow> ProcessManager \<Rightarrow> ProcessManager" where
  "spawned now win32 pid i opts st =
     (emit (spawn_event pid i (fst (command_of win32 opts)) (snd (command_of win32 opts))) st)
       \<lparr>pm_processes := AList.update i pid (pm_processes st), pm_startedAt := AList.update i now (pm_startedAt st),
        pm_logs := AList.update i [] (pm_logs st)\<rparr>"

lemma fst_start:
  "fst (start now win32 pid i opts st) =
     (if pm_startsBlocked st \<or> isRunning i st then st
      else log_and_emit now i System (lit (''Process started (PID: '' @ show_pid pid @ '')'')) (spawned now win32 pid i opts st))"
  unfolding start_def spawned_def Let_def by (simp add: emit_def split_beta)

lemma pm_inv_start:
  assumes inv: "pm_inv st"
  shows "pm_inv (fst (start now win32 pid i opts st))"
proof (cases "pm_startsBlocked st \<or> isRunning i st")
  case True
  then show ?thesis using inv unfolding fst_start by simp
next
  case False
  let ?s = "spawned now win32 pid i opts st"
  have "pm_logs ?s = pm_logs (st\<lparr>pm_logs := AList.update i [] (pm_logs st)\<rparr>)"
    by (simp add: spawned_def)
  moreover have "logs_bounded st" using inv by (simp add: pm_inv_def)
  ultimately have b: "logs_bounded ?s" using bounded_empty bounded_cong by blast
  have "pm_inv ?s"
    using False by (intro pm_inv_spawned [OF inv _ b]) (simp_all add: spawned_def emit_def)
  then have "pm_inv (log_and_emit now i System m ?s)" for m
    using pm_inv_core [OF pm_core_log bounded_log_and_emit [OF b]] by blast
  then show ?thesis using False unfolding fst_start by simp
qed

lemma pm_inv_exit:
  assumes inv: "pm_inv st" and run: "getPid i st \<noteq> None"
  shows "pm_inv (on_exit now i code sig st)"
proof -
  define st2 where "st2 = log_and_emit now i System
    (lit (''Process exited with code '' @ show_code code @ '', signal '' @ show_signal sig)) (flushBufferedLogs now i st)"
  have core: "pm_core st2 = pm_core st" and b: "logs_bounded st2"
    using inv by (simp_all add: st2_def bounded_log_and_emit bounded_flush pm_inv_def)
  then have inv2: "pm_inv st2" and run2: "getPid i st2 \<noteq> None"
    using pm_inv_core [OF core b inv] run by (auto simp: pm_core_def getPid_def)
  have "on_exit now i code sig st = (emit (ExitEmitted i code sig) st2)
      \<lparr>pm_processes := AList.delete i (pm_processes st2), pm_startedAt := AList.delete i (pm_startedAt st2)\<rparr>"
    unfolding on_exit_def Let_def st2_def [symmetric] by (simp add: emit_def)
  moreover from this have "logs_bounded (on_exit now i code sig st)"
    using b bounded_cong [of "on_exit now i code sig st" st2] by (simp add: emit_def)
  ultimately show ?thesis
    by (intro pm_inv_exited [OF inv2 run2]) (simp_all add: emit_def)
qed

lemma pm_inv_emit_other:
  "pm_inv st \<Longrightarrow> (\<And>j. \<not> is_spawn j e \<and> \<not> is_exit j e) \<Longrightarrow> pm_inv (emit e st)"
  using bounded_cong [of "emit e st" st]
  by (simp add: pm_inv_def emit_def live_children_def getPid_def)

lemma pm_inv_stop: "pm_inv st \<Longrightarrow> pm_inv (fst (stop now force i st))"
proof -
  assume inv: "pm_inv st"
  have "logs_bounded (fst (addLog now i System m st))" for m
    using inv bounded_put_log by (simp add: addLog_def pm_inv_def)
  then have "pm_inv (fst (addLog now i System m st))" for m
    using pm_inv_core [OF pm_core_addLog _ inv] by blast
  then have "pm_inv (emit (Killed i sg) (fst (addLog now i System m st)))" for m sg
    using pm_inv_emit_other by simp
  then show ?thesis using inv unfolding stop_def Let_def by (simp split: if_split)
qed

lemma pm_inv_on_error: "pm_inv st \<Longrightarrow> pm_inv (on_error now i msg st)"
proof -
  assume inv: "pm_inv st"
  then have "logs_bounded (log_and_emit now i System m st)" for m
    using bounded_log_and_emit by (simp add: pm_inv_def)
  then have "pm_inv (log_and_emit now i System m st)" for m
    using pm_inv_core [OF pm_core_log _ inv] by blast
  then show ?thesis unfolding on_error_def using pm_inv_emit_other by simp
qed

lemma pm_inv_clear: "pm_inv st \<Longrightarrow> pm_inv (clearLogs i st)"
proof -
  assume inv: "pm_inv st"
  have "pm_logs (clearLogs i st) = pm_logs (st\<lparr>pm_logs := AList.update i [] (pm_logs st)\<rparr>)"
    by (simp add: clearLogs_def)
  moreover have "logs_bounded st" using inv by (simp add: pm_inv_def)
  ultimately have "logs_bounded (clearLogs i st)" using bounded_empty bounded_cong by blast
  moreover have "pm_core (clearLogs i st) = pm_core st" by (simp add: pm_core_def clearLogs_def)
  ultimately show ?thesis using inv pm_inv_core by blast
qed

lemma pm_inv_blocked: "pm_inv st \<Longrightarrow> pm_inv (st\<lparr>pm_startsBlocked := b\<rparr>)"
  using bounded_cong [of "st\<lparr>pm_startsBlocked := b\<rparr>" st]
  by (simp add: pm_inv_def live_children_def getPid_def)

lemma pm_inv_data: "pm_inv st \<Longrightarrow> pm_inv (on_data now i ty data st)"
  using pm_inv_core [OF pm_core_data bounded_data] by (simp add: pm_inv_def on_data_def)

lemma pm_reachable_inv: "pm_reachable st \<Longrightarrow> pm_inv st"
proof (induction rule: pm_reachable.induct)
  case init
  show ?case
    by (simp add: pm_inv_def new_ProcessManager_def live_children_def getPid_def logs_bounded_def logs_of_def)
next
  case (resume st)
  then show ?case by (simp add: resumeStarts_def pm_inv_blocked)
qed (simp_all add: pm_inv_start pm_inv_stop pm_inv_data pm_inv_exit pm_inv_on_error pm_inv_clear pm_inv_blocked)

text \<open>C15: Whatever calls and child events happen, in any order, an instance never has two live
  children: the children really spawned for it minus those that have exited is one while the map has
  it with a pid and zero otherwise, also while the map keeps a child that could not be spawned. The
  start times have the same keys as the map, and no log exceeds 1000 entries.\<close>

theorem one_live_child:
  assumes "pm_reachable st"
  shows "live_children i st = (if getPid i st = None then 0 else 1) \<and> length (logs_of i st) \<le> 1000 \<and>
     (map_of (pm_startedAt st) i = None \<longleftrightarrow> \<not> isRunning i st)"
proof -
  note inv = pm_reachable_inv [OF assms, unfolded pm_inv_def]
  have "i \<in> dom (map_of (pm_startedAt st)) \<longleftrightarrow> i \<in> dom (map_of (pm_processes st))" using inv by simp
  then have "map_of (pm_startedAt st) i = None \<longleftrightarrow> \<not> isRunning i st" unfolding domIff isRunning_def by blast
  moreover have "length (logs_of i st) \<le> 1000" using inv by (simp add: logs_bounded_def maxLogEntries_def)
  ultimately show ?thesis using inv by simp
qed

definition opts_sample :: ProcessOptions where
  "opts_sample = \<lparr>po_workingDirectory = ''d'', po_binaryPath = ''b'', po_args = None, po_useSudo = False\<rparr>"

definition one_live_one_failed :: ProcessManager where
  "one_live_one_failed = fst (start 3 False None ''b'' opts_sample (fst (start 2 False (Some 8) ''a'' opts_sample
      (fst (start 1 False (Some 7) ''a'' opts_sample new_ProcessManager)))))"

theorem one_live_child_witness:
  "live_children ''a'' one_live_one_failed = 1 \<and> live_children ''b'' one_live_one_failed = 0 \<and>
   isRunning ''b'' one_live_one_failed"
proof -
  have r: "pm_reachable one_live_one_failed"
    unfolding one_live_one_failed_def by (intro pm_reachable.intros)
  have "getPid ''a'' one_live_one_failed = Some 7 \<and> getPid ''b'' one_live_one_failed = None \<and>
      isRunning ''b'' one_live_one_failed"
    unfolding one_live_one_failed_def fst_start new_ProcessManager_def isRunning_def getPid_def spawned_def
    by (simp add: log_and_emit_def addLog_def put_log_def emit_def Let_def update_conv')
  then show ?thesis using one_live_child [OF r, of "''a''"] one_live_child [OF r, of "''b''"] by simp
qed

section \<open>Stopping everything, and children that never were\<close>

lemma pm_core_fields:
  "pm_core st' = pm_core st \<Longrightarrow> pm_startsBlocked st' = pm_startsBlocked st \<and> pm_processes st' = pm_processes st"
  by (simp add: pm_core_def)

lemmas log_fields = pm_core_fields [OF pm_core_log] and data_fields = pm_core_fields [OF pm_core_data]
  and flush_fields = pm_core_fields [OF pm_core_flush] and addLog_fields = pm_core_fields [OF pm_core_addLog]

lemma exit_fields:
  "pm_startsBlocked (on_exit now i c s st) = pm_startsBlocked st \<and>
   pm_processes (on_exit now i c s st) = AList.delete i (pm_processes st)"
  unfolding on_exit_def Let_def by (simp add: emit_def log_fields flush_fields)

lemma error_fields:
  "pm_startsBlocked (on_error now i m st) = pm_startsBlocked st \<and>
   pm_processes (on_error now i m st) = pm_processes st"
  unfolding on_error_def by (simp add: emit_def log_fields)

lemma stop_fields:
  "pm_startsBlocked (fst (stop now f i st)) = pm_startsBlocked st \<and>
   pm_processes (fst (stop now f i st)) = pm_processes st"
  unfolding stop_def Let_def by (simp add: emit_def addLog_fields)

text \<open>Whether an event is the exit of the child of \<open>i\<close>.\<close>

fun exits :: "string \<Rightarrow> ms \<times> string \<times> child_event \<Rightarrow> bool" where
  "exits i (now, j, ChildExit c s) = (j = i)" | "exits i _ = False"

lemma child_step_fields:
  "pm_startsBlocked (child_step st e) = pm_startsBlocked st \<and>
   (isRunning i (child_step st e) \<longleftrightarrow> isRunning i st \<and> \<not> exits i e)"
proof -
  obtain now j ev where e: "e = (now, j, ev)" by (cases e) auto
  show ?thesis
    by (cases ev) (auto simp: e isRunning_def on_data_def data_fields exit_fields error_fields delete_conv')
qed

lemma child_run_fields:
  "pm_startsBlocked (foldl child_step st es) = pm_startsBlocked st \<and>
   (isRunning i (foldl child_step st es) \<longleftrightarrow> isRunning i st \<and> \<not> list_ex (exits i) es)"
  by (induction es arbitrary: st) (simp_all add: child_step_fields)

lemma stop_run_fields:
  "pm_startsBlocked (foldl (\<lambda>s j. fst (stop now f j s)) st is) = pm_startsBlocked st \<and>
   pm_processes (foldl (\<lambda>s j. fst (stop now f j s)) st is) = pm_processes st"
  by (induction "is" arbitrary: st) (simp_all add: stop_fields)

lemma stopAllAndWait_fields:
  "pm_startsBlocked (fst (stopAllAndWait now w1 w2 st)) \<and>
   (isRunning i (fst (stopAllAndWait now w1 w2 st)) \<longrightarrow> isRunning i st) \<and>
   (isRunning i st \<and> \<not> list_ex (exits i) w1 \<and> \<not> list_ex (exits i) w2 \<longrightarrow>
      isRunning i (fst (stopAllAndWait now w1 w2 st)))"
proof -
  define st0 where "st0 = stopAll now (st\<lparr>pm_startsBlocked := True\<rparr>)"
  define st1 where "st1 = foldl child_step st0 w1"
  define st2 where "st2 = (if pm_processes st1 \<noteq> []
     then foldl child_step (foldl (\<lambda>s j. fst (stop now True j s)) st1 (map fst (pm_processes st1))) w2 else st1)"
  have 0: "pm_startsBlocked st0" "isRunning i st0 = isRunning i st"
    using stop_run_fields [of now False "st\<lparr>pm_startsBlocked := True\<rparr>" "map fst (pm_processes st)"]
    by (simp_all add: st0_def stopAll_def isRunning_def)
  have 1: "pm_startsBlocked st1" "isRunning i st1 \<longleftrightarrow> isRunning i st \<and> \<not> list_ex (exits i) w1"
    using child_run_fields [of st0 w1 i] 0 by (simp_all add: st1_def)
  let ?k = "foldl (\<lambda>s j. fst (stop now True j s)) st1 (map fst (pm_processes st1))"
  have k: "pm_startsBlocked ?k" "isRunning i ?k = isRunning i st1"
    using 1(1) stop_run_fields [of now True st1 "map fst (pm_processes st1)"] by (simp_all add: isRunning_def)
  have 2: "pm_startsBlocked st2" "isRunning i st2 \<longrightarrow> isRunning i st1"
    "isRunning i st1 \<and> \<not> list_ex (exits i) w2 \<longrightarrow> isRunning i st2"
    using 1(1) k child_run_fields [of ?k w2 i] by (simp_all add: st2_def)
  have eq: "fst (stopAllAndWait now w1 w2 st) = st2"
    unfolding stopAllAndWait_def Let_def st0_def [symmetric] st1_def [symmetric] st2_def [symmetric] by simp
  show ?thesis unfolding eq using 1(2) 2 by blast
qed

lemma not_running_empty: "pm_processes st = [] \<Longrightarrow> \<not> isRunning i st"
  by (simp add: isRunning_def)

lemma stopAllAndWait_result:
  "snd (stopAllAndWait now w1 w2 st) = Inr () \<longleftrightarrow> pm_processes (fst (stopAllAndWait now w1 w2 st)) = []"
  unfolding stopAllAndWait_def Let_def by simp

text \<open>C25: When the shutdown before a GUI update reports success, nothing runs any more, and whatever
  late output or errors arrive, no instance can be started until the starts are resumed; after
  resuming, a start that gets a pid succeeds again.\<close>

theorem stopAllAndWait_quiesces:
  assumes "snd (stopAllAndWait now w1 w2 st) = Inr ()"
  shows "\<not> isRunning i (foldl child_step (fst (stopAllAndWait now w1 w2 st)) late) \<and>
     start t win32 pid i opts (foldl child_step (fst (stopAllAndWait now w1 w2 st)) late) =
       (foldl child_step (fst (stopAllAndWait now w1 w2 st)) late,
        Inl (Error ''GUI update is stopping managed processes'')) \<and>
     snd (start t win32 (Some (int p + 1)) i opts
       (resumeStarts (foldl child_step (fst (stopAllAndWait now w1 w2 st)) late))) = Inr (int p + 1)"
proof -
  let ?s = "foldl child_step (fst (stopAllAndWait now w1 w2 st)) late"
  have r: "\<not> isRunning i ?s" and b: "pm_startsBlocked ?s"
    using assms not_running_empty stopAllAndWait_result child_run_fields stopAllAndWait_fields by blast+
  have "\<not> isRunning i (resumeStarts ?s)" "\<not> pm_startsBlocked (resumeStarts ?s)"
    using r by (simp_all add: resumeStarts_def isRunning_def)
  then have "snd (start t win32 (Some (int p + 1)) i opts (resumeStarts ?s)) = Inr (int p + 1)"
    unfolding start_def Let_def by (simp add: split_beta)
  then show ?thesis using r b by (simp add: start_def)
qed

definition one_process :: ProcessManager where
  "one_process = new_ProcessManager\<lparr>pm_processes := [(''a'', Some 7)], pm_startedAt := [(''a'', 0)]\<rparr>"

theorem stopAllAndWait_quiesces_witness:
  "snd (start 9 False (Some 8) ''a'' opts_sample
     (fst (stopAllAndWait 1 [(2, ''a'', ChildExit (Some 0) None)] [] one_process))) =
   Inl (Error ''GUI update is stopping managed processes'')"
proof -
  have "pm_processes (stopAll 1 (one_process\<lparr>pm_startsBlocked := True\<rparr>)) = [(''a'', Some 7)]"
    using stop_run_fields [of 1 False "one_process\<lparr>pm_startsBlocked := True\<rparr>" "[''a'']"]
    by (simp add: stopAll_def one_process_def)
  then have "snd (stopAllAndWait 1 [(2, ''a'', ChildExit (Some 0) None)] [] one_process) = Inr ()"
    unfolding stopAllAndWait_def Let_def by (simp add: exit_fields)
  from stopAllAndWait_quiesces [OF this, of "''a''" "[]" 9 False "Some 8" opts_sample 0]
  show ?thesis by simp
qed

text \<open>A child that could not be spawned is never forgotten. After a start that got no pid, the
  instance counts as running: until an exit event, which the runtime need not send for such a child,
  every further start is refused as already running and the shutdown before a GUI update fails.\<close>

lemma failed_spawn_stays_registered:
  assumes "\<not> pm_startsBlocked st" and "\<not> isRunning i st" and "\<not> list_ex (exits i) es"
    and "\<not> list_ex (exits i) w1" and "\<not> list_ex (exits i) w2"
  shows "snd (start now win32 None i opts st) = Inl (Error ''Failed to get process PID'') \<and>
     snd (start t win32 pid i opts (foldl child_step (fst (start now win32 None i opts st)) es)) =
       Inl (Error (''Process for instance '' @ i @ '' is already running'')) \<and>
     snd (stopAllAndWait t w1 w2 (foldl child_step (fst (start now win32 None i opts st)) es)) \<noteq> Inr ()"
proof -
  let ?s = "fst (start now win32 None i opts st)"
  have s: "pm_processes ?s = AList.update i None (pm_processes st)" "\<not> pm_startsBlocked ?s"
    using assms(1,2) by (simp_all add: fst_start log_fields spawned_def emit_def)
  then have "isRunning i ?s" by (simp add: isRunning_def update_conv')
  then have run: "isRunning i (foldl child_step ?s es)" and nb: "\<not> pm_startsBlocked (foldl child_step ?s es)"
    using child_run_fields [of ?s es i] s assms(3) by simp_all
  have "isRunning i (fst (stopAllAndWait t w1 w2 (foldl child_step ?s es)))"
    using stopAllAndWait_fields run assms(4,5) by blast
  then have "snd (stopAllAndWait t w1 w2 (foldl child_step ?s es)) \<noteq> Inr ()"
    using stopAllAndWait_result not_running_empty by blast
  moreover have "snd (start now win32 None i opts st) = Inl (Error ''Failed to get process PID'')"
    using assms(1,2) unfolding start_def Let_def by (simp add: split_beta)
  ultimately show ?thesis using run nb by (simp add: start_def)
qed

end
