(* ===== verification/NetAddr.thy ===== *)
theory NetAddr
  imports JsValue
begin

text \<open>
  Address syntax the sources rely on: \<open>net.isIP\<close> of the runtime (dotted quads without leading zeros,
  IPv6 with one optional \<open>::\<close>, an embedded dotted quad and a zone), host names as the regular
  expressions of \<open>configManager.ts\<close> and \<open>index.ts\<close> describe them, and the normalisation of
  certificate domains.
\<close>

section \<open>\<open>isIP\<close>\<close>

definition v4_octet :: "string \<Rightarrow> bool" where
  "v4_octet s \<longleftrightarrow> all_digits s \<and> length s \<le> 3 \<and> (hd s = CHR ''0'' \<longrightarrow> length s = 1) \<and> dec_val s \<le> 255"

definition isIPv4 :: "string \<Rightarrow> bool" where
  "isIPv4 s \<longleftrightarrow> (let ps = split_char (CHR ''.'') s in length ps = 4 \<and> list_all v4_octet ps)"

definition v6_seg :: "string \<Rightarrow> bool" where
  "v6_seg s \<longleftrightarrow> s \<noteq> [] \<and> length s \<le> 4 \<and> list_all is_hex s"

text \<open>The groups of a colon-separated list; a dotted quad counts two and is allowed only at the end.\<close>

definition v6_groups :: "bool \<Rightarrow> string \<Rightarrow> nat option" where
  "v6_groups tail s =
     (if s = [] then Some 0
      else
        let ps = split_char (CHR '':'') s in
        if list_all v6_seg ps then Some (length ps)
        else if tail \<and> list_all v6_seg (butlast ps) \<and> isIPv4 (last ps) then Some (length ps + 1)
        else None)"

fun find_dcolon :: "string \<Rightarrow> (string \<times> string) option" where
  "find_dcolon (a # b # s) =
     (if a = CHR '':'' \<and> b = CHR '':'' then Some ([], s)
      else map_option (\<lambda>(l, r). (a # l, r)) (find_dcolon (b # s)))"
| "find_dcolon _ = None"

definition v6_body :: "string \<Rightarrow> bool" where
  "v6_body s =
     (case find_dcolon s of
        None \<Rightarrow> v6_groups True s = Some 8
      | Some (l, r) \<Rightarrow>
          (case (v6_groups False l, v6_groups True r) of
             (Some a, Some b) \<Rightarrow> a + b \<le> 7
           | _ \<Rightarrow> False))"

definition zone_char :: "char \<Rightarrow> bool" where
  "zone_char c \<longleftrightarrow> is_digit c \<or> (65 \<le> (of_char c :: nat) \<and> (of_char c :: nat) \<le> 90) \<or>
     (97 \<le> (of_char c :: nat) \<and> (of_char c :: nat) \<le> 122) \<or> c = CHR ''-'' \<or> c = CHR ''.'' \<or> c = CHR '':''"

definition isIPv6 :: "string \<Rightarrow> bool" where
  "isIPv6 s =
     (case split_char (CHR ''%'') s of
        [b] \<Rightarrow> v6_body b
      | [b, z] \<Rightarrow> v6_body b \<and> z \<noteq> [] \<and> list_all zone_char z
      | _ \<Rightarrow> False)"

definition isIP :: "string \<Rightarrow> nat" where
  "isIP s = (if isIPv4 s then 4 else if isIPv6 s then 6 else 0)"

section \<open>Host names\<close>

definition alnum_i :: "char \<Rightarrow> bool" where
  "alnum_i c \<longleftrightarrow> is_digit c \<or> (65 \<le> (of_char c :: nat) \<and> (of_char c :: nat) \<le> 90) \<or>
     (97 \<le> (of_char c :: nat) \<and> (of_char c :: nat) \<le> 122)"

text \<open>\<open>[a-z0-9](?:[a-z0-9-]{0,61}[a-z0-9])?\<close> without regard to case.\<close>

definition host_label :: "string \<Rightarrow> bool" where
  "host_label l \<longleftrightarrow> l \<noteq> [] \<and> length l \<le> 63 \<and> alnum_i (hd l) \<and> alnum_i (last l) \<and>
     list_all (\<lambda>c. alnum_i c \<or> c = CHR ''-'') l"

definition drop_final_dot :: "string \<Rightarrow> string" where
  "drop_final_dot s = (if s \<noteq> [] \<and> last s = CHR ''.'' then butlast s else s)"

text \<open>The host name pattern of \<open>httpMappings\<close>: dot-separated labels, one final dot allowed.\<close>

definition hostname_pattern :: "string \<Rightarrow> bool" where
  "hostname_pattern s \<longleftrightarrow> 1 \<le> length s \<and> length s \<le> 253 \<and>
     list_all host_label (split_char (CHR ''.'') (drop_final_dot s))"

text \<open>\<open>LETS_ENCRYPT_DOMAIN_PATTERN\<close>: at least two labels and no final dot.\<close>

definition LETS_ENCRYPT_DOMAIN_PATTERN :: "string \<Rightarrow> bool" where
  "LETS_ENCRYPT_DOMAIN_PATTERN s \<longleftrightarrow> 1 \<le> length s \<and> length s \<le> 253 \<and>
     (let ls = split_char (CHR ''.'') s in 2 \<le> length ls \<and> list_all host_label ls)"

section \<open>Certificate domains\<close>

definition normalizeLetsEncryptDomains :: "jsval \<Rightarrow> string list" where
  "normalizeLetsEncryptDomains v =
     (case v of
        JArr xs \<Rightarrow> nub (filter (\<lambda>d. d \<noteq> []) (map (\<lambda>d. drop_final_dot (toLowerCase (trim d)))
                     (concat (map (\<lambda>x. case x of JStr s \<Rightarrow> [s] | _ \<Rightarrow> []) xs))))
      | _ \<Rightarrow> [])"

fun check_domains :: "string list \<Rightarrow> unit res" where
  "check_domains [] = Inr ()"
| "check_domains (d # ds) =
     (if LETS_ENCRYPT_DOMAIN_PATTERN d then check_domains ds
      else Inl (Error (''Invalid Let's Encrypt domain: '' @ d)))"

definition validateLetsEncryptDomains :: "string list \<Rightarrow> unit res" where
  "validateLetsEncryptDomains ds =
     (if ds = [] then Inl (Error ''At least one Let's Encrypt domain is required'') else check_domains ds)"

section \<open>Printing and reading dotted quads\<close>

definition quad :: "nat \<Rightarrow> nat \<Rightarrow> nat \<Rightarrow> nat \<Rightarrow> string" where
  "quad a b c d = join_with ''.'' (map show_nat [a, b, c, d])"

lemma show_nat_no_char: "\<not> is_digit x \<Longrightarrow> x \<notin> set (show_nat n)"
  using all_digits_show_nat [of n] by (auto simp: all_digits_def list_all_iff)

lemma split_char_notin: "c \<notin> set s \<Longrightarrow> split_char c s = [s]"
  by (induction s) auto

lemma split_char_join_with:
  "xs \<noteq> [] \<Longrightarrow> \<forall>x \<in> set xs. c \<notin> set x \<Longrightarrow> split_char c (join_with [c] xs) = xs"
proof (induction "[c]" xs rule: join_with.induct)
  case (2 l)
  then show ?case by (simp add: split_char_notin)
next
  have cons: "c \<notin> set l \<Longrightarrow> split_char c (l @ c # s) = l # split_char c s" for l s by (induction l) auto
  case (3 l l' ls)
  then show ?case using cons [of l] by simp
qed simp

lemma show_nat_octet: "n \<le> 255 \<Longrightarrow> v4_octet (show_nat n)"
proof -
  assume n: "n \<le> 255"
  have "length (show_nat n) \<le> 3 \<and> (hd (show_nat n) = CHR ''0'' \<longrightarrow> length (show_nat n) = 1)"
  proof -
    consider "n < 10" | "10 \<le> n" "n < 100" | "100 \<le> n" by linarith
    then show ?thesis
    proof cases
      case 1
      then show ?thesis by (simp add: show_nat.simps [of n])
    next
      case 2
      then have "1 \<le> n div 10" "n div 10 < 10" by auto
      then show ?thesis using 2 by (simp add: show_nat.simps [of n] show_nat.simps [of "n div 10"] char_of_eq_iff take_bit_eq_mod)
    next
      case 3
      then have "1 \<le> n div 10 div 10" "n div 10 div 10 < 10" "10 \<le> n div 10" using n by auto
      then show ?thesis
        using 3 by (simp add: show_nat.simps [of n] show_nat.simps [of "n div 10"] show_nat.simps [of "n div 10 div 10"]
            char_of_eq_iff take_bit_eq_mod)
    qed
  qed
  then show ?thesis using n by (simp add: v4_octet_def all_digits_show_nat dec_val_show_nat)
qed

lemma split_quad: "split_char (CHR ''.'') (quad a b c d) = map show_nat [a, b, c, d]"
  unfolding quad_def using show_nat_no_char not_digit_chars by (intro split_char_join_with) auto

lemma quad_isIP: "a \<le> 255 \<Longrightarrow> b \<le> 255 \<Longrightarrow> c \<le> 255 \<Longrightarrow> d \<le> 255 \<Longrightarrow> isIP (quad a b c d) = 4"
proof -
  assume "a \<le> 255" "b \<le> 255" "c \<le> 255" "d \<le> 255"
  then show ?thesis by (simp add: isIP_def isIPv4_def split_quad show_nat_octet)
qed

end
