(* ===== verification/ConfigValidate.thy ===== *)
theory ConfigValidate
  imports NetAddr
begin

text \<open>
  Validation of a proxy configuration: \<open>FerrumGUI/src/ipBlockConfig.ts\<close> and \<open>validate\<close> of
  \<open>FerrumGUI/src/configManager.ts\<close>. The configuration is an arbitrary JSON or YAML value, since the
  request body is not checked before; a check yields the messages it pushes, or the TypeError that
  aborts the whole validation. The URL parser of the runtime is the argument \<open>url_protocol\<close>: the
  protocol of a well-formed URL, \<open>None\<close> where the constructor throws.
\<close>

section \<open>Collecting messages\<close>

type_synonym check = "string list res"

definition err_if :: "bool \<Rightarrow> string \<Rightarrow> check" where
  "err_if b msg = Inr (if b then [msg] else [])"

text \<open>Statements in order: the first exception wins, otherwise the messages are appended.\<close>

fun checks :: "check list \<Rightarrow> check" where
  "checks [] = Inr []"
| "checks (c # cs) = bindE c (\<lambda>a. bindE (checks cs) (\<lambda>b. Inr (a @ b)))"

text \<open>\<open>xs.forEach((x, index) => ...)\<close>\<close>

definition for_each :: "(nat \<Rightarrow> jsval \<Rightarrow> check) \<Rightarrow> jsval list \<Rightarrow> check" where
  "for_each f xs = checks (map (\<lambda>(i, x). f i x) (enumerate 0 xs))"

definition at_index :: "string \<Rightarrow> nat \<Rightarrow> string" where
  "at_index s i = s @ ''['' @ show_nat i @ '']''"

definition with_prop :: "jsval \<Rightarrow> string \<Rightarrow> (jsval \<Rightarrow> check) \<Rightarrow> check" where
  "with_prop v k f = bindE (js_prop v k) f"

text \<open>\<open>v?.trim()\<close> as a truth value: only a string has \<open>trim\<close>.\<close>

definition opt_trim_truthy :: "jsval \<Rightarrow> bool res" where
  "opt_trim_truthy v =
     (case v of
        JUndef \<Rightarrow> Inr False
      | JNull \<Rightarrow> Inr False
      | JStr s \<Rightarrow> Inr (trim s \<noteq> [])
      | _ \<Rightarrow> Inl TypeError)"

text \<open>\<open>xs.some(f)\<close>: stops at the first element the predicate accepts.\<close>

fun some_res :: "(jsval \<Rightarrow> bool res) \<Rightarrow> jsval list \<Rightarrow> bool res" where
  "some_res f [] = Inr False"
| "some_res f (x # xs) = bindE (f x) (\<lambda>b. if b then Inr True else some_res f xs)"

text \<open>\<open>v?.some(f)\<close> as a truth value\<close>

definition opt_some :: "(jsval \<Rightarrow> bool res) \<Rightarrow> jsval \<Rightarrow> bool res" where
  "opt_some f v =
     (case v of
        JUndef \<Rightarrow> Inr False
      | JNull \<Rightarrow> Inr False
      | JArr xs \<Rightarrow> some_res f xs
      | _ \<Rightarrow> Inl TypeError)"

text \<open>\<open>a === b\<close> for values read at two different places of a document: NaN is unequal to itself, and
  two objects are never the same one.\<close>

fun js_eq :: "jsval \<Rightarrow> jsval \<Rightarrow> bool" where
  "js_eq (JNum a) (JNum b) = (a = b \<and> a \<noteq> NaN)"
| "js_eq (JStr a) (JStr b) = (a = b)"
| "js_eq (JBool a) (JBool b) = (a = b)"
| "js_eq JUndef JUndef = True"
| "js_eq JNull JNull = True"
| "js_eq _ _ = False"

definition num_of :: "jsval \<Rightarrow> jsnum" where
  "num_of v = (case v of JNum n \<Rightarrow> n | _ \<Rightarrow> NaN)"

section \<open>\<open>validateIpBlockConfig\<close>\<close>

definition ipblock_url :: "(string \<Rightarrow> string option) \<Rightarrow> jsval \<Rightarrow> string \<Rightarrow> check" where
  "ipblock_url url_protocol config key =
     with_prop config key (\<lambda>v.
       err_if (v \<noteq> JUndef \<and>
         \<not> (case v of JStr s \<Rightarrow> (case url_protocol s of Some p \<Rightarrow> p \<in> set [''https:'', ''http:''] | None \<Rightarrow> False)
                    | _ \<Rightarrow> False))
         (''ipBlock.'' @ key @ '' must be an HTTP or HTTPS URL''))"

definition blocked_ip :: "nat \<Rightarrow> jsval \<Rightarrow> check" where
  "blocked_ip i entry =
     checks
       [if js_truthy entry
        then with_prop entry ''ip'' (\<lambda>ip. err_if
               (\<not> (case ip of JStr s \<Rightarrow> \<not> str_includes s ''%'' \<and> isIP (trim s) \<noteq> 0 | _ \<Rightarrow> False))
               (at_index ''ipBlock.blockedIps'' i @ ''.ip must be an IPv4 or IPv6 address''))
        else err_if True (at_index ''ipBlock.blockedIps'' i @ ''.ip must be an IPv4 or IPv6 address''),
        bindE (opt_prop entry ''reason'') (\<lambda>r.
          err_if (r \<noteq> JUndef \<and> r \<noteq> JNull \<and> \<not> is_str r)
            (at_index ''ipBlock.blockedIps'' i @ ''.reason must be a string''))]"

text \<open>The digits of the prefix length, trimmed for the test and converted by \<open>Number\<close> as written.\<close>

definition blocked_cidr :: "nat \<Rightarrow> jsval \<Rightarrow> check" where
  "blocked_cidr i cidr =
     (let parts = (case cidr of JStr s \<Rightarrow> split_char (CHR ''/'') (trim s) | _ \<Rightarrow> []);
          version = (if length parts = 2 \<and> \<not> str_includes (parts ! 0) ''%'' then isIP (trim (parts ! 0)) else 0);
          p1 = (if 1 < length parts then parts ! 1 else []) in
      err_if (version = 0 \<or> \<not> all_digits (trim p1) \<or>
              js_less (Fin (if version = 4 then 32 else 128)) (str_number p1))
        (at_index ''ipBlock.blockedCidrs'' i @ '' must be a valid IPv4 or IPv6 CIDR''))"

definition validateIpBlockConfig :: "(string \<Rightarrow> string option) \<Rightarrow> jsval \<Rightarrow> check" where
  "validateIpBlockConfig url_protocol config =
     (if \<not> js_truthy config \<or> \<not> is_objty config \<or> is_arr config then Inr [''ipBlock must be an object'']
      else checks (
        map (\<lambda>key. with_prop config key (\<lambda>v. err_if (v \<noteq> JUndef \<and> \<not> is_bool v) (''ipBlock.'' @ key @ '' must be boolean'')))
          [''enabled'', ''blockVpn'', ''blockDatacenter''] @
        map (ipblock_url url_protocol config) [''vpnFeedUrl'', ''datacenterFeedUrl''] @
        [with_prop config ''feedRefreshIntervalSeconds'' (\<lambda>v.
           err_if (v \<noteq> JUndef \<and> (\<not> is_safe_integer v \<or> js_less (num_of v) (Fin 0)))
             ''ipBlock.feedRefreshIntervalSeconds must be a non-negative integer (0 = startup only)''),
         with_prop config ''blockedIps'' (\<lambda>v.
           case v of
             JUndef \<Rightarrow> Inr []
           | JArr xs \<Rightarrow> for_each blocked_ip xs
           | _ \<Rightarrow> Inr [''ipBlock.blockedIps must be an array'']),
         with_prop config ''blockedCidrs'' (\<lambda>v.
           case v of
             JUndef \<Rightarrow> Inr []
           | JArr xs \<Rightarrow> for_each blocked_cidr xs
           | _ \<Rightarrow> Inr [''ipBlock.blockedCidrs must be an array''])]))"

section \<open>Ports and limits\<close>

text \<open>\<open>typeof v !== 'number' || v < 1 || v > 65535\<close>\<close>

definition bad_port :: "jsval \<Rightarrow> bool" where
  "bad_port v \<longleftrightarrow> \<not> is_num v \<or> js_less (num_of v) (Fin 1) \<or> js_less (Fin 65535) (num_of v)"

definition port_field :: "jsval \<Rightarrow> string \<Rightarrow> string \<Rightarrow> check" where
  "port_field v key msg = with_prop v key (\<lambda>p. err_if (p \<noteq> JUndef \<and> bad_port p) msg)"

definition validateTargetPorts :: "jsval \<Rightarrow> string \<Rightarrow> check" where
  "validateTargetPorts target path =
     (if \<not> js_truthy target then Inr []
      else checks
        [port_field target ''tcp'' (path @ ''.tcp must be a valid port number''),
         port_field target ''udp'' (path @ ''.udp must be a valid port number'')])"

definition validatePositiveLimit :: "jsval \<Rightarrow> string \<Rightarrow> check" where
  "validatePositiveLimit v path =
     err_if (v \<noteq> JUndef \<and> (\<not> is_integer v \<or> js_less (js_number v) (Fin 1))) (path @ '' must be a positive integer'')"

definition validatePort :: "jsval \<Rightarrow> string \<Rightarrow> check" where
  "validatePort v path =
     err_if (v \<noteq> JUndef \<and> v \<noteq> JNull \<and> (bad_port v \<or> \<not> is_integer v))
       (path @ '' must be a valid port number (1-65535)'')"

definition limit_fields :: "jsval \<Rightarrow> string \<Rightarrow> check" where
  "limit_fields grp path =
     checks (map (\<lambda>k. with_prop grp k (\<lambda>v. validatePositiveLimit v (path @ ''.'' @ k)))
       [''maxBytesPerSecond'', ''idleTimeoutSeconds'', ''udpSessionTimeoutSeconds''])"

section \<open>The shared service\<close>

definition check_control_bind :: "jsval \<Rightarrow> check" where
  "check_control_bind shared =
     with_prop shared ''enabled'' (\<lambda>en.
       if \<not> js_truthy en then Inr []
       else with_prop shared ''controlBind'' (\<lambda>cb.
         if \<not> js_truthy cb then Inr []
         else case cb of
                JStr s \<Rightarrow>
                  (let ps = split_char (CHR '':'') s in
                   err_if (length ps \<noteq> 2 \<or> str_number (ps ! 1) = NaN)
                     ''sharedService.controlBind must be in format host:port'')
              | _ \<Rightarrow> Inl TypeError))"

definition check_port_range :: "jsval \<Rightarrow> check" where
  "check_port_range shared =
     with_prop shared ''portRange'' (\<lambda>range.
       if \<not> js_truthy range then Inr []
       else with_prop range ''start'' (\<lambda>st. with_prop range ''end'' (\<lambda>en.
         checks
           [validatePort st ''sharedService.portRange.start'',
            validatePort en ''sharedService.portRange.end'',
            err_if (is_num st \<and> is_num en \<and> js_less (num_of en) (num_of st))
              ''sharedService.portRange.start must be less than or equal to end''])))"

definition check_group :: "jsval \<Rightarrow> string \<Rightarrow> check" where
  "check_group shared name =
     with_prop shared name (\<lambda>grp.
       if \<not> js_truthy grp then Inr [] else limit_fields grp (''sharedService.'' @ name))"

definition nonempty_str :: "jsval \<Rightarrow> bool" where
  "nonempty_str v = (case v of JStr s \<Rightarrow> s \<noteq> [] | _ \<Rightarrow> False)"

definition check_token :: "nat \<Rightarrow> jsval \<Rightarrow> check" where
  "check_token i token =
     (let loc = at_index ''sharedService.tokens'' i in
      with_prop token ''token'' (\<lambda>tok. with_prop token ''tokenHash'' (\<lambda>hash.
      with_prop token ''scopes'' (\<lambda>scopes. with_prop token ''fixedPort'' (\<lambda>port.
      with_prop token ''priority'' (\<lambda>prio. with_prop token ''limits'' (\<lambda>limits.
        checks
          [err_if (\<not> nonempty_str tok \<and> \<not> nonempty_str hash) (loc @ '' must have token or tokenHash''),
           err_if (scopes \<noteq> JUndef \<and> \<not> is_arr scopes) (loc @ ''.scopes must be an array''),
           validatePort port (loc @ ''.fixedPort''),
           err_if (prio \<noteq> JUndef \<and> (\<not> is_integer prio \<or> js_less (js_number prio) (Fin 0)))
             (loc @ ''.priority must be a non-negative integer''),
           if js_truthy limits then limit_fields limits (loc @ ''.limits'') else Inr []])))))))"

definition check_shared :: "jsval \<Rightarrow> check" where
  "check_shared shared =
     (if \<not> js_truthy shared then Inr []
      else checks
        [check_control_bind shared,
         check_port_range shared,
         check_group shared ''defaults'',
         check_group shared ''maximums'',
         with_prop shared ''queue'' (\<lambda>q. if js_truthy q
           then with_prop q ''maxSize'' (\<lambda>v. validatePositiveLimit v ''sharedService.queue.maxSize'') else Inr []),
         with_prop shared ''tokens'' (\<lambda>ts. case ts of
             JUndef \<Rightarrow> Inr []
           | JArr xs \<Rightarrow> for_each check_token xs
           | _ \<Rightarrow> Inr [''sharedService.tokens must be an array''])])"

section \<open>Listeners\<close>

definition check_nethernet :: "jsval \<Rightarrow> string \<Rightarrow> check" where
  "check_nethernet l loc =
     with_prop l ''nethernetDiagnostics'' (\<lambda>diag. with_prop l ''nethernetAdvertiseHost'' (\<lambda>host.
     with_prop l ''nethernetAdvertisePort'' (\<lambda>port. with_prop l ''bedrockTransport'' (\<lambda>tr.
     with_prop l ''tcp'' (\<lambda>tcp. with_prop l ''udp'' (\<lambda>udp.
       checks
         [err_if (diag \<noteq> JUndef \<and> \<not> is_bool diag) (loc @ ''.nethernetDiagnostics must be boolean''),
          err_if (host \<noteq> JUndef \<and>
            \<not> (case host of JStr s \<Rightarrow> isIP s \<noteq> 0 \<and> s \<notin> set [''0.0.0.0'', ''::''] | _ \<Rightarrow> False))
            (loc @ ''.nethernetAdvertiseHost must be a usable literal IP address''),
          err_if (host \<noteq> JUndef \<and> (tr \<noteq> JStr ''nethernet'' \<or> \<not> js_truthy tcp \<or> \<not> js_truthy udp))
            (loc @ '': NetherNet advertisement requires NetherNet, TCP and UDP''),
          err_if (port \<noteq> JUndef \<and> (\<not> js_truthy host \<or> \<not> is_integer port \<or> bad_port port))
            (loc @ ''.nethernetAdvertisePort requires a public IP and a valid port''),
          err_if (tr \<noteq> JUndef \<and> tr \<notin> set [JStr ''raknet'', JStr ''nethernet''])
            (loc @ ''.bedrockTransport must be raknet or nethernet''),
          port_field l ''tcp'' (loc @ ''.tcp must be a valid port number''),
          port_field l ''udp'' (loc @ ''.udp must be a valid port number'')]))))))"

definition str_field :: "jsval \<Rightarrow> string \<Rightarrow> string \<Rightarrow> check" where
  "str_field v key loc = with_prop v key (\<lambda>x. err_if (x \<noteq> JUndef \<and> \<not> is_str x) (loc @ ''.'' @ key @ '' must be a string''))"

text \<open>A provisioned listener needs a domain.\<close>

definition has_domain :: "jsval \<Rightarrow> bool res" where
  "has_domain https =
     bindE (js_prop https ''letsEncryptDomain'') (\<lambda>d. bindE (opt_trim_truthy d) (\<lambda>b.
       if b then Inr True
       else bindE (js_prop https ''letsEncryptDomains'') (\<lambda>ds.
         opt_some (\<lambda>x. case x of JStr s \<Rightarrow> Inr (trim s \<noteq> []) | _ \<Rightarrow> Inl TypeError) ds)))"

definition check_http3 :: "jsval \<Rightarrow> jsval \<Rightarrow> string \<Rightarrow> check" where
  "check_http3 l https loc =
     with_prop https ''http3'' (\<lambda>h3. checks
       [err_if (h3 \<noteq> JUndef \<and> \<not> is_bool h3) (loc @ ''.https.http3 must be a boolean''),
        if \<not> js_truthy h3 then Inr []
        else with_prop https ''enabled'' (\<lambda>en. with_prop l ''tcp'' (\<lambda>tcp. with_prop l ''udp'' (\<lambda>udp.
          let msg = loc @ ''.https.http3 requires HTTPS, a TCP port, a free matching UDP port and hostname routes'' in
          if \<not> js_truthy en \<or> \<not> js_truthy tcp \<or> js_eq udp tcp then Inr [msg]
          else with_prop l ''httpMappings'' (\<lambda>ms.
            bindE (opt_some (\<lambda>mp. bindE (js_prop mp ''hostname'') (\<lambda>h. Inr (js_truthy h))) ms)
              (\<lambda>b. err_if (\<not> b) msg)))))])"

definition check_https :: "jsval \<Rightarrow> string \<Rightarrow> check" where
  "check_https l loc =
     with_prop l ''https'' (\<lambda>https.
       if https = JUndef then Inr []
       else if \<not> is_objty https \<or> https = JNull then Inr [loc @ ''.https must be an object'']
       else checks
         [str_field https ''letsEncryptDomain'' (loc @ ''.https''),
          with_prop https ''letsEncryptDomains'' (\<lambda>ds.
            err_if (ds \<noteq> JUndef \<and> \<not> (case ds of JArr xs \<Rightarrow> list_all is_str xs | _ \<Rightarrow> False))
              (loc @ ''.https.letsEncryptDomains must be a string array'')),
          str_field https ''letsEncryptEmail'' (loc @ ''.https''),
          with_prop https ''autoProvision'' (\<lambda>auto.
            if \<not> js_truthy auto then Inr []
            else bindE (has_domain https) (\<lambda>b.
              err_if (\<not> b) (loc @ ''.https requires at least one domain when autoProvision is enabled''))),
          check_http3 l https loc,
          str_field https ''certPath'' (loc @ ''.https''),
          str_field https ''keyPath'' (loc @ ''.https'')])"

text \<open>\<open>mapping.targets?.length ? mapping.targets : mapping.target ? [mapping.target] : []\<close>\<close>

definition mapping_targets :: "jsval \<Rightarrow> jsval res" where
  "mapping_targets mp =
     bindE (js_prop mp ''targets'') (\<lambda>ts. bindE (opt_prop ts ''length'') (\<lambda>len.
       if js_truthy len then Inr ts
       else bindE (js_prop mp ''target'') (\<lambda>t. Inr (if js_truthy t then JArr [t] else JArr []))))"

text \<open>The chosen targets have hosts; what is not an array has no \<open>some\<close> method.\<close>

definition check_mapping_targets :: "jsval \<Rightarrow> string \<Rightarrow> check" where
  "check_mapping_targets mp loc =
     bindE (mapping_targets mp) (\<lambda>ts.
       case ts of
         JArr xs \<Rightarrow>
           bindE (if xs = [] then Inr True
                  else some_res (\<lambda>t. bindE (js_prop t ''host'') (\<lambda>h. bindE (opt_trim_truthy h) (\<lambda>b. Inr (\<not> b)))) xs)
             (\<lambda>bad. checks (err_if bad (loc @ '' requires a target'') # map (\<lambda>t. validateTargetPorts t loc) xs))
       | _ \<Rightarrow> Inl TypeError)"

definition check_mapping :: "string \<Rightarrow> nat \<Rightarrow> jsval \<Rightarrow> check" where
  "check_mapping la i mp =
     (let loc = at_index (la @ ''.httpMappings'') i in
      checks
        [with_prop mp ''path'' (\<lambda>p.
           err_if (\<not> (case p of JStr s \<Rightarrow> startsWith s ''/'' \<and> CHR 0x0A \<notin> set s \<and> CHR 0x0D \<notin> set s | _ \<Rightarrow> False))
             (loc @ ''.path must start with /'')),
         with_prop mp ''hostname'' (\<lambda>h.
           err_if (h \<noteq> JUndef \<and> \<not> (case h of JStr s \<Rightarrow> trim s = [] \<or> hostname_pattern (trim s) | _ \<Rightarrow> False))
             (loc @ ''.hostname must be a hostname without a scheme, port or wildcard'')),
         check_mapping_targets mp loc])"

definition check_listener :: "nat \<Rightarrow> jsval \<Rightarrow> check" where
  "check_listener i l =
     (let loc = at_index ''listeners'' i in
      checks
        [check_nethernet l loc,
         check_https l loc,
         with_prop l ''httpMappings'' (\<lambda>ms. case ms of
             JUndef \<Rightarrow> Inr []
           | JArr xs \<Rightarrow> for_each (check_mapping loc) xs
           | _ \<Rightarrow> Inr [loc @ ''.httpMappings must be an array'']),
         with_prop l ''target'' (\<lambda>t. validateTargetPorts t (loc @ ''.target'')),
         with_prop l ''targets'' (\<lambda>ts. case ts of
             JUndef \<Rightarrow> Inr []
           | JArr xs \<Rightarrow> for_each (\<lambda>j t. validateTargetPorts t (at_index (loc @ ''.targets'') j)) xs
           | _ \<Rightarrow> Inr [loc @ ''.targets must be an array''])])"

definition validate :: "(string \<Rightarrow> string option) \<Rightarrow> jsval \<Rightarrow> check" where
  "validate url_protocol config =
     checks
       [with_prop config ''ipBlock'' (\<lambda>b. if b = JUndef then Inr [] else validateIpBlockConfig url_protocol b),
        with_prop config ''endpoint'' (\<lambda>p. err_if (p \<noteq> JUndef \<and> bad_port p)
          ''endpoint must be a valid port number (1-65535)''),
        with_prop config ''sharedService'' check_shared,
        with_prop config ''listeners'' (\<lambda>ls.
          if \<not> js_truthy ls then Inr []
          else case ls of
                 JArr xs \<Rightarrow> for_each check_listener xs
               | _ \<Rightarrow> Inr [''listeners must be an array''])]"

definition valid :: "(string \<Rightarrow> string option) \<Rightarrow> jsval \<Rightarrow> bool" where
  "valid url_protocol config \<longleftrightarrow> validate url_protocol config = Inr []"

section \<open>What an accepted configuration guarantees\<close>

lemma err_if_clean [simp]: "err_if b m = Inr [] \<longleftrightarrow> \<not> b"
  by (simp add: err_if_def)

lemma checks_clean: "checks cs = Inr [] \<longleftrightarrow> (\<forall>c \<in> set cs. c = Inr [])"
  by (induction cs) (auto simp: bindE_eq_Inr)

declare checks.simps [simp del]

lemma for_each_clean: "for_each f xs = Inr [] \<longleftrightarrow> (\<forall>i < length xs. f i (xs ! i) = Inr [])"
proof -
  have "for_each f xs = Inr [] \<longleftrightarrow> (\<forall>p \<in> set (enumerate 0 xs). f (fst p) (snd p) = Inr [])"
    by (simp add: for_each_def checks_clean split_beta)
  also have "\<dots> \<longleftrightarrow> (\<forall>i < length xs. f i (xs ! i) = Inr [])"
  proof -
    have "set (enumerate 0 xs) = (\<lambda>i. (i, xs ! i)) ` {..<length xs}"
      by (auto simp: in_set_enumerate_eq image_iff)
    then show ?thesis by auto
  qed
  finally show ?thesis .
qed

lemma with_prop_clean: "with_prop v k f = Inr [] \<longleftrightarrow> (\<exists>x. js_prop v k = Inr x \<and> f x = Inr [])"
  by (simp add: with_prop_def bindE_eq_Inr)

lemmas clean = checks_clean for_each_clean with_prop_clean

definition port_ok :: "jsval \<Rightarrow> bool" where
  "port_ok v \<longleftrightarrow> v = JUndef \<or> (\<exists>n. v = JNum n \<and> \<not> js_less n (Fin 1) \<and> \<not> js_less (Fin 65535) n)"

definition ports_ok :: "jsval \<Rightarrow> bool" where
  "ports_ok v \<longleftrightarrow> (\<forall>k \<in> set [''tcp'', ''udp'']. \<forall>p. js_prop v k = Inr p \<longrightarrow> port_ok p)"

lemma bad_port_iff: "\<not> bad_port v \<longleftrightarrow> (\<exists>n. v = JNum n \<and> \<not> js_less n (Fin 1) \<and> \<not> js_less (Fin 65535) n)"
  by (cases v) (auto simp: bad_port_def num_of_def)

lemma port_field_clean: "port_field v k m = Inr [] \<Longrightarrow> js_prop v k = Inr p \<Longrightarrow> port_ok p"
  by (auto simp: port_field_def clean port_ok_def bad_port_iff)

lemma target_ports_clean: "validateTargetPorts t path = Inr [] \<Longrightarrow> js_truthy t \<Longrightarrow> ports_ok t"
  by (auto simp: validateTargetPorts_def clean ports_ok_def dest: port_field_clean)

lemma nethernet_clean: "check_nethernet l loc = Inr [] \<Longrightarrow> ports_ok l"
  by (auto simp: check_nethernet_def clean ports_ok_def dest: port_field_clean)

text \<open>\<open>typeof v === 'string' && P(v)\<close>\<close>

lemma str_case: "(case v of JStr s \<Rightarrow> P s | _ \<Rightarrow> False) \<longleftrightarrow> (\<exists>s. v = JStr s \<and> P s)"
  by (cases v) auto

lemma arr_case: "(case v of JArr xs \<Rightarrow> f xs | _ \<Rightarrow> Inl e) = Inr y \<longleftrightarrow> (\<exists>xs. v = JArr xs \<and> f xs = Inr y)"
  by (cases v) auto

definition mapping_ok :: "jsval \<Rightarrow> bool" where
  "mapping_ok mp \<longleftrightarrow>
     (\<exists>s. js_prop mp ''path'' = Inr (JStr s) \<and> prefix ''/'' s \<and> CHR 0x0A \<notin> set s \<and> CHR 0x0D \<notin> set s) \<and>
     (\<exists>xs. mapping_targets mp = Inr (JArr xs) \<and> xs \<noteq> [] \<and>
        (\<forall>t \<in> set xs. \<exists>h. js_prop t ''host'' = Inr (JStr h) \<and> trim h \<noteq> []) \<and> (\<forall>t \<in> set xs. js_truthy t \<longrightarrow> ports_ok t))"

lemma some_res_False: "some_res f xs = Inr False \<longleftrightarrow> (\<forall>x \<in> set xs. f x = Inr False)"
  by (induction xs) (auto simp: bindE_eq_Inr split: if_splits)

lemma opt_trim_truthy_True: "opt_trim_truthy v = Inr True \<longleftrightarrow> (\<exists>s. v = JStr s \<and> trim s \<noteq> [])"
  by (cases v) (auto simp: opt_trim_truthy_def)

lemma mapping_clean:
  assumes "check_mapping la i mp = Inr []"
  shows "mapping_ok mp"
proof -
  let ?at = "at_index (la @ ''.httpMappings'') i"
  have p: "\<exists>s. js_prop mp ''path'' = Inr (JStr s) \<and> prefix ''/'' s \<and> CHR 0x0A \<notin> set s \<and> CHR 0x0D \<notin> set s"
    using assms unfolding check_mapping_def Let_def by (auto simp: clean startsWith_def str_case)
  have "check_mapping_targets mp ?at = Inr []"
    using assms by (auto simp: check_mapping_def Let_def clean)
  then obtain xs where xs: "mapping_targets mp = Inr (JArr xs)" "xs \<noteq> []"
      "some_res (\<lambda>t. bindE (js_prop t ''host'') (\<lambda>h. bindE (opt_trim_truthy h) (\<lambda>b. Inr (\<not> b)))) xs = Inr False"
      "\<forall>t \<in> set xs. validateTargetPorts t ?at = Inr []"
    by (auto simp: check_mapping_targets_def bindE_eq_Inr clean arr_case split: if_splits)
  have "\<exists>h. js_prop t ''host'' = Inr (JStr h) \<and> trim h \<noteq> []" if "t \<in> set xs" for t
    using xs(3) that by (auto simp: some_res_False bindE_eq_Inr opt_trim_truthy_True)
  then show ?thesis using p xs(1,2,4) target_ports_clean by (auto simp: mapping_ok_def)
qed

text \<open>C27: What a listener of an accepted configuration guarantees: its own ports and those of all its
  targets are absent or numbers not outside 1 to 65535, and every HTTP route has a single-line path
  starting with a slash and at least one target, each with a non-blank host and such ports.\<close>

theorem validate_listener_sound:
  assumes "valid u config" and "js_prop config ''listeners'' = Inr (JArr ls)" and "l \<in> set ls"
  shows "ports_ok l \<and> (\<forall>t. js_prop l ''target'' = Inr t \<and> js_truthy t \<longrightarrow> ports_ok t) \<and>
     (\<forall>ts t. js_prop l ''targets'' = Inr (JArr ts) \<and> t \<in> set ts \<and> js_truthy t \<longrightarrow> ports_ok t) \<and>
     (\<forall>ms mp. js_prop l ''httpMappings'' = Inr (JArr ms) \<and> mp \<in> set ms \<longrightarrow> mapping_ok mp)"
proof -
  have "for_each check_listener ls = Inr []"
    using assms(1,2) by (auto simp: valid_def validate_def clean split: if_splits)
  then obtain i where cl: "check_listener i l = Inr []"
    using assms(3) by (auto simp: for_each_clean in_set_conv_nth)
  let ?at = "at_index ''listeners'' i"
  note parts = cl [unfolded check_listener_def Let_def checks_clean, simplified]
  have "ports_ok l" using parts nethernet_clean by blast
  moreover have "ports_ok t" if "js_prop l ''target'' = Inr t" "js_truthy t" for t
    using parts that target_ports_clean by (auto simp: with_prop_clean)
  moreover have "ports_ok t" if "js_prop l ''targets'' = Inr (JArr ts)" "t \<in> set ts" "js_truthy t" for ts t
    using parts that target_ports_clean by (auto simp: with_prop_clean for_each_clean in_set_conv_nth)
  moreover have "mapping_ok mp" if "js_prop l ''httpMappings'' = Inr (JArr ms)" "mp \<in> set ms" for ms mp
    using parts that mapping_clean by (auto simp: with_prop_clean for_each_clean in_set_conv_nth)
  ultimately show ?thesis by blast
qed

definition sample_config :: jsval where
  "sample_config = JObj [(''listeners'', JArr [JObj [(''tcp'', JNum (Fin 443)),
     (''httpMappings'', JArr [JObj [(''path'', JStr ''/''), (''target'', JObj [(''host'', JStr ''h''), (''tcp'', JNum (Fin 80))])]])]])]"

lemma sample_config_valid: "valid (\<lambda>_. None) sample_config"
  by code_simp

theorem validate_listener_sound_witness:
  "valid (\<lambda>_. None) sample_config \<and>
   mapping_ok (JObj [(''path'', JStr ''/''), (''target'', JObj [(''host'', JStr ''h''), (''tcp'', JNum (Fin 80))])])"
  using validate_listener_sound [OF sample_config_valid, of "[JObj [(''tcp'', JNum (Fin 443)),
     (''httpMappings'', JArr [JObj [(''path'', JStr ''/''), (''target'', JObj [(''host'', JStr ''h''), (''tcp'', JNum (Fin 80))])]])]]"
     "JObj [(''tcp'', JNum (Fin 443)),
     (''httpMappings'', JArr [JObj [(''path'', JStr ''/''), (''target'', JObj [(''host'', JStr ''h''), (''tcp'', JNum (Fin 80))])]])]"]
    sample_config_valid
  by (simp add: sample_config_def own_def)

text \<open>Ports that must also be integers.\<close>

definition int_port :: "jsval \<Rightarrow> bool" where
  "int_port v \<longleftrightarrow> v = JUndef \<or> v = JNull \<or> (\<exists>k. v = JNum (Fin (of_int k)) \<and> 1 \<le> k \<and> k \<le> 65535)"

lemma validatePort_clean: "validatePort v path = Inr [] \<longleftrightarrow> int_port v"
proof (cases v)
  case (JNum n)
  then show ?thesis
  proof (cases n)
    case (Fin q)
    have "rat_is_int q \<and> 1 \<le> q \<and> q \<le> 65535 \<longleftrightarrow> (\<exists>k. q = of_int k \<and> 1 \<le> k \<and> k \<le> 65535)"
      unfolding rat_is_int_iff
      by (metis of_int_1 of_int_le_iff of_int_numeral)
    then show ?thesis
      using JNum Fin by (auto simp: validatePort_def int_port_def bad_port_def num_of_def is_integer_def not_less)
  qed (auto simp: validatePort_def int_port_def bad_port_def is_integer_def num_of_def)
qed (auto simp: validatePort_def int_port_def bad_port_def)

text \<open>C32: What the shared service of an accepted configuration guarantees: the ends of the port range
  are absent, null or whole ports, in order when both are numbers; every token has a non-empty token
  or hash, and a whole fixed port if it has one.\<close>

theorem validate_shared_sound:
  assumes "valid u config" and "js_prop config ''sharedService'' = Inr shared" and "js_truthy shared"
  shows "(\<forall>range st en. js_prop shared ''portRange'' = Inr range \<and> js_truthy range \<and>
            js_prop range ''start'' = Inr st \<and> js_prop range ''end'' = Inr en \<longrightarrow>
          int_port st \<and> int_port en \<and> (\<forall>a b. st = JNum (Fin a) \<and> en = JNum (Fin b) \<longrightarrow> a \<le> b)) \<and>
     (\<forall>ts t. js_prop shared ''tokens'' = Inr (JArr ts) \<and> t \<in> set ts \<longrightarrow>
        (\<exists>k s. k \<in> set [''token'', ''tokenHash''] \<and> js_prop t k = Inr (JStr s) \<and> s \<noteq> []) \<and>
        (\<forall>p. js_prop t ''fixedPort'' = Inr p \<longrightarrow> int_port p))"
proof -
  have "check_shared shared = Inr []"
    using assms(1,2) by (auto simp: valid_def validate_def clean)
  then have range: "check_port_range shared = Inr []" and toks: "with_prop shared ''tokens'' (\<lambda>ts. case ts of
      JUndef \<Rightarrow> Inr [] | JArr xs \<Rightarrow> for_each check_token xs | _ \<Rightarrow> Inr [''sharedService.tokens must be an array'']) = Inr []"
    using assms(3) by (simp_all add: check_shared_def checks_clean)
  have tok: "(\<exists>k s. k \<in> set [''token'', ''tokenHash''] \<and> js_prop t k = Inr (JStr s) \<and> s \<noteq> []) \<and>
      (\<forall>p. js_prop t ''fixedPort'' = Inr p \<longrightarrow> int_port p)" if "check_token i t = Inr []" for i t
    using that unfolding check_token_def Let_def nonempty_str_def str_case
    by (auto simp: clean validatePort_clean)
  have "\<exists>i. check_token i t = Inr []" if "js_prop shared ''tokens'' = Inr (JArr ts)" "t \<in> set ts" for ts t
    using toks that by (auto simp: with_prop_clean for_each_clean in_set_conv_nth)
  moreover have "int_port st \<and> int_port en \<and> (\<forall>a b. st = JNum (Fin a) \<and> en = JNum (Fin b) \<longrightarrow> a \<le> b)"
    if "js_prop shared ''portRange'' = Inr rg" "js_truthy rg" "js_prop rg ''start'' = Inr st" "js_prop rg ''end'' = Inr en"
    for rg st en
    using range that unfolding check_port_range_def
    by (auto simp: clean validatePort_clean num_of_def not_less)
  ultimately show ?thesis using tok by blast
qed

definition shared_config :: jsval where
  "shared_config = JObj [(''sharedService'', JObj [(''portRange'', JObj [(''start'', JNum (Fin 100)), (''end'', JNum (Fin 200))]),
     (''tokens'', JArr [JObj [(''tokenHash'', JStr ''abc''), (''fixedPort'', JNum (Fin 150))]])])]"

lemma shared_config_valid: "valid (\<lambda>_. None) shared_config"
  by code_simp

theorem validate_shared_sound_witness:
  "valid (\<lambda>_. None) shared_config \<and> int_port (JNum (Fin 150))"
  using validate_shared_sound [OF shared_config_valid, of "JObj [(''portRange'', JObj [(''start'', JNum (Fin 100)), (''end'', JNum (Fin 200))]),
     (''tokens'', JArr [JObj [(''tokenHash'', JStr ''abc''), (''fixedPort'', JNum (Fin 150))]])]"] shared_config_valid
  by (simp add: shared_config_def own_def)

text \<open>The check of the endpoint and of listener and target ports asks for a number in the range only:
  a fractional port such as 1.5 is accepted there, while the ports of the shared service must be
  whole.\<close>

lemma fractional_port_accepted:
  "valid u (JObj [(''endpoint'', JNum (Fin (3 / 2))), (''listeners'', JArr [JObj [(''tcp'', JNum (Fin (3 / 2)))]])]) \<and>
   validatePort (JNum (Fin (3 / 2))) path \<noteq> Inr []"
proof -
  have "\<not> bad_port (JNum (Fin (3 / 2)))" "\<not> rat_is_int (3 / 2)"
    by (simp_all add: bad_port_def num_of_def rat_is_int_def floor_divide_of_int_eq [of 3 2, simplified])
  then have "check_listener 0 (JObj [(''tcp'', JNum (Fin (3 / 2)))]) = Inr []" "validatePort (JNum (Fin (3 / 2))) path \<noteq> Inr []"
    by (simp_all add: check_listener_def check_nethernet_def check_https_def port_field_def clean own_def Let_def
        validateTargetPorts_def validatePort_def is_integer_def)
  then show ?thesis
    using \<open>\<not> bad_port (JNum (Fin (3 / 2)))\<close>
    by (simp add: valid_def validate_def check_shared_def clean own_def)
qed

section \<open>Blocked networks\<close>

lemma digits_ends:
  "all_digits s \<Longrightarrow> \<not> is_ws (hd s) \<and> \<not> is_ws (last s)"
  using hd_in_set [of s] last_in_set [of s] by (auto simp: all_digits_def list_all_iff digit_not_ws)

text \<open>A printed IPv4 network is accepted exactly when its prefix length is at most 32.\<close>

lemma ipv4_cidr_accepted_iff:
  assumes "a \<le> 255" and "b \<le> 255" and "c \<le> 255" and "d \<le> 255"
  shows "blocked_cidr i (JStr (quad a b c d @ ''/'' @ show_nat n)) = Inr [] \<longleftrightarrow> n \<le> 32"
proof -
  let ?q = "quad a b c d"
  have q: "?q = show_nat a @ ''.'' @ show_nat b @ ''.'' @ show_nat c @ ''.'' @ show_nat d" by (simp add: quad_def)
  have dig: "all_digits (show_nat m)" for m by (rule all_digits_show_nat)
  then have ne: "show_nat m \<noteq> []" for m by (metis all_digits_def)
  have tq: "trim ?q = ?q"
    using digits_ends [OF dig [of a]] digits_ends [OF dig [of d]] ne by (intro trim_id) (simp add: q)
  have t: "trim (?q @ ''/'' @ show_nat n) = ?q @ ''/'' @ show_nat n"
    using digits_ends [OF dig [of a]] digits_ends [OF dig [of n]] ne by (intro trim_id) (simp add: q)
  have nd: "\<not> is_digit (CHR ''/'')" "\<not> is_digit (CHR ''%'')" by code_simp+
  have "split_char (CHR ''/'') (join_with ''/'' [?q, show_nat n]) = [?q, show_nat n]"
    using show_nat_no_char [OF nd(1)] by (intro split_char_join_with) (auto simp: q)
  then have sp: "split_char (CHR ''/'') (?q @ ''/'' @ show_nat n) = [?q, show_nat n]" by simp
  have "\<not> str_includes ?q ''%''"
    using show_nat_no_char [OF nd(2)] by (auto simp: str_includes_def q dest: set_mono_sublist)
  moreover have "isIP ?q = 4" using assms by (rule quad_isIP)
  moreover have "trim (show_nat n) = show_nat n" using dig by (simp add: all_digits_def digits_trim)
  moreover have "js_less (Fin 32) (Fin (of_nat n)) \<longleftrightarrow> \<not> n \<le> 32"
    by (metis js_less.simps(1) not_le of_nat_less_iff of_nat_numeral)
  ultimately show ?thesis using t sp tq dig by (simp add: blocked_cidr_def Let_def)
qed

end
