(* ===== verification/ConfigManager.thy ===== *)
theory ConfigManager
  imports ConfigValidate
begin

text \<open>
  Reading, cleaning, writing and watching configurations: \<open>FerrumGUI/src/configManager.ts\<close>. The
  YAML text of a file is the value it encodes. An object literal that spreads an object and
  overrides some of its fields is a list of field rules: the field, when it is overridden, and its
  new value computed from the old one. Objects are changed in a copy; \<open>portRange\<close>, which the
  source changes in place, is the same value afterwards.
\<close>

section \<open>Field rules\<close>

type_synonym fields = "(string \<times> jsval) list"
type_synonym rule = "string \<times> (jsval \<Rightarrow> bool) \<times> (jsval \<Rightarrow> jsval res)"

fun apply_rules :: "rule list \<Rightarrow> fields \<Rightarrow> fields res" where
  "apply_rules [] fs = Inr fs"
| "apply_rules ((k, P, f) # rs) fs =
     (if P (own fs k) then bindE (f (own fs k)) (\<lambda>v. apply_rules rs (AList.update k v fs))
      else apply_rules rs fs)"

text \<open>\<open>{...v}\<close>: the own enumerable properties; strings and arrays have their indices.\<close>

fun spread :: "jsval \<Rightarrow> fields" where
  "spread (JObj fs) = fs"
| "spread (JArr xs) = map (\<lambda>(i, x). (show_nat i, x)) (enumerate 0 xs)"
| "spread (JStr s) = map (\<lambda>(i, c). (show_nat i, JStr [c])) (enumerate 0 s)"
| "spread _ = []"

definition spread_with :: "rule list \<Rightarrow> jsval \<Rightarrow> jsval res" where
  "spread_with rs v = bindE (apply_rules rs (spread v)) (\<lambda>fs. Inr (JObj fs))"

text \<open>The same when the literal reads a field of the value, which throws on \<open>null\<close> and \<open>undefined\<close>.\<close>

definition spread_reading :: "rule list \<Rightarrow> jsval \<Rightarrow> jsval res" where
  "spread_reading rs v = (if v = JUndef \<or> v = JNull then Inl TypeError else spread_with rs v)"

definition must_trim :: "jsval \<Rightarrow> jsval res" where
  "must_trim v = (case v of JStr s \<Rightarrow> Inr (JStr (trim s)) | _ \<Rightarrow> Inl TypeError)"

definition opt_trim :: "jsval \<Rightarrow> jsval res" where
  "opt_trim v = (if v = JUndef \<or> v = JNull then Inr JUndef else must_trim v)"

definition or_undef :: "jsval \<Rightarrow> jsval" where
  "or_undef v = (if js_truthy v then v else JUndef)"

definition opt_trim_or_undef :: "jsval \<Rightarrow> jsval res" where
  "opt_trim_or_undef v = bindE (opt_trim v) (\<lambda>x. Inr (or_undef x))"

definition must_map :: "(jsval \<Rightarrow> jsval res) \<Rightarrow> jsval \<Rightarrow> jsval res" where
  "must_map f v = (case v of JArr xs \<Rightarrow> bindE (mapE f xs) (\<lambda>ys. Inr (JArr ys)) | _ \<Rightarrow> Inl TypeError)"

definition opt_map :: "(jsval \<Rightarrow> jsval res) \<Rightarrow> jsval \<Rightarrow> jsval res" where
  "opt_map f v = (if v = JUndef \<or> v = JNull then Inr JUndef else must_map f v)"

fun filterE :: "(jsval \<Rightarrow> bool res) \<Rightarrow> jsval list \<Rightarrow> jsval list res" where
  "filterE p [] = Inr []"
| "filterE p (x # xs) = bindE (p x) (\<lambda>b. bindE (filterE p xs) (\<lambda>ys. Inr (if b then x # ys else ys)))"

definition always :: "jsval \<Rightarrow> bool" where "always v = True"

definition defined :: "jsval \<Rightarrow> bool" where "defined v \<longleftrightarrow> v \<noteq> JUndef"

section \<open>\<open>sanitize\<close>\<close>

definition sanitize_entry :: "jsval \<Rightarrow> jsval res" where
  "sanitize_entry = spread_reading [(''ip'', always, must_trim), (''reason'', always, opt_trim_or_undef)]"

definition sanitize_ipblock :: "jsval \<Rightarrow> jsval res" where
  "sanitize_ipblock = spread_with
     [(''vpnFeedUrl'', always, opt_trim), (''datacenterFeedUrl'', always, opt_trim),
      (''blockedIps'', always, opt_map sanitize_entry), (''blockedCidrs'', always, opt_map must_trim)]"

text \<open>\<open>t.token && t.token.trim().length > 0\<close>\<close>

definition keep_token :: "jsval \<Rightarrow> bool res" where
  "keep_token t =
     bindE (js_prop t ''token'') (\<lambda>tok.
       if \<not> js_truthy tok then Inr False
       else case tok of JStr s \<Rightarrow> Inr (trim s \<noteq> []) | _ \<Rightarrow> Inl TypeError)"

definition sanitize_token :: "jsval \<Rightarrow> jsval res" where
  "sanitize_token = spread_with [(''token'', always, must_trim), (''name'', always, opt_trim_or_undef)]"

definition sanitize_tokens :: "jsval \<Rightarrow> jsval res" where
  "sanitize_tokens v =
     (case v of
        JArr xs \<Rightarrow> bindE (filterE keep_token xs) (\<lambda>ys. bindE (mapE sanitize_token ys) (\<lambda>zs. Inr (JArr zs)))
      | _ \<Rightarrow> Inl TypeError)"

definition sanitize_authTokens :: "jsval \<Rightarrow> jsval res" where
  "sanitize_authTokens v =
     (case v of
        JArr xs \<Rightarrow> bindE (filterE (\<lambda>t. case t of JStr s \<Rightarrow> Inr (trim s \<noteq> []) | _ \<Rightarrow> Inl TypeError) xs) (\<lambda>ys. Inr (JArr ys))
      | _ \<Rightarrow> Inl TypeError)"

fun num_floor :: "jsnum \<Rightarrow> jsnum" where
  "num_floor (Fin q) = Fin (of_int \<lfloor>q\<rfloor>)" | "num_floor n = n"

text \<open>\<open>Math.floor(v)\<close>, which converts its argument first.\<close>

definition js_floor :: "jsval \<Rightarrow> jsval res" where
  "js_floor v = Inr (JNum (num_floor (js_number v)))"

definition sanitize_portRange :: "jsval \<Rightarrow> jsval res" where
  "sanitize_portRange v =
     (case v of
        JObj fs \<Rightarrow> bindE (apply_rules [(''start'', defined, js_floor), (''end'', defined, js_floor)] fs) (\<lambda>gs. Inr (JObj gs))
      | _ \<Rightarrow> Inr v)"

definition sanitize_shared :: "jsval \<Rightarrow> jsval res" where
  "sanitize_shared = spread_with
     [(''controlBind'', js_truthy, must_trim), (''publicBind'', js_truthy, must_trim),
      (''publicHost'', js_truthy, must_trim), (''tokens'', js_truthy, sanitize_tokens),
      (''authTokens'', js_truthy, sanitize_authTokens), (''portRange'', js_truthy, sanitize_portRange)]"

text \<open>The certificate domains: \<open>(v || []).map(trim, lower case).filter(Boolean)\<close> without repetitions.\<close>

definition lower_domain :: "jsval \<Rightarrow> jsval res" where
  "lower_domain d = (case d of JStr s \<Rightarrow> Inr (JStr (toLowerCase (trim s))) | _ \<Rightarrow> Inl TypeError)"

definition sanitize_domains :: "jsval \<Rightarrow> jsval res" where
  "sanitize_domains v =
     (case (if js_truthy v then v else JArr []) of
        JArr xs \<Rightarrow> bindE (mapE lower_domain xs) (\<lambda>ys. Inr (JArr (nub (filter js_truthy ys))))
      | _ \<Rightarrow> Inl TypeError)"

definition sanitize_https :: "jsval \<Rightarrow> jsval res" where
  "sanitize_https v =
     (if js_truthy v then spread_with
        [(''letsEncryptDomain'', always, opt_trim_or_undef), (''letsEncryptDomains'', always, sanitize_domains),
         (''letsEncryptEmail'', always, opt_trim_or_undef), (''certPath'', always, opt_trim_or_undef),
         (''keyPath'', always, opt_trim_or_undef)] v
      else Inr JUndef)"

definition sanitize_hostname :: "jsval \<Rightarrow> jsval res" where
  "sanitize_hostname v =
     (if v = JUndef \<or> v = JNull then Inr JUndef
      else case v of
             JStr s \<Rightarrow> Inr (or_undef (JStr (toLowerCase (drop_final_dot (trim s)))))
           | _ \<Rightarrow> Inl TypeError)"

definition sanitize_mapping :: "jsval \<Rightarrow> jsval res" where
  "sanitize_mapping = spread_reading [(''hostname'', always, sanitize_hostname)]"

definition sanitize_listener :: "jsval \<Rightarrow> jsval res" where
  "sanitize_listener = spread_reading
     [(''webhook'', always, opt_trim_or_undef), (''httpMappings'', always, opt_map sanitize_mapping),
      (''https'', always, sanitize_https)]"

definition sanitize :: "jsval \<Rightarrow> jsval res" where
  "sanitize = spread_reading
     [(''ipBlock'', js_truthy, sanitize_ipblock), (''sharedService'', js_truthy, sanitize_shared),
      (''listeners'', always, opt_map sanitize_listener)]"

section \<open>Files and watchers\<close>

text \<open>The configuration files by path; a read or write can fail with an error of the system.\<close>

type_synonym disk = "(string \<times> jsval) list"

definition config_read :: "js_error option \<Rightarrow> string \<Rightarrow> disk \<Rightarrow> jsval res" where
  "config_read io path d =
     (case io of
        Some e \<Rightarrow> Inl e
      | None \<Rightarrow> (case map_of d path of None \<Rightarrow> Inr (JObj []) | Some v \<Rightarrow> Inr v))"

definition config_write :: "js_error option \<Rightarrow> string \<Rightarrow> jsval \<Rightarrow> disk \<Rightarrow> disk \<times> unit res" where
  "config_write io path config d =
     (case sanitize config of
        Inl e \<Rightarrow> (d, Inl e)
      | Inr c \<Rightarrow> (case io of Some e \<Rightarrow> (d, Inl e) | None \<Rightarrow> (AList.update path c d, Inr ())))"

text \<open>Watchers: the instances watched, and the watchers closed so far. The system may refuse to watch a
  file, as it does for one that does not exist.\<close>

record watch_state =
  w_watchers :: "(string \<times> string) list"
  w_closed :: "string list"

definition watch :: "js_error option \<Rightarrow> string \<Rightarrow> string \<Rightarrow> watch_state \<Rightarrow> watch_state \<times> unit res" where
  "watch io i path w =
     (if map_of (w_watchers w) i \<noteq> None then (w, Inr ())
      else case io of
        Some e \<Rightarrow> (w, Inl e)
      | None \<Rightarrow> (w\<lparr>w_watchers := AList.update i path (w_watchers w)\<rparr>, Inr ()))"

definition unwatch :: "string \<Rightarrow> watch_state \<Rightarrow> watch_state" where
  "unwatch i w =
     (case map_of (w_watchers w) i of
        None \<Rightarrow> w
      | Some p \<Rightarrow> w\<lparr>w_watchers := AList.delete i (w_watchers w), w_closed := w_closed w @ [i]\<rparr>)"

definition unwatchAll :: "watch_state \<Rightarrow> watch_state" where
  "unwatchAll w = foldl (\<lambda>s i. unwatch i s) w (map fst (w_watchers w))"

section \<open>Cleaning twice is cleaning once\<close>

text \<open>A function is stable at a value when its result there, if any, is a fixed point.\<close>

definition stable_at :: "(jsval \<Rightarrow> jsval res) \<Rightarrow> jsval \<Rightarrow> bool" where
  "stable_at f v \<longleftrightarrow> (\<forall>w. f v = Inr w \<longrightarrow> f w = Inr w)"

lemma own_update [simp]: "own (AList.update k v fs) j = (if j = k then v else own fs j)"
  by (simp add: own_def update_conv')

lemma update_same: "map_of fs k = Some v \<Longrightarrow> AList.update k v fs = fs"
  by (induction fs) auto

lemma map_of_apply_rules_other:
  "apply_rules rs fs = Inr gs \<Longrightarrow> k \<notin> fst ` set rs \<Longrightarrow> map_of gs k = map_of fs k"
proof (induction rs arbitrary: fs)
  case (Cons r rs)
  obtain k' P f where r: "r = (k', P, f)" by (cases r) auto
  show ?case
  proof (cases "P (own fs k')")
    case True
    then obtain v where "apply_rules rs (AList.update k' v fs) = Inr gs"
      using Cons.prems(1) by (auto simp: r bindE_eq_Inr)
    then show ?thesis using Cons.IH Cons.prems(2) r by (auto simp: update_conv')
  next
    case False
    then show ?thesis using Cons r by auto
  qed
qed simp

text \<open>After the rules have run, each field is left alone by its rule or a fixed point of it.\<close>

definition settled :: "rule \<Rightarrow> fields \<Rightarrow> bool" where
  "settled r fs = (case r of (k, P, f) \<Rightarrow>
     P (own fs k) \<longrightarrow> f (own fs k) = Inr (own fs k) \<and> map_of fs k \<noteq> None)"

lemma settled_apply_rules: "list_all (\<lambda>r. settled r fs) rs \<Longrightarrow> apply_rules rs fs = Inr fs"
proof (induction rs)
  case (Cons r rs)
  obtain k P f where r: "r = (k, P, f)" by (cases r) auto
  have "AList.update k (own fs k) fs = fs" if "map_of fs k \<noteq> None"
    using that by (auto simp: own_def intro: update_same)
  then show ?case using Cons by (auto simp: r settled_def)
qed simp

lemma apply_rules_settles:
  assumes "apply_rules rs fs = Inr gs" and "distinct (map fst rs)"
    and "\<And>k P f. (k, P, f) \<in> set rs \<Longrightarrow> stable_at f (own fs k)"
  shows "list_all (\<lambda>r. settled r gs) rs"
  using assms
proof (induction rs arbitrary: fs)
  case (Cons r rs)
  obtain k P f where r: "r = (k, P, f)" by (cases r) auto
  have other: "own gs k = own hs k \<and> map_of gs k = map_of hs k" if "apply_rules rs hs = Inr gs" for hs
    using map_of_apply_rules_other [OF that, of k] Cons.prems(2) r by (force simp: own_def)
  show ?case
  proof (cases "P (own fs k)")
    case True
    then obtain v where v: "f (own fs k) = Inr v" "apply_rules rs (AList.update k v fs) = Inr gs"
      using Cons.prems(1) by (auto simp: r bindE_eq_Inr)
    have "f v = Inr v" using Cons.prems(3) [of k P f] v(1) by (simp add: r stable_at_def)
    then have "settled r gs" using other [OF v(2)] by (simp add: r settled_def update_conv')
    moreover have "list_all (\<lambda>r. settled r gs) rs"
    proof (rule Cons.IH [OF v(2)])
      show "distinct (map fst rs)" using Cons.prems(2) by simp
      fix k' P' f'
      assume a: "(k', P', f') \<in> set rs"
      then have "k' \<noteq> k" using Cons.prems(2) r by force
      then show "stable_at f' (own (AList.update k v fs) k')" using Cons.prems(3) [of k' P' f'] a by simp
    qed
    ultimately show ?thesis by simp
  next
    case False
    then have a: "apply_rules rs fs = Inr gs" using Cons.prems(1) r by simp
    then have "settled r gs" using other [OF a] False by (simp add: r settled_def)
    moreover have "list_all (\<lambda>r. settled r gs) rs"
      using Cons.prems(2,3) by (intro Cons.IH [OF a]) auto
    ultimately show ?thesis by simp
  qed
qed simp

lemma apply_rules_stable:
  assumes "apply_rules rs fs = Inr gs" and "distinct (map fst rs)"
    and "\<And>k P f. (k, P, f) \<in> set rs \<Longrightarrow> stable_at f (own fs k)"
  shows "apply_rules rs gs = Inr gs"
  by (rule settled_apply_rules [OF apply_rules_settles [OF assms]])

lemma stable_spread_with:
  assumes "distinct (map fst rs)" and "\<And>k P f. (k, P, f) \<in> set rs \<Longrightarrow> stable_at f (own (spread v) k)"
  shows "stable_at (spread_with rs) v"
  using apply_rules_stable [OF _ assms] by (auto simp: stable_at_def spread_with_def bindE_eq_Inr)

lemma stable_spread_reading:
  assumes "distinct (map fst rs)" and "\<And>k P f. (k, P, f) \<in> set rs \<Longrightarrow> stable_at f (own (spread v) k)"
  shows "stable_at (spread_reading rs) v"
  using stable_spread_with [OF assms] by (auto simp: stable_at_def spread_reading_def spread_with_def bindE_eq_Inr)

lemma stable_must_trim: "stable_at must_trim v"
  by (cases v) (auto simp: stable_at_def must_trim_def)

lemma stable_opt_trim: "stable_at opt_trim v"
  by (cases v) (auto simp: stable_at_def opt_trim_def must_trim_def)

lemma stable_opt_trim_or_undef: "stable_at opt_trim_or_undef v"
  by (cases v) (auto simp: stable_at_def opt_trim_or_undef_def opt_trim_def must_trim_def or_undef_def)

lemma stable_mapE:
  assumes "mapE f xs = Inr ys" and "\<And>x. x \<in> set xs \<Longrightarrow> stable_at f x"
  shows "mapE f ys = Inr ys"
proof -
  have "list_all2 (\<lambda>x y. f x = Inr y) xs ys" using assms(1) by (simp add: mapE_Inr_iff)
  then have "list_all2 (\<lambda>x y. f y = Inr y) xs ys"
    using assms(2) by (induction rule: list_all2_induct) (auto simp: stable_at_def)
  then have "list_all2 (\<lambda>x y. f x = Inr y) ys ys" by (auto simp: list_all2_conv_all_nth)
  then show ?thesis by (simp add: mapE_Inr_iff)
qed

lemma stable_opt_map:
  assumes "\<And>xs x. v = JArr xs \<Longrightarrow> x \<in> set xs \<Longrightarrow> stable_at f x"
  shows "stable_at (opt_map f) v"
  using assms stable_mapE by (cases v) (fastforce simp: stable_at_def opt_map_def must_map_def bindE_eq_Inr)+

lemma stable_js_floor: "stable_at js_floor v"
proof -
  have "num_floor (num_floor n) = num_floor n" for n by (cases n) auto
  then show ?thesis by (simp add: stable_at_def js_floor_def)
qed

lemma stable_portRange: "stable_at sanitize_portRange v"
proof (cases v)
  case (JObj fs)
  have "apply_rules [(''start'', defined, js_floor), (''end'', defined, js_floor)] gs = Inr gs"
    if "apply_rules [(''start'', defined, js_floor), (''end'', defined, js_floor)] fs = Inr gs" for gs
    by (rule apply_rules_stable [OF that]) (auto intro: stable_js_floor)
  then show ?thesis using JObj by (auto simp: stable_at_def sanitize_portRange_def bindE_eq_Inr)
qed (auto simp: stable_at_def sanitize_portRange_def)

lemma filterE_stable: "filterE p xs = Inr ys \<Longrightarrow> filterE p ys = Inr ys"
  by (induction xs arbitrary: ys) (auto simp: bindE_eq_Inr split: if_splits)

lemma filterE_kept: "filterE p xs = Inr ys \<Longrightarrow> y \<in> set ys \<Longrightarrow> p y = Inr True"
  by (induction xs arbitrary: ys) (auto simp: bindE_eq_Inr split: if_splits)

lemma filterE_all: "\<forall>x \<in> set xs. p x = Inr True \<Longrightarrow> filterE p xs = Inr xs"
  by (induction xs) auto

lemma stable_authTokens: "stable_at sanitize_authTokens v"
  by (cases v) (auto simp: stable_at_def sanitize_authTokens_def bindE_eq_Inr dest: filterE_stable)

lemma sanitize_token_keeps:
  assumes "sanitize_token t = Inr z" and "keep_token t = Inr True"
  shows "keep_token z = Inr True"
proof -
  obtain s where s: "js_prop t ''token'' = Inr (JStr s)" "trim s \<noteq> []"
    using assms(2) by (auto simp: keep_token_def bindE_eq_Inr split: if_splits jsval.splits)
  then obtain fs where t: "t = JObj fs" "own fs ''token'' = JStr s" by (cases t) (auto split: if_splits)
  then obtain x where "z = JObj (AList.update ''name'' x (AList.update ''token'' (JStr (trim s)) fs))"
    using assms(1)
    by (auto simp: sanitize_token_def spread_with_def always_def must_trim_def bindE_eq_Inr)
  then show ?thesis using s(2) by (simp add: keep_token_def)
qed

lemma stable_tokens: "stable_at sanitize_tokens v"
  unfolding stable_at_def
proof (intro allI impI)
  fix w
  assume w: "sanitize_tokens v = Inr w"
  then obtain xs ys zs where v: "v = JArr xs" "filterE keep_token xs = Inr ys" "mapE sanitize_token ys = Inr zs" "w = JArr zs"
    by (auto simp: sanitize_tokens_def bindE_eq_Inr split: jsval.splits)
  have st: "stable_at sanitize_token t" for t
    unfolding sanitize_token_def by (rule stable_spread_with) (auto intro: stable_must_trim stable_opt_trim_or_undef)
  have "list_all2 (\<lambda>y z. sanitize_token y = Inr z) ys zs" using v(3) by (simp add: mapE_Inr_iff)
  then have "\<forall>z \<in> set zs. keep_token z = Inr True"
    using filterE_kept [OF v(2)] sanitize_token_keeps
    by (auto simp: list_all2_conv_all_nth in_set_conv_nth) (metis nth_mem)
  then show "sanitize_tokens w = Inr w"
    using filterE_all [of zs keep_token] stable_mapE [OF v(3) st] by (simp add: v(4) sanitize_tokens_def)
qed

lemma stable_domains: "stable_at sanitize_domains v"
  unfolding stable_at_def
proof (intro allI impI)
  fix w
  assume "sanitize_domains v = Inr w"
  then obtain xs ys where ys: "mapE lower_domain xs = Inr ys" and w: "w = JArr (nub (filter js_truthy ys))"
    unfolding sanitize_domains_def arr_case bindE_eq_Inr by blast
  have "lower_domain y = Inr y" if "lower_domain x = Inr y" for x y
    using that by (cases x) (auto simp: lower_domain_def trim_toLowerCase)
  then have fix1: "\<forall>y \<in> set ys. lower_domain y = Inr y"
    using ys unfolding mapE_Inr_iff list_all2_conv_all_nth by (metis in_set_conv_nth)
  have "mapE lower_domain zs = Inr zs" if "set zs \<subseteq> set ys" for zs
    using fix1 that by (induction zs) auto
  then have "mapE lower_domain (nub (filter js_truthy ys)) = Inr (nub (filter js_truthy ys))"
    by (auto simp: set_nub)
  moreover have "filter js_truthy (nub (filter js_truthy ys)) = nub (filter js_truthy ys)"
    by (simp add: filter_id_conv set_nub)
  ultimately show "sanitize_domains w = Inr w"
    by (simp add: w sanitize_domains_def nub_distinct_id distinct_nub)
qed

lemma stable_https: "stable_at sanitize_https v"
proof -
  have "stable_at (spread_with
        [(''letsEncryptDomain'', always, opt_trim_or_undef), (''letsEncryptDomains'', always, sanitize_domains),
         (''letsEncryptEmail'', always, opt_trim_or_undef), (''certPath'', always, opt_trim_or_undef),
         (''keyPath'', always, opt_trim_or_undef)]) v"
    by (rule stable_spread_with) (auto intro: stable_opt_trim_or_undef stable_domains)
  then show ?thesis
    by (auto simp: stable_at_def sanitize_https_def) (auto simp: spread_with_def bindE_eq_Inr)
qed

lemma hd_join: "xs \<noteq> [] \<Longrightarrow> hd xs \<noteq> [] \<Longrightarrow> hd (join_with sep xs) = hd (hd xs)"
  by (induction sep xs rule: join_with.induct) auto

lemma join_suffix: "xs \<noteq> [] \<Longrightarrow> \<exists>p. join_with sep xs = p @ last xs"
proof (induction sep xs rule: join_with.induct)
  case (3 sep l l' ls)
  then obtain p where "join_with sep (l' # ls) = p @ last (l' # ls)" by blast
  then show ?case by (intro exI [of _ "l @ sep @ p"]) simp
qed simp_all

lemma last_join: "xs \<noteq> [] \<Longrightarrow> last xs \<noteq> [] \<Longrightarrow> last (join_with sep xs) = last (last xs)"
  using join_suffix [of xs sep] by auto

lemma alnum_plain: "alnum_i c \<Longrightarrow> \<not> is_ws c \<and> c \<noteq> CHR ''.''"
  by (auto simp: alnum_i_def is_digit_def is_ws_def)

lemma labels_ends:
  assumes "list_all host_label (split_char (CHR ''.'') d)"
  shows "d \<noteq> [] \<and> alnum_i (hd d) \<and> alnum_i (last d)"
proof -
  let ?ls = "split_char (CHR ''.'') d"
  have ne: "?ls \<noteq> []" by simp
  then have "host_label (hd ?ls)" "host_label (last ?ls)"
    using assms by (auto simp: list_all_iff)
  moreover have "d = join_with ''.'' ?ls" by (simp add: split_char_join)
  ultimately show ?thesis
    using hd_join [OF ne, of "''.''"] last_join [OF ne, of "''.''"] ne
    by (metis host_label_def split_char.simps(1) list.sel(1))
qed

definition hostname_ok :: "jsval \<Rightarrow> bool" where
  "hostname_ok v = (case v of JStr s \<Rightarrow> trim s = [] \<or> hostname_pattern (trim s) | _ \<Rightarrow> True)"

lemma stable_hostname:
  assumes "hostname_ok v"
  shows "stable_at sanitize_hostname v"
proof (cases v)
  case (JStr s)
  define d where "d = toLowerCase (drop_final_dot (trim s))"
  have "d = [] \<or> drop_final_dot (trim d) = d \<and> toLowerCase d = d"
  proof (cases "trim s = []")
    case True
    then show ?thesis by (simp add: d_def drop_final_dot_def toLowerCase_def)
  next
    case False
    let ?e = "drop_final_dot (trim s)"
    have e: "?e \<noteq> []" "alnum_i (hd ?e)" "alnum_i (last ?e)"
      using assms False JStr labels_ends [of ?e] by (auto simp: hostname_ok_def hostname_pattern_def)
    have "trim ?e = ?e" using e alnum_plain by (intro trim_id) blast
    then have t: "trim d = d" by (simp add: d_def trim_toLowerCase)
    have "last d = lower_char (last ?e)" using e(1) by (simp add: d_def toLowerCase_def last_map)
    then have "last d \<noteq> CHR ''.''" using lower_char_fixed [of "last ?e" "CHR ''.''"] alnum_plain [OF e(3)] by auto
    then show ?thesis using t by (simp add: drop_final_dot_def d_def)
  qed
  then show ?thesis using JStr by (auto simp: stable_at_def sanitize_hostname_def or_undef_def d_def [symmetric])
qed (auto simp: stable_at_def sanitize_hostname_def)

text \<open>A field read off the spread value is the field read off the value itself.\<close>

lemma own_spread:
  assumes "js_prop v k = Inr x" and "\<not> all_digits k" and "k \<noteq> ''length''"
  shows "own (spread v) k = x"
proof -
  have "map_of (map (\<lambda>(i, y). (show_nat i, g y)) ps) k = None" for ps :: "(nat \<times> 'b) list" and g :: "'b \<Rightarrow> jsval"
    using assms(2) all_digits_show_nat by (induction ps) auto
  from this [of "\<lambda>y. y"] this [of "\<lambda>c. JStr [c]"] show ?thesis
    using assms(1,3) by (cases v) (auto simp: own_def)
qed

lemma stable_mapping: "hostname_ok (own (spread v) ''hostname'') \<Longrightarrow> stable_at sanitize_mapping v"
  unfolding sanitize_mapping_def by (rule stable_spread_reading) (auto intro: stable_hostname)

lemma stable_listener:
  assumes "\<And>ms mp. own (spread v) ''httpMappings'' = JArr ms \<Longrightarrow> mp \<in> set ms \<Longrightarrow> hostname_ok (own (spread mp) ''hostname'')"
  shows "stable_at sanitize_listener v"
  unfolding sanitize_listener_def
proof (rule stable_spread_reading)
  fix k P f
  assume "(k, P, f) \<in> set [(''webhook'', always, opt_trim_or_undef), (''httpMappings'', always, opt_map sanitize_mapping),
      (''https'', always, sanitize_https)]"
  then show "stable_at f (own (spread v) k)"
    using assms stable_mapping by (auto intro!: stable_opt_trim_or_undef stable_https stable_opt_map)
qed simp

lemma stable_shared: "stable_at sanitize_shared v"
  unfolding sanitize_shared_def
  by (rule stable_spread_with) (auto intro: stable_must_trim stable_tokens stable_authTokens stable_portRange)

lemma stable_ipblock: "stable_at sanitize_ipblock v"
proof -
  have "stable_at sanitize_entry x" for x
    unfolding sanitize_entry_def by (rule stable_spread_reading) (auto intro: stable_must_trim stable_opt_trim_or_undef)
  then show ?thesis
    unfolding sanitize_ipblock_def
    by (intro stable_spread_with) (auto intro: stable_opt_trim stable_opt_map stable_must_trim)
qed

lemma valid_hostnames:
  assumes "valid u config" and "own (spread config) ''listeners'' = JArr ls" and "l \<in> set ls"
    and "own (spread l) ''httpMappings'' = JArr ms" and "mp \<in> set ms"
  shows "hostname_ok (own (spread mp) ''hostname'')"
proof -
  have nd: "\<not> all_digits ''listeners''" "\<not> all_digits ''httpMappings''" "\<not> all_digits ''hostname''" by code_simp+
  note top = assms(1) [unfolded valid_def validate_def checks_clean, simplified]
  obtain x where x: "js_prop config ''listeners'' = Inr x" using top by (auto simp: with_prop_clean)
  then have "js_prop config ''listeners'' = Inr (JArr ls)" using own_spread [OF x nd(1)] assms(2) by simp
  then have "for_each check_listener ls = Inr []" using top by (auto simp: with_prop_clean)
  then obtain i where cl: "check_listener i l = Inr []" using assms(3) by (auto simp: for_each_clean in_set_conv_nth)
  let ?at = "at_index ''listeners'' i"
  note parts = cl [unfolded check_listener_def Let_def checks_clean, simplified]
  obtain y where y: "js_prop l ''httpMappings'' = Inr y" using parts by (auto simp: with_prop_clean)
  then have "js_prop l ''httpMappings'' = Inr (JArr ms)" using own_spread [OF y nd(2)] assms(4) by simp
  then have "for_each (check_mapping ?at) ms = Inr []" using parts by (auto simp: with_prop_clean)
  then obtain j where cm: "check_mapping ?at j mp = Inr []" using assms(5) by (auto simp: for_each_clean in_set_conv_nth)
  obtain h where h: "js_prop mp ''hostname'' = Inr h" "h = JUndef \<or> (\<exists>s. h = JStr s \<and> (trim s = [] \<or> hostname_pattern (trim s)))"
    using cm unfolding check_mapping_def Let_def checks_clean by (auto simp: with_prop_clean str_case)
  then show ?thesis using own_spread [OF h(1) nd(3)] by (auto simp: hostname_ok_def)
qed

text \<open>C34: Saving an accepted configuration a second time changes nothing: the cleaned configuration is a
  fixed point of the cleaning.\<close>

theorem sanitize_idempotent:
  assumes "valid u config" and "sanitize config = Inr c"
  shows "sanitize c = Inr c"
proof -
  have "stable_at sanitize config"
    unfolding sanitize_def
  proof (rule stable_spread_reading)
    fix k P f
    assume "(k, P, f) \<in> set [(''ipBlock'', js_truthy, sanitize_ipblock), (''sharedService'', js_truthy, sanitize_shared),
      (''listeners'', always, opt_map sanitize_listener)]"
    then show "stable_at f (own (spread config) k)"
      using valid_hostnames [OF assms(1)]
      by (auto intro!: stable_ipblock stable_shared stable_opt_map stable_listener)
  qed simp
  then show ?thesis using assms(2) by (simp add: stable_at_def)
qed

theorem sanitize_idempotent_witness:
  "\<exists>c. sanitize sample_config = Inr c \<and> sanitize c = Inr c"
proof -
  have "\<not> (case sanitize sample_config of Inl e \<Rightarrow> True | Inr c \<Rightarrow> False)" by code_simp
  then obtain c where "sanitize sample_config = Inr c" by (auto split: sum.splits)
  then show ?thesis using sanitize_idempotent [OF sample_config_valid] by blast
qed

text \<open>A saved configuration is read back as it was cleaned, and files of other paths are not touched;
  a cleaning or system error leaves every file as it was.\<close>

lemma config_write_read:
  "config_write io path config d = (d', r) \<Longrightarrow>
     (case r of
        Inr _ \<Rightarrow> (\<exists>c. sanitize config = Inr c \<and> config_read None path d' = Inr c) \<and>
                 (\<forall>q. q \<noteq> path \<longrightarrow> config_read None q d' = config_read None q d)
      | Inl e \<Rightarrow> d' = d \<and> (sanitize config = Inl e \<or> io = Some e))"
  by (auto simp: config_write_def config_read_def update_conv' split: sum.splits option.splits)

text \<open>Cleaning drops every token that has only a hash, although validation accepts such tokens: the
  accepted configuration with one hash-only token is saved without any.\<close>

lemma sanitize_drops_hash_tokens:
  "valid (\<lambda>_. None) shared_config \<and>
   (\<exists>c s. sanitize shared_config = Inr c \<and> js_prop c ''sharedService'' = Inr s \<and> js_prop s ''tokens'' = Inr (JArr []))"
proof -
  have "(case sanitize shared_config of Inr c \<Rightarrow>
          (case js_prop c ''sharedService'' of Inr s \<Rightarrow> js_prop s ''tokens'' = Inr (JArr []) | _ \<Rightarrow> False) | _ \<Rightarrow> False)"
    by code_simp
  then show ?thesis using shared_config_valid by (auto split: sum.splits)
qed

end
