(* ===== verification/RelayWire.thy ===== *)
theory RelayWire
  imports JsValue "HOL-Library.Word"
begin

text \<open>
  The wire formats of \<open>FerrumClient/src/relayShareClient.ts\<close>: UDP datagrams framed on a TCP stream,
  the exact-length reader below them, command lines, the answer to CONNECT and address strings.
  Bytes are 8-bit words. The text of a remote address is its UTF-8 bytes, which the source converts
  to a string and back. A stream is the list of chunks its data events deliver, none of them empty.
\<close>

type_synonym byte = "8 word"

section \<open>Big-endian numbers\<close>

definition put16 :: "nat \<Rightarrow> byte list" where
  "put16 n = [word_of_nat (n div 256), word_of_nat n]"

definition put32 :: "nat \<Rightarrow> byte list" where
  "put32 n = put16 (n div 65536) @ put16 n"

definition get_be :: "byte list \<Rightarrow> nat" where
  "get_be bs = foldl (\<lambda>n b. 256 * n + unat b) 0 bs"

section \<open>Frames\<close>

text \<open>\<open>writeUInt16BE\<close> and \<open>writeUInt32BE\<close> throw a RangeError on a length that does not fit.\<close>

definition encodeUdpFrame :: "byte list \<Rightarrow> byte list \<Rightarrow> byte list res" where
  "encodeUdpFrame remote payload =
     (if length remote > 65535 then Inl RangeError
      else if length payload > 4294967295 then Inl RangeError
      else Inr (put16 (length remote) @ remote @ put32 (length payload) @ payload))"

text \<open>\<open>readExact\<close>: chunks are collected until enough bytes are there; then the listener is removed and
  what is left over is put back with \<open>unshift\<close>. The socket is not paused, and a flowing stream whose
  data nobody listens to may lose it: \<open>kept\<close> tells whether the runtime keeps the bytes put back until
  the next reader listens. \<open>None\<close> is still waiting, also for no bytes at all: the promise resolves only
  on a data event.\<close>

fun read_loop :: "bool \<Rightarrow> nat \<Rightarrow> byte list \<Rightarrow> byte list list \<Rightarrow> (byte list \<times> byte list list) option" where
  "read_loop kept n buf [] = None"
| "read_loop kept n buf (c # cs) =
     (let b = buf @ c in
      if n \<le> length b then Some (take n b, if kept \<and> drop n b \<noteq> [] then drop n b # cs else cs)
      else read_loop kept n b cs)"

definition readExact :: "bool \<Rightarrow> nat \<Rightarrow> byte list list \<Rightarrow> (byte list \<times> byte list list) option" where
  "readExact kept n cs = read_loop kept n [] cs"

definition readUdpFrame :: "bool \<Rightarrow> byte list list \<Rightarrow> ((byte list \<times> byte list) \<times> byte list list) option" where
  "readUdpFrame kept cs =
     Option.bind (readExact kept 2 cs) (\<lambda>(l, cs1).
     Option.bind (readExact kept (get_be l) cs1) (\<lambda>(remote, cs2).
     Option.bind (readExact kept 4 cs2) (\<lambda>(m, cs3).
     Option.bind (readExact kept (get_be m) cs3) (\<lambda>(payload, cs4).
     Some ((remote, payload), cs4)))))"

lemma read_loop_length:
  "read_loop kept n buf cs = Some (b, cs') \<Longrightarrow> length b = n \<and> n + length (concat cs') \<le> length buf + length (concat cs)"
  by (induction kept n buf cs rule: read_loop.induct) (fastforce simp: Let_def split: if_splits)+

lemma readExact_length: "readExact kept n cs = Some (b, cs') \<Longrightarrow> length b = n \<and> n + length (concat cs') \<le> length (concat cs)"
  using read_loop_length by (fastforce simp: readExact_def)

lemma readUdpFrame_length: "readUdpFrame kept cs = Some (f, cs') \<Longrightarrow> length (concat cs') < length (concat cs)"
  by (auto simp: readUdpFrame_def bind_eq_Some_conv dest!: readExact_length)

text \<open>The frames the reading loop of \<open>openUdpTunnel\<close> takes from the chunks received so far.\<close>

function read_frames :: "bool \<Rightarrow> byte list list \<Rightarrow> (byte list \<times> byte list) list" where
  "read_frames kept cs =
     (case readUdpFrame kept cs of
        None \<Rightarrow> []
      | Some (f, cs') \<Rightarrow> f # read_frames kept cs')"
  by pat_completeness auto
termination
  by (relation "measure (\<lambda>(kept, cs). length (concat cs))") (auto dest: readUdpFrame_length)

declare read_frames.simps [simp del]

section \<open>Command lines\<close>

definition buildTunnelRegistrationCommand :: "bool \<Rightarrow> nat \<Rightarrow> bool \<Rightarrow> string" where
  "buildTunnelRegistrationCommand tcp publicPort haproxy =
     (if tcp then ''TUNNEL'' else ''UDP_TUNNEL'') @ '' '' @ show_nat publicPort @
     (if haproxy then '' HAPROXY'' else []) @ [CHR 0x0A]"

text \<open>\<open>readUntilCloseOrLine\<close>: the output so far once it contains a line feed, or all of it when the
  stream ends, closes or times out.\<close>

fun readUntilCloseOrLine :: "string \<Rightarrow> string list \<Rightarrow> string" where
  "readUntilCloseOrLine out [] = out"
| "readUntilCloseOrLine out (c # cs) =
     (let o' = out @ c in if CHR 0x0A \<in> set o' then o' else readUntilCloseOrLine o' cs)"

text \<open>\<open>s.split(/\s+/)\<close>: the pieces between maximal runs of white space.\<close>

function split_ws :: "string \<Rightarrow> string list" where
  "split_ws s =
     (let w = takeWhile (\<lambda>c. \<not> is_ws c) s; r = dropWhile (\<lambda>c. \<not> is_ws c) s in
      if r = [] then [w] else w # split_ws (dropWhile is_ws r))"
  by pat_completeness auto
termination
proof (relation "measure length")
  fix s w r :: string
  assume r: "r = dropWhile (\<lambda>c. \<not> is_ws c) s" and ne: "r \<noteq> []"
  then have "is_ws (hd r)" using hd_dropWhile by blast
  then have "length (dropWhile is_ws r) < length r"
    using ne length_dropWhile_le [of is_ws "tl r"] by (cases r) auto
  moreover have "length r \<le> length s" using r length_dropWhile_le by simp
  ultimately show "(dropWhile is_ws r, s) \<in> measure length" by simp
qed simp

declare split_ws.simps [simp del]

section \<open>Ports and addresses\<close>

definition isPort :: "jsnum \<Rightarrow> bool" where
  "isPort n \<longleftrightarrow> num_is_int n \<and> \<not> js_less n (Fin 1) \<and> \<not> js_less (Fin 65535) n"

definition num_nat :: "jsnum \<Rightarrow> nat" where
  "num_nat n = (case n of Fin q \<Rightarrow> nat \<lfloor>q\<rfloor> | _ \<Rightarrow> 0)"

text \<open>The reading of \<open>host:port\<close> in \<open>connectTcp\<close>, split at the last colon.\<close>

definition parse_address :: "string \<Rightarrow> (string \<times> nat) res" where
  "parse_address address =
     (case split_last (CHR '':'') address of
        None \<Rightarrow> Inl (Error (''invalid address: '' @ address))
      | Some (host, p) \<Rightarrow>
          if host = [] then Inl (Error (''invalid address: '' @ address))
          else if \<not> isPort (str_number p) then Inl (Error (''invalid port in address: '' @ address))
          else Inr (host, num_nat (str_number p)))"

definition parseConnectResponse :: "string \<Rightarrow> (string \<times> nat) res" where
  "parseConnectResponse response =
     (let trimmed = trim response; parts = split_ws trimmed in
      if length parts < 3 \<or> parts ! 0 \<noteq> ''OK''
      then Inl (Error (if trimmed = [] then ''relay returned an empty response'' else trimmed))
      else
        let fallbackPort = str_number (parts ! 1); invalid = Inl (Error (''relay returned invalid endpoint: '' @ trimmed)) in
        case split_last (CHR '':'') (parts ! 2) of
          None \<Rightarrow> invalid
        | Some (host, p) \<Rightarrow>
            if \<not> isPort fallbackPort \<or> host = [] then invalid
            else Inr (host, if isPort (str_number p) then num_nat (str_number p) else num_nat fallbackPort))"

section \<open>Frames survive any chunking\<close>

lemma get_be_snoc: "get_be (xs @ [y]) = 256 * get_be xs + unat y"
  by (simp add: get_be_def)

lemma get_be_append: "get_be (xs @ ys) = get_be xs * 256 ^ length ys + get_be ys"
proof (induction ys rule: rev_induct)
  case Nil
  show ?case by (simp add: get_be_def)
next
  case (snoc y ys)
  have "get_be (xs @ ys @ [y]) = 256 * get_be (xs @ ys) + unat y"
    using get_be_snoc [of "xs @ ys" y] by simp
  then show ?case using snoc get_be_snoc [of ys y] by simp
qed

lemma unat_byte: "unat (word_of_nat n :: byte) = n mod 256"
  by (simp add: unat_of_nat)

lemma get_be_put16: "n < 65536 \<Longrightarrow> get_be (put16 n) = n"
  by (simp add: put16_def get_be_def unat_byte)

lemma length_put [simp]: "length (put16 n) = 2" "length (put32 n) = 4"
  by (simp_all add: put16_def put32_def)

lemma get_be_put16_mod: "get_be (put16 n) = n mod 65536"
proof -
  have "n mod 65536 = 256 * ((n div 256) mod 256) + n mod 256"
    using mod_mult2_eq [of n 256 256] by (simp add: algebra_simps)
  then show ?thesis by (simp add: put16_def get_be_def unat_byte)
qed

lemma get_be_put32: "n < 4294967296 \<Longrightarrow> get_be (put32 n) = n"
proof -
  assume "n < 4294967296"
  then have "n div 65536 < 65536" by auto
  then have "get_be (put32 n) = (n div 65536) * 65536 + n mod 65536"
    by (simp add: put32_def get_be_append get_be_put16 get_be_put16_mod)
  then show ?thesis by simp
qed

abbreviation chunks_ok :: "byte list list \<Rightarrow> bool" where
  "chunks_ok cs \<equiv> [] \<notin> set cs"

lemma read_loop_complete:
  "chunks_ok cs \<Longrightarrow> cs \<noteq> [] \<Longrightarrow> n \<le> length (buf @ concat cs) \<Longrightarrow>
     \<exists>cs'. read_loop True n buf cs = Some (take n (buf @ concat cs), cs') \<and> concat cs' = drop n (buf @ concat cs) \<and> chunks_ok cs'"
proof (induction cs arbitrary: buf)
  case (Cons c cs)
  show ?case
  proof (cases "n \<le> length (buf @ c)")
    case True
    then show ?thesis using Cons.prems by (auto simp: Let_def)
  next
    case False
    then have "cs \<noteq> []" using Cons.prems by auto
    then show ?thesis using Cons.IH [of "buf @ c"] False Cons.prems by (auto simp: Let_def)
  qed
qed simp

lemma readExact_complete:
  assumes "chunks_ok cs" and "concat cs = a @ r" and "a @ r \<noteq> []"
  obtains cs' where "readExact True (length a) cs = Some (a, cs')" "concat cs' = r" "chunks_ok cs'"
  using read_loop_complete [of cs "length a" "[]"] assms unfolding readExact_def by fastforce

definition frame_bytes :: "byte list \<times> byte list \<Rightarrow> byte list" where
  "frame_bytes f = put16 (length (fst f)) @ fst f @ put32 (length (snd f)) @ snd f"

lemma readUdpFrame_complete:
  assumes "chunks_ok cs" and "concat cs = frame_bytes (remote, payload) @ rest"
    and "length remote \<le> 65535" and "length payload \<le> 4294967295" and "payload @ rest \<noteq> []"
  obtains cs' where "readUdpFrame True cs = Some ((remote, payload), cs')" "concat cs' = rest" "chunks_ok cs'"
proof -
  have ne: "put16 n \<noteq> []" "put32 n \<noteq> []" for n by (simp_all add: put16_def put32_def)
  obtain c1 where c1: "readExact True 2 cs = Some (put16 (length remote), c1)"
      "concat c1 = remote @ put32 (length payload) @ payload @ rest" "chunks_ok c1"
    using readExact_complete [OF assms(1), of "put16 (length remote)" "remote @ put32 (length payload) @ payload @ rest"]
      assms(2) ne by (auto simp: frame_bytes_def)
  obtain c2 where c2: "readExact True (length remote) c1 = Some (remote, c2)"
      "concat c2 = put32 (length payload) @ payload @ rest" "chunks_ok c2"
    using readExact_complete [OF c1(3,2)] ne by auto
  obtain c3 where c3: "readExact True 4 c2 = Some (put32 (length payload), c3)" "concat c3 = payload @ rest" "chunks_ok c3"
    using readExact_complete [OF c2(3,2)] ne by auto
  obtain c4 where c4: "readExact True (length payload) c3 = Some (payload, c4)" "concat c4 = rest" "chunks_ok c4"
    using readExact_complete [OF c3(3,2) assms(5)] by auto
  show ?thesis
    using that [OF _ c4(2,3)] c1(1) c2(1) c3(1) c4(1) assms(3,4)
    by (simp add: readUdpFrame_def get_be_put16 get_be_put32)
qed

lemma encode_frame_bytes:
  "encodeUdpFrame remote payload = Inr b \<longleftrightarrow>
     length remote \<le> 65535 \<and> length payload \<le> 4294967295 \<and> b = frame_bytes (remote, payload)"
  by (auto simp: encodeUdpFrame_def frame_bytes_def)

lemma read_frames_Nil [simp]: "read_frames kept [] = []"
  by (subst read_frames.simps) (simp add: readUdpFrame_def readExact_def)



lemma readExact_one: "length a = n \<Longrightarrow> readExact True n [a @ r] = Some (a, if r = [] then [] else [r])"
  by (simp add: readExact_def)

text \<open>An empty datagram is held back: with all its bytes received, the reader still waits, and it is
  delivered only when further bytes arrive.\<close>

lemma empty_datagram_held_back:
  assumes "encodeUdpFrame remote [] = Inr b"
  shows "read_frames True [b] = [] \<and> (b' \<noteq> [] \<longrightarrow> (\<exists>cs. readUdpFrame True [b, b'] = Some ((remote, []), cs)))"
proof -
  have len: "length remote \<le> 65535" and b: "b = frame_bytes (remote, [])"
    using assms by (auto simp: encode_frame_bytes)
  have ne: "b \<noteq> []" by (simp add: b frame_bytes_def put16_def)
  have "readUdpFrame True [b] = None"
  proof -
    have p: "put32 0 \<noteq> []" by (simp add: put32_def put16_def)
    have "readExact True 2 [b] = Some (put16 (length remote), [remote @ put32 0])"
      using readExact_one [of "put16 (length remote)" 2 "remote @ put32 0"] p by (simp add: b frame_bytes_def)
    moreover have "readExact True (length remote) [remote @ put32 0] = Some (remote, [put32 0])"
      using readExact_one [of remote "length remote" "put32 0"] p by simp
    moreover have "readExact True 4 [put32 0] = Some (put32 0, [])" using readExact_one [of "put32 0" 4 "[]"] by simp
    ultimately show ?thesis
      using len by (simp add: readUdpFrame_def get_be_put16 readExact_def)
  qed
  then have "read_frames True [b] = []" by (subst read_frames.simps) simp
  moreover have "\<exists>cs. readUdpFrame True [b, b'] = Some ((remote, []), cs)" if "b' \<noteq> []"
    using readUdpFrame_complete [of "[b, b']" remote "[]" b'] len b ne that by auto
  ultimately show ?thesis by blast
qed

text \<open>Where the bytes put back are lost, a datagram whose frame arrives in one chunk is never delivered.\<close>

lemma put_back_lost: "read_frames False [frame_bytes f @ rest] = []"
proof -
  have "readExact False 2 [frame_bytes f @ rest] = Some (put16 (length (fst f)), [])"
    by (simp add: readExact_def frame_bytes_def put16_def)
  then have "readUdpFrame False [frame_bytes f @ rest] = None"
    by (simp add: readUdpFrame_def) (simp add: readExact_def)
  then show ?thesis by (subst read_frames.simps) simp
qed

section \<open>The answer to CONNECT\<close>

lemma isPort_nat [simp]: "isPort (Fin (of_nat n)) \<longleftrightarrow> 1 \<le> n \<and> n \<le> 65535"
proof -
  have "(of_nat n :: rat) < 1 \<longleftrightarrow> n < 1" by (metis of_nat_1 of_nat_less_iff)
  moreover have "(65535 :: rat) < of_nat n \<longleftrightarrow> 65535 < n" by (metis of_nat_less_iff of_nat_numeral)
  moreover have "rat_is_int (of_nat n)" using rat_is_int_of_int [of "int n"] by simp
  ultimately show ?thesis by (auto simp: isPort_def)
qed

lemma num_nat_nat [simp]: "num_nat (Fin (of_nat n)) = n"
  by (simp add: num_nat_def)

lemma isPort_bounds:
  assumes "isPort n"
  shows "1 \<le> num_nat n \<and> num_nat n \<le> 65535"
proof (cases n)
  case (Fin q)
  then obtain i where i: "q = of_int i" using assms by (auto simp: isPort_def rat_is_int_iff)
  have "(1 :: rat) \<le> of_int i" "of_int i \<le> (65535 :: rat)" using assms Fin i by (auto simp: isPort_def not_less)
  then have "1 \<le> i \<and> i \<le> 65535" by (metis of_int_1_le_iff of_int_le_numeral_iff)
  then show ?thesis using Fin i by (auto simp: num_nat_def)
qed (use assms in \<open>auto simp: isPort_def\<close>)

definition no_ws :: "string \<Rightarrow> bool" where
  "no_ws s \<longleftrightarrow> list_all (\<lambda>c. \<not> is_ws c) s"

lemma split_ws_last: "no_ws w \<Longrightarrow> split_ws w = [w]"
proof -
  assume "no_ws w"
  then have "takeWhile (\<lambda>c. \<not> is_ws c) w = w" "dropWhile (\<lambda>c. \<not> is_ws c) w = []"
    by (auto simp: no_ws_def list_all_iff)
  then show ?thesis by (subst split_ws.simps) (simp add: Let_def)
qed

lemma split_ws_cons:
  assumes "no_ws w" and "s \<noteq> []" and "\<not> is_ws (hd s)"
  shows "split_ws (w @ '' '' @ s) = w # split_ws s"
proof -
  have sp: "is_ws (CHR '' '')" by code_simp
  have w: "\<forall>c \<in> set w. \<not> is_ws c" using assms(1) by (simp add: no_ws_def list_all_iff)
  have "takeWhile (\<lambda>c. \<not> is_ws c) (w @ '' '' @ s) = w" using w sp by (simp add: takeWhile_append)
  moreover have "dropWhile (\<lambda>c. \<not> is_ws c) (w @ '' '' @ s) = '' '' @ s" using w sp by (simp add: dropWhile_append)
  moreover have "dropWhile is_ws ('' '' @ s) = s" using assms sp by (cases s) auto
  ultimately show ?thesis by (subst split_ws.simps) (simp add: Let_def)
qed

lemma no_ws_show_nat: "no_ws (show_nat n)"
  using all_digits_show_nat [of n] digit_not_ws by (auto simp: all_digits_def no_ws_def list_all_iff)

lemma connect_line_read:
  assumes "1 \<le> fb" and "fb \<le> 65535" and "1 \<le> p" and "p \<le> 65535" and "host \<noteq> []" and "no_ws host"
    and "list_all is_ws tail"
  shows "parseConnectResponse (''OK '' @ show_nat fb @ '' '' @ host @ '':'' @ show_nat p @ tail) = Inr (host, p)"
proof -
  let ?ep = "host @ '':'' @ show_nat p" and ?line = "''OK '' @ show_nat fb @ '' '' @ host @ '':'' @ show_nat p"
  have ne: "show_nat n \<noteq> []" for n using all_digits_show_nat [of n] by (simp add: all_digits_def)
  have c: "\<not> is_ws (CHR '':'')" "\<not> is_ws (CHR ''O'')" "\<not> is_ws (CHR ''K'')" "\<not> is_digit (CHR '':'')" by code_simp+
  have e: "no_ws ?ep" using assms(6) no_ws_show_nat c by (simp add: no_ws_def)
  have hd: "\<not> is_ws (hd (show_nat n))" "\<not> is_ws (last (show_nat n))" for n
    using no_ws_show_nat [of n] ne [of n] by (simp_all add: no_ws_def list_all_iff)
  have hh: "\<not> is_ws (hd ?ep)" using assms(5,6) by (cases host) (auto simp: no_ws_def)
  have "trim (?line @ tail) = trim ?line" using assms(7) c by (intro trim_append_ws) simp_all
  moreover have "trim ?line = ?line" using hd c ne by (intro trim_id) simp
  ultimately have t: "trim (?line @ tail) = ?line" by simp
  have "split_ws ?line = [''OK'', show_nat fb, ?ep]"
    using split_ws_cons [of "''OK''" "show_nat fb @ '' '' @ ?ep"] split_ws_cons [OF no_ws_show_nat [of fb], of ?ep]
      split_ws_last [OF e] hd hh c ne assms(5) by (simp add: no_ws_def)
  moreover have "split_last (CHR '':'') ?ep = Some (host, show_nat p)"
    using split_last_append [of "CHR '':''" "show_nat p" host] c(4) all_digits_show_nat [of p]
    by (auto simp: all_digits_def list_all_iff)
  ultimately show ?thesis using t assms(1-5) by (simp add: parseConnectResponse_def Let_def)
qed

text \<open>The answer \<open>OK fallback host:port\<close> of a relay, with or without a line end, is read back as that
  host and port, for every host without white space (IPv6 hosts with colons included).\<close>

lemma connect_response_roundtrip:
  assumes "1 \<le> fb" and "fb \<le> 65535" and "1 \<le> p" and "p \<le> 65535" and "host \<noteq> []" and "no_ws host"
    and "list_all is_ws tail"
  shows "parseConnectResponse (''OK '' @ show_nat fb @ '' '' @ host @ '':'' @ show_nat p @ tail) = Inr (host, p)"
  using assms by (rule connect_line_read)

text \<open>Whatever a relay answers, an endpoint that is accepted has a host and a port from 1 to 65535, and
  so has every address a connection is opened to.\<close>

lemma endpoint_bounds:
  "(parseConnectResponse resp = Inr (h, n) \<longrightarrow> h \<noteq> [] \<and> 1 \<le> n \<and> n \<le> 65535) \<and>
   (parse_address addr = Inr (h, n) \<longrightarrow> addr = h @ '':'' @ drop (length h + 1) addr \<and> h \<noteq> [] \<and> 1 \<le> n \<and> n \<le> 65535)"
  using isPort_bounds
  by (auto simp: parseConnectResponse_def parse_address_def Let_def split: option.splits if_splits
      dest!: split_last_Some)

end
