(* ===== verification/RelayShareClient.thy ===== *)
theory RelayShareClient
  imports RelayWire
begin

text \<open>
  The relay client: class \<open>RelayShareClient\<close> of \<open>FerrumClient/src/relayShareClient.ts\<close>. Sockets are
  numbers; what the relay answers to a command line is the argument \<open>relay\<close>; the commands sent and
  the sockets destroyed are recorded in order. An asynchronous method is cut at the points where it
  waits and another method can run: the heartbeat into sending the PING, handling its answer, and
  finishing the refresh of the allocation.
\<close>

section \<open>State\<close>

datatype ProtocolMode = Tcp | Udp | Both | OtherMode string

record RelayShareClientOptions =
  ro_relayAddress :: string
  ro_token :: "string option"
  ro_protocol :: ProtocolMode
  ro_localHost :: string
  ro_tcpLocalPort :: "jsnum option"
  ro_udpLocalPort :: "jsnum option"
  ro_haproxy :: bool

record RelayPublicEndpoint =
  ep_protocol :: string
  ep_host :: string
  ep_port :: nat
  ep_display :: string

datatype tunnel_loop = Loop bool nat nat

record RelayShareClient =
  rc_stopped :: bool
  rc_sockets :: "nat list"
  rc_udpSockets :: "nat list"
  rc_heartbeat :: bool
  rc_pinging :: bool
  rc_reconnecting :: bool
  rc_generation :: nat
  rc_endpoint :: "RelayPublicEndpoint option"
  rc_tcpTunnels :: nat
  rc_udpTunnel :: bool
  rc_bytesIn :: nat
  rc_bytesOut :: nat
  rc_loops :: "tunnel_loop list"
  rc_sent :: "string list"
  rc_destroyed :: "nat list"

definition TCP_TUNNEL_POOL_SIZE :: nat where "TCP_TUNNEL_POOL_SIZE = 8"

definition new_RelayShareClient :: RelayShareClient where
  "new_RelayShareClient = \<lparr>rc_stopped = False, rc_sockets = [], rc_udpSockets = [], rc_heartbeat = False,
     rc_pinging = False, rc_reconnecting = False, rc_generation = 0, rc_endpoint = None, rc_tcpTunnels = 0,
     rc_udpTunnel = False, rc_bytesIn = 0, rc_bytesOut = 0, rc_loops = [], rc_sent = [], rc_destroyed = []\<rparr>"

section \<open>Commands\<close>

type_synonym relay = "string \<Rightarrow> string res"

definition sendRelayCommand :: "relay \<Rightarrow> string \<Rightarrow> RelayShareClient \<Rightarrow> RelayShareClient \<times> string res" where
  "sendRelayCommand relay cmd c = (c\<lparr>rc_sent := rc_sent c @ [cmd]\<rparr>, relay cmd)"

definition tcp_mode :: "ProtocolMode \<Rightarrow> bool" where "tcp_mode p \<longleftrightarrow> p = Tcp \<or> p = Both"
definition udp_mode :: "ProtocolMode \<Rightarrow> bool" where "udp_mode p \<longleftrightarrow> p = Udp \<or> p = Both"

definition opt_port :: "jsnum option \<Rightarrow> bool" where
  "opt_port v = (case v of None \<Rightarrow> False | Some n \<Rightarrow> isPort n)"

definition validate_options :: "RelayShareClientOptions \<Rightarrow> unit res" where
  "validate_options opts =
     (if trim (ro_relayAddress opts) = [] then Inl (Error ''relay address is required'')
      else if ro_protocol opts \<notin> set [Tcp, Udp, Both] then Inl (Error ''protocol must be tcp, udp, or both'')
      else if tcp_mode (ro_protocol opts) \<and> \<not> opt_port (ro_tcpLocalPort opts)
      then Inl (Error ''TCP local port is required'')
      else if udp_mode (ro_protocol opts) \<and> \<not> opt_port (ro_udpLocalPort opts)
      then Inl (Error ''UDP local port is required'')
      else Inr ())"

definition token_of :: "RelayShareClientOptions \<Rightarrow> string" where
  "token_of opts = (case ro_token opts of None \<Rightarrow> [] | Some t \<Rightarrow> trim t)"

definition line :: "string \<Rightarrow> string" where "line s = s @ [CHR 0x0A]"

definition or_empty :: "string \<Rightarrow> string" where
  "or_empty s = (if s = [] then ''<empty>'' else s)"

definition validateRelayApi ::
  "relay \<Rightarrow> RelayShareClientOptions \<Rightarrow> RelayShareClient \<Rightarrow> RelayShareClient \<times> unit res" where
  "validateRelayApi relay opts c =
     (case sendRelayCommand relay (line ''STATS'') c of
        (c1, Inl e) \<Rightarrow> (c1, Inl e)
      | (c1, Inr resp) \<Rightarrow>
          if \<not> startsWith (trim resp) ''STAT ''
          then (c1, Inl (Error (''Shared relay API check failed: '' @ ro_relayAddress opts @
                 '' is reachable, but it did not respond as a FerrumProxy shared relay API. Response: '' @
                 or_empty (trim resp))))
          else if token_of opts = [] then (c1, Inr ())
          else case sendRelayCommand relay (line (''TOKEN '' @ token_of opts)) c1 of
                 (c2, Inl e) \<Rightarrow> (c2, Inl e)
               | (c2, Inr r) \<Rightarrow>
                   if startsWith (trim r) ''OK '' then (c2, Inr ())
                   else if toLowerCase (trim r) = ''error invalid token''
                   then (c2, Inl (Error ''Shared relay token check failed: invalid authentication token.''))
                   else (c2, Inl (Error (''Shared relay token check failed: unexpected response from relay: '' @
                          or_empty (trim r)))))"

definition show_port :: "jsnum \<Rightarrow> string" where "show_port n = show_nat (num_nat n)"

definition buildRelayTarget :: "RelayShareClientOptions \<Rightarrow> string res" where
  "buildRelayTarget opts =
     (case (if ro_protocol opts = Udp then ro_udpLocalPort opts else ro_tcpLocalPort opts) of
        None \<Rightarrow> Inl (Error ''local port is required'')
      | Some p \<Rightarrow>
          if \<not> num_truthy p then Inl (Error ''local port is required'')
          else Inr ((if token_of opts \<noteq> [] then token_of opts @ '':'' else []) @ ro_localHost opts @ '':'' @ show_port p))"

definition protocol_name :: "ProtocolMode \<Rightarrow> string" where
  "protocol_name p = (case p of Tcp \<Rightarrow> ''tcp'' | Udp \<Rightarrow> ''udp'' | Both \<Rightarrow> ''tcp/udp'' | OtherMode s \<Rightarrow> s)"

definition allocateRelayEndpoint ::
  "relay \<Rightarrow> RelayShareClientOptions \<Rightarrow> RelayShareClient \<Rightarrow> RelayShareClient \<times> RelayPublicEndpoint res" where
  "allocateRelayEndpoint relay opts c =
     (case buildRelayTarget opts of
        Inl e \<Rightarrow> (c, Inl e)
      | Inr target \<Rightarrow>
          (case sendRelayCommand relay (line (''CONNECT '' @ target)) c of
             (c1, Inl e) \<Rightarrow> (c1, Inl e)
           | (c1, Inr resp) \<Rightarrow>
               (case parseConnectResponse resp of
                  Inl e \<Rightarrow> (c1, Inl e)
                | Inr (host, port) \<Rightarrow>
                    let name = protocol_name (ro_protocol opts);
                        ep = \<lparr>ep_protocol = name, ep_host = host, ep_port = port,
                              ep_display = name @ '': '' @ host @ '':'' @ show_nat port\<rparr> in
                    (c1\<lparr>rc_endpoint := Some ep\<rparr>, Inr ep))))"

definition startTunnelLoops :: "RelayShareClientOptions \<Rightarrow> nat \<Rightarrow> RelayShareClient \<Rightarrow> RelayShareClient" where
  "startTunnelLoops opts port c =
     (let g = rc_generation c + 1 in
      c\<lparr>rc_generation := g,
        rc_loops := rc_loops c @
          (if tcp_mode (ro_protocol opts) then replicate TCP_TUNNEL_POOL_SIZE (Loop True port g) else []) @
          (if udp_mode (ro_protocol opts) then [Loop False port g] else [])\<rparr>)"

definition startHeartbeat :: "RelayShareClient \<Rightarrow> RelayShareClient" where
  "startHeartbeat c = c\<lparr>rc_heartbeat := True\<rparr>"

definition start_client ::
  "relay \<Rightarrow> RelayShareClientOptions \<Rightarrow> RelayShareClient \<Rightarrow> RelayShareClient \<times> RelayPublicEndpoint res" where
  "start_client relay opts c =
     (case validate_options opts of
        Inl e \<Rightarrow> (c, Inl e)
      | Inr _ \<Rightarrow>
          (case validateRelayApi relay opts c of
             (c1, Inl e) \<Rightarrow> (c1, Inl e)
           | (c1, Inr _) \<Rightarrow>
               (case allocateRelayEndpoint relay opts c1 of
                  (c2, Inl e) \<Rightarrow> (c2, Inl e)
                | (c2, Inr ep) \<Rightarrow> (startHeartbeat (startTunnelLoops opts (ep_port ep) c2), Inr ep))))"

text \<open>The RELEASE of the current endpoint; its failure is ignored.\<close>

definition release :: "relay \<Rightarrow> RelayShareClient \<Rightarrow> RelayShareClient" where
  "release relay c =
     (case rc_endpoint c of
        None \<Rightarrow> c
      | Some ep \<Rightarrow> fst (sendRelayCommand relay (line (''RELEASE '' @ show_nat (ep_port ep))) c))"

definition destroy_all :: "RelayShareClient \<Rightarrow> RelayShareClient" where
  "destroy_all c = c\<lparr>rc_destroyed := rc_destroyed c @ rc_sockets c, rc_sockets := []\<rparr>"

text \<open>\<open>stop\<close> waits for the answer to its RELEASE, and other callbacks can run there: the part up to the
  wait, and the rest.\<close>

definition stop_request :: "relay \<Rightarrow> RelayShareClient \<Rightarrow> RelayShareClient" where
  "stop_request relay c =
     release relay (c\<lparr>rc_stopped := True, rc_generation := rc_generation c + 1, rc_heartbeat := False\<rparr>)"

definition stop_finish :: "RelayShareClient \<Rightarrow> RelayShareClient" where
  "stop_finish c = (destroy_all c)\<lparr>rc_udpSockets := [], rc_tcpTunnels := 0, rc_udpTunnel := False\<rparr>"

section \<open>Heartbeat\<close>

text \<open>The timer fires: the PING is sent unless the client is stopped or refreshing.\<close>

definition heartbeat_ping :: "RelayShareClient \<Rightarrow> RelayShareClient" where
  "heartbeat_ping c =
     (if rc_stopped c \<or> rc_reconnecting c then c
      else c\<lparr>rc_pinging := True, rc_sent := rc_sent c @ [line ''PING'']\<rparr>)"

text \<open>\<open>refreshRelayAllocation\<close> up to the CONNECT.\<close>

definition refresh_begin :: "relay \<Rightarrow> RelayShareClient \<Rightarrow> RelayShareClient" where
  "refresh_begin relay c =
     (let c1 = (destroy_all (c\<lparr>rc_generation := rc_generation c + 1\<rparr>))\<lparr>rc_tcpTunnels := 0, rc_udpTunnel := False\<rparr> in
      release relay c1)"

text \<open>The answer to the PING arrives, or the exchange fails.\<close>

definition heartbeat_answer :: "relay \<Rightarrow> string res \<Rightarrow> RelayShareClient \<Rightarrow> RelayShareClient" where
  "heartbeat_answer relay answer c =
     (if \<not> rc_pinging c then c
      else
        let c1 = c\<lparr>rc_pinging := False\<rparr> in
        case answer of
          Inr resp \<Rightarrow> if trim resp = ''PONG'' then c1 else refresh_begin relay (c1\<lparr>rc_reconnecting := True\<rparr>)
        | Inl e \<Rightarrow> refresh_begin relay (c1\<lparr>rc_reconnecting := True\<rparr>))"

definition refresh_finish :: "relay \<Rightarrow> RelayShareClientOptions \<Rightarrow> RelayShareClient \<Rightarrow> RelayShareClient" where
  "refresh_finish relay opts c =
     (if \<not> rc_reconnecting c then c
      else case allocateRelayEndpoint relay opts c of
             (c1, Inl e) \<Rightarrow> c1\<lparr>rc_reconnecting := False\<rparr>
           | (c1, Inr ep) \<Rightarrow> (startTunnelLoops opts (ep_port ep) c1)\<lparr>rc_reconnecting := False\<rparr>)"

section \<open>Tunnels\<close>

definition trackSocket :: "nat \<Rightarrow> RelayShareClient \<Rightarrow> RelayShareClient" where
  "trackSocket s c = c\<lparr>rc_sockets := (if s \<in> set (rc_sockets c) then rc_sockets c else rc_sockets c @ [s])\<rparr>"

definition untrackSocket :: "nat \<Rightarrow> RelayShareClient \<Rightarrow> RelayShareClient" where
  "untrackSocket s c = c\<lparr>rc_sockets := filter (\<lambda>x. x \<noteq> s) (rc_sockets c)\<rparr>"

definition destroy :: "nat \<Rightarrow> RelayShareClient \<Rightarrow> RelayShareClient" where
  "destroy s c = c\<lparr>rc_destroyed := rc_destroyed c @ [s], rc_sockets := filter (\<lambda>x. x \<noteq> s) (rc_sockets c)\<rparr>"

text \<open>\<open>openTcpTunnel\<close> up to the piping: the outcomes of connecting to the relay, of writing the
  registration, of reading six bytes and of connecting to the local service.\<close>

definition openTcpTunnel ::
  "nat \<Rightarrow> nat \<Rightarrow> unit res \<Rightarrow> unit res \<Rightarrow> string res \<Rightarrow> unit res \<Rightarrow> RelayShareClient \<Rightarrow> RelayShareClient \<times> unit res" where
  "openTcpTunnel t l conn wr start_line local_conn c =
     (case conn of
        Inl e \<Rightarrow> (c, Inl e)
      | Inr _ \<Rightarrow>
          let c1 = trackSocket t c in
          (case wr of
             Inl e \<Rightarrow> (c1, Inl e)
           | Inr _ \<Rightarrow>
               (case start_line of
                  Inl e \<Rightarrow> (c1, Inl e)
                | Inr s \<Rightarrow>
                    if s \<noteq> line ''START'' then (destroy t c1, Inl (Error ''relay rejected TCP tunnel''))
                    else case local_conn of
                           Inl e \<Rightarrow> (c1, Inl e)
                         | Inr _ \<Rightarrow> (let c2 = trackSocket l c1 in (c2\<lparr>rc_tcpTunnels := rc_tcpTunnels c2 + 1\<rparr>, Inr ())))))"

text \<open>The end of the piping, which has destroyed both sockets.\<close>

definition tcp_tunnel_end :: "nat \<Rightarrow> nat \<Rightarrow> RelayShareClient \<Rightarrow> RelayShareClient" where
  "tcp_tunnel_end t l c =
     (let c1 = untrackSocket l (untrackSocket t (destroy l (destroy t c))) in
      c1\<lparr>rc_tcpTunnels := rc_tcpTunnels c1 - 1\<rparr>)"

definition count_bytes :: "bool \<Rightarrow> nat \<Rightarrow> RelayShareClient \<Rightarrow> RelayShareClient" where
  "count_bytes incoming n c =
     (if incoming then c\<lparr>rc_bytesIn := rc_bytesIn c + n\<rparr> else c\<lparr>rc_bytesOut := rc_bytesOut c + n\<rparr>)"

text \<open>The tunnel loops run while the client is not stopped and their generation is the current one.\<close>

fun loop_live :: "RelayShareClient \<Rightarrow> tunnel_loop \<Rightarrow> bool" where
  "loop_live c (Loop tcp port g) = (\<not> rc_stopped c \<and> g = rc_generation c)"

section \<open>Live tunnel loops\<close>

datatype rc_event =
    RcStart relay
  | RcStop relay
  | RcStopped
  | RcPing
  | RcAnswer relay "string res"
  | RcFinish relay
  | RcOpen nat nat "unit res" "unit res" "string res" "unit res"
  | RcEnd nat nat
  | RcBytes bool nat

fun rc_step :: "RelayShareClientOptions \<Rightarrow> RelayShareClient \<Rightarrow> rc_event \<Rightarrow> RelayShareClient" where
  "rc_step opts c (RcStart relay) = fst (start_client relay opts c)"
| "rc_step opts c (RcStop relay) = stop_request relay c"
| "rc_step opts c RcStopped = stop_finish c"
| "rc_step opts c RcPing = heartbeat_ping c"
| "rc_step opts c (RcAnswer relay a) = heartbeat_answer relay a c"
| "rc_step opts c (RcFinish relay) = refresh_finish relay opts c"
| "rc_step opts c (RcOpen t l a b d e) = fst (openTcpTunnel t l a b d e c)"
| "rc_step opts c (RcEnd t l) = tcp_tunnel_end t l c"
| "rc_step opts c (RcBytes b n) = count_bytes b n c"

primrec loop_tcp :: "tunnel_loop \<Rightarrow> bool" where "loop_tcp (Loop k p g) = k"
primrec loop_port :: "tunnel_loop \<Rightarrow> nat" where "loop_port (Loop k p g) = p"
primrec loop_gen :: "tunnel_loop \<Rightarrow> nat" where "loop_gen (Loop k p g) = g"

definition current :: "nat \<Rightarrow> tunnel_loop list \<Rightarrow> tunnel_loop list" where
  "current g ls = filter (\<lambda>l. loop_gen l = g) ls"

definition loops_ok :: "nat \<Rightarrow> RelayPublicEndpoint option \<Rightarrow> tunnel_loop list \<Rightarrow> bool" where
  "loops_ok g ep ls \<longleftrightarrow> (\<forall>l \<in> set ls. loop_gen l \<le> g) \<and>
     length (filter loop_tcp (current g ls)) \<le> TCP_TUNNEL_POOL_SIZE \<and>
     length (filter (\<lambda>l. \<not> loop_tcp l) (current g ls)) \<le> 1 \<and>
     (\<forall>l \<in> set (current g ls). \<exists>e. ep = Some e \<and> loop_port l = ep_port e)"

definition rc_inv :: "RelayShareClient \<Rightarrow> bool" where
  "rc_inv c \<longleftrightarrow> loops_ok (rc_generation c) (rc_endpoint c) (rc_loops c)"

lemma current_new: "\<forall>l \<in> set ls. loop_gen l \<le> g \<Longrightarrow> g < g' \<Longrightarrow> current g' ls = []"
  by (auto simp: current_def filter_empty_conv)

lemma loops_ok_bump:
  assumes "loops_ok g ep ls" and "g < g'"
  shows "loops_ok g' ep' ls"
proof -
  have "current g' ls = []" using assms by (intro current_new [of ls g]) (simp_all add: loops_ok_def)
  then show ?thesis using assms by (auto simp: loops_ok_def)
qed

lemma loops_ok_start:
  assumes "loops_ok g ep ls"
  shows "loops_ok (g + 1) (Some e) (ls @ (if a then replicate TCP_TUNNEL_POOL_SIZE (Loop True (ep_port e) (g + 1)) else []) @
     (if b then [Loop False (ep_port e) (g + 1)] else []))"
proof -
  have "current (g + 1) ls = []" using assms by (intro current_new [of ls g]) (simp_all add: loops_ok_def)
  then have cur: "current (g + 1) (ls @ xs) = current (g + 1) xs" for xs by (simp add: current_def)
  have "\<forall>l \<in> set ls. loop_gen l \<le> g + 1" using assms by (auto simp: loops_ok_def)
  then show ?thesis
    unfolding loops_ok_def cur
    by (auto simp: current_def TCP_TUNNEL_POOL_SIZE_def)
qed

lemma send_fields [simp]:
  "rc_generation (fst (sendRelayCommand r m c)) = rc_generation c" "rc_endpoint (fst (sendRelayCommand r m c)) = rc_endpoint c"
  "rc_loops (fst (sendRelayCommand r m c)) = rc_loops c" "rc_stopped (fst (sendRelayCommand r m c)) = rc_stopped c"
  "snd (sendRelayCommand r m c) = r m"
  by (simp_all add: sendRelayCommand_def)

lemma release_fields [simp]:
  "rc_generation (release r c) = rc_generation c" "rc_endpoint (release r c) = rc_endpoint c"
  "rc_loops (release r c) = rc_loops c" "rc_stopped (release r c) = rc_stopped c"
  by (simp_all add: release_def split: option.split)

lemma api_fields:
  "validateRelayApi r opts c = (c', x) \<Longrightarrow>
     rc_generation c' = rc_generation c \<and> rc_endpoint c' = rc_endpoint c \<and> rc_loops c' = rc_loops c \<and> rc_stopped c' = rc_stopped c"
  by (auto simp: validateRelayApi_def sendRelayCommand_def split: sum.splits if_splits)

lemma allocate_fields:
  "allocateRelayEndpoint r opts c = (c', x) \<Longrightarrow>
     rc_generation c' = rc_generation c \<and> rc_loops c' = rc_loops c \<and> rc_stopped c' = rc_stopped c \<and>
     (case x of Inr ep \<Rightarrow> rc_endpoint c' = Some ep | Inl e \<Rightarrow> rc_endpoint c' = rc_endpoint c)"
  by (auto simp: allocateRelayEndpoint_def sendRelayCommand_def Let_def split: sum.splits prod.splits)

lemma rc_inv_startTunnelLoops:
  assumes "loops_ok (rc_generation c) ep0 (rc_loops c)" and "rc_endpoint c = Some ep"
  shows "rc_inv (startTunnelLoops opts (ep_port ep) c)"
  using loops_ok_start [OF assms(1), of ep "tcp_mode (ro_protocol opts)" "udp_mode (ro_protocol opts)"] assms(2)
  by (simp add: rc_inv_def startTunnelLoops_def Let_def cong: if_cong split del: if_split)

lemma rc_inv_start:
  assumes "rc_inv c"
  shows "rc_inv (fst (start_client relay opts c))"
proof (cases "validate_options opts")
  case (Inr u)
  obtain c1 x where api: "validateRelayApi relay opts c = (c1, x)" by fastforce
  obtain c2 y where al: "allocateRelayEndpoint relay opts c1 = (c2, y)" by fastforce
  note f = api_fields [OF api] allocate_fields [OF al]
  have hb: "rc_inv (startHeartbeat d) = rc_inv d" for d by (simp add: startHeartbeat_def rc_inv_def)
  have 1: "rc_inv c1" using assms f by (simp add: rc_inv_def)
  have "rc_inv c2" if "y = Inl e" for e using assms f that by (simp add: rc_inv_def)
  moreover have "rc_inv (startTunnelLoops opts (ep_port ep) c2)" if "y = Inr ep" for ep
    using assms f that by (intro rc_inv_startTunnelLoops [of c2 "rc_endpoint c"]) (simp_all add: rc_inv_def)
  ultimately show ?thesis
    using Inr 1 by (auto simp: start_client_def api al hb split: sum.split)
qed (use assms in \<open>simp add: start_client_def\<close>)

lemma rc_inv_finish:
  assumes "rc_inv c"
  shows "rc_inv (refresh_finish relay opts c)"
proof -
  obtain c1 y where al: "allocateRelayEndpoint relay opts c = (c1, y)" by fastforce
  note f = allocate_fields [OF al]
  have same: "rc_inv (d\<lparr>rc_reconnecting := b\<rparr>) = rc_inv d" for d b by (simp add: rc_inv_def)
  have "rc_inv c1" if "y = Inl e" for e using assms f that by (simp add: rc_inv_def)
  moreover have "rc_inv (startTunnelLoops opts (ep_port ep) c1)" if "y = Inr ep" for ep
    using assms f that by (intro rc_inv_startTunnelLoops [of c1 "rc_endpoint c"]) (simp_all add: rc_inv_def)
  ultimately show ?thesis using assms by (auto simp: refresh_finish_def al same split: sum.split)
qed

lemma rc_inv_stop: "rc_inv c \<Longrightarrow> rc_inv (stop_request relay c)" "rc_inv c \<Longrightarrow> rc_inv (stop_finish c)"
  using loops_ok_bump [of "rc_generation c" "rc_endpoint c" "rc_loops c" "rc_generation c + 1"]
  by (simp_all add: rc_inv_def stop_request_def stop_finish_def destroy_all_def)

lemma rc_inv_refresh_begin: "rc_inv c \<Longrightarrow> rc_inv (refresh_begin relay c)"
  using loops_ok_bump [of "rc_generation c" "rc_endpoint c" "rc_loops c" "rc_generation c + 1"]
  by (simp add: rc_inv_def refresh_begin_def destroy_all_def Let_def)

lemma rc_inv_flags: "rc_inv c \<Longrightarrow> rc_inv (c\<lparr>rc_pinging := a, rc_reconnecting := b\<rparr>)" "rc_inv c \<Longrightarrow> rc_inv (c\<lparr>rc_pinging := a\<rparr>)"
  by (simp_all add: rc_inv_def)

lemma tunnel_fields:
  "rc_inv (fst (openTcpTunnel t l x y z w c)) = rc_inv c" "rc_inv (tcp_tunnel_end t l c) = rc_inv c"
  "rc_inv (count_bytes b n c) = rc_inv c" "rc_inv (heartbeat_ping c) = rc_inv c"
  by (auto simp: rc_inv_def openTcpTunnel_def tcp_tunnel_end_def count_bytes_def heartbeat_ping_def trackSocket_def
      untrackSocket_def destroy_def Let_def split: sum.split)

lemma rc_inv_answer: "rc_inv c \<Longrightarrow> rc_inv (heartbeat_answer relay a c)"
  by (auto simp: heartbeat_answer_def Let_def intro!: rc_inv_refresh_begin rc_inv_flags split: sum.split)

lemma rc_inv_step: "rc_inv c \<Longrightarrow> rc_inv (rc_step opts c e)"
  by (cases e) (simp_all add: rc_inv_start rc_inv_stop rc_inv_finish rc_inv_answer tunnel_fields)

interpretation rcm: machine "rc_step opts" "\<lambda>e. True" rc_inv for opts
  by unfold_locales (rule rc_inv_step)

lemma live_current: "filter (loop_live c) (rc_loops c) = (if rc_stopped c then [] else current (rc_generation c) (rc_loops c))"
proof -
  have "loop_live c l \<longleftrightarrow> \<not> rc_stopped c \<and> loop_gen l = rc_generation c" for l by (cases l) auto
  then show ?thesis by (simp add: current_def cong: filter_cong)
qed

lemma stopped_start: "rc_stopped (fst (start_client relay opts c)) = rc_stopped c"
proof -
  obtain c1 x where api: "validateRelayApi relay opts c = (c1, x)" by fastforce
  obtain c2 y where al: "allocateRelayEndpoint relay opts c1 = (c2, y)" by fastforce
  show ?thesis using api_fields [OF api] allocate_fields [OF al]
    by (cases "validate_options opts"; cases x; cases y)
      (simp_all add: start_client_def api al startHeartbeat_def startTunnelLoops_def Let_def)
qed

lemma stopped_finish: "rc_stopped (refresh_finish relay opts c) = rc_stopped c"
proof -
  obtain c1 y where al: "allocateRelayEndpoint relay opts c = (c1, y)" by fastforce
  show ?thesis using allocate_fields [OF al] by (cases y) (simp_all add: refresh_finish_def al startTunnelLoops_def Let_def)
qed

lemma stopped_answer: "rc_stopped (heartbeat_answer relay a c) = rc_stopped c"
  by (auto simp: heartbeat_answer_def refresh_begin_def destroy_all_def Let_def split: sum.split)

lemma stopped_tunnels:
  "rc_stopped (fst (openTcpTunnel t l x y z w c)) = rc_stopped c" "rc_stopped (tcp_tunnel_end t l c) = rc_stopped c"
  "rc_stopped (count_bytes b n c) = rc_stopped c" "rc_stopped (heartbeat_ping c) = rc_stopped c" "rc_stopped (stop_finish c) = rc_stopped c"
  by (auto simp: openTcpTunnel_def tcp_tunnel_end_def count_bytes_def heartbeat_ping_def trackSocket_def stop_finish_def destroy_all_def
      untrackSocket_def destroy_def Let_def split: sum.split)

text \<open>A stop is for good.\<close>

lemma stopped_step: "rc_stopped c \<Longrightarrow> rc_stopped (rc_step opts c e)"
  by (cases e) (simp_all add: stopped_start stopped_finish stopped_answer stopped_tunnels, simp add: stop_request_def)

lemma stopped_steps: "rc_stopped c \<Longrightarrow> rc_stopped (foldl (rc_step opts) c es)"
  by (induction es arbitrary: c) (simp_all add: stopped_step)

text \<open>C9: Whatever sequence of starts, stops, heartbeats, refreshes and tunnel events happens, the loops
  that keep opening tunnels are at most eight for TCP and one for UDP, all for the port of the
  current endpoint; loops of an earlier allocation have ended, and after a stop none is left, whatever
  happens during the stop and after it.\<close>

theorem tunnel_loops_bounded:
  fixes es opts relay late
  defines "c \<equiv> foldl (rc_step opts) new_RelayShareClient es"
  defines "live \<equiv> filter (loop_live c) (rc_loops c)"
  defines "c' \<equiv> foldl (rc_step opts) (stop_request relay c) late"
  shows "length (filter loop_tcp live) \<le> 8 \<and> length (filter (\<lambda>l. \<not> loop_tcp l) live) \<le> 1 \<and>
     list_all (\<lambda>l. map_option ep_port (rc_endpoint c) = Some (loop_port l)) live \<and>
     filter (loop_live c') (rc_loops c') = []"
proof -
  have "rc_inv new_RelayShareClient" by (simp add: rc_inv_def new_RelayShareClient_def loops_ok_def current_def)
  then have inv: "rc_inv c" unfolding c_def by (rule rcm.run_good) (simp add: list_all_iff)
  have "rc_stopped c'" unfolding c'_def by (rule stopped_steps) (simp add: stop_request_def)
  then have "filter (loop_live c') (rc_loops c') = []" by (simp add: live_current)
  then show ?thesis
    using inv unfolding live_def live_current
    by (auto simp: rc_inv_def loops_ok_def TCP_TUNNEL_POOL_SIZE_def list_all_iff)
qed

section \<open>Error paths\<close>

text \<open>No allocation without a successful check. When a start fails before the relay has accepted
  the API and the token check, no CONNECT has been sent, no loop runs and the endpoint is as before.\<close>

lemma rejected_start_allocates_nothing:
  assumes "validateRelayApi relay opts c = (c1, Inl e)" and "validate_options opts = Inr ()"
  shows "start_client relay opts c = (c1, Inl e) \<and> rc_endpoint c1 = rc_endpoint c \<and> rc_loops c1 = rc_loops c \<and>
     (\<exists>k. rc_sent c1 = rc_sent c @ take k [line ''STATS'', line (''TOKEN '' @ token_of opts)])"
proof -
  have "\<exists>k. rc_sent c1 = rc_sent c @ take k [line ''STATS'', line (''TOKEN '' @ token_of opts)]"
    using assms(1)
    by (auto simp: validateRelayApi_def sendRelayCommand_def split: sum.splits if_splits
        intro: exI [of _ 1] exI [of _ 2])
  then show ?thesis using api_fields [OF assms(1)] assms by (simp add: start_client_def)
qed

definition sample_options :: RelayShareClientOptions where
  "sample_options = \<lparr>ro_relayAddress = ''relay:7000'', ro_token = Some '' secret '', ro_protocol = Tcp,
     ro_localHost = ''127.0.0.1'', ro_tcpLocalPort = Some (Fin 25565), ro_udpLocalPort = None, ro_haproxy = False\<rparr>"

definition refusing :: relay where
  "refusing cmd = Inr (if cmd = line ''STATS'' then ''STAT 1'' else ''ERROR invalid token'')"

section \<open>The UDP tunnel\<close>

text \<open>The locals of \<open>openUdpTunnel\<close>: the tunnel socket, the peers by remote address with their local
  sockets, what was sent to the local service from which socket, and what was written to the tunnel.\<close>

record udp_tunnel =
  ut_tunnel :: nat
  ut_peers :: "(byte list \<times> nat) list"
  ut_sent :: "(nat \<times> byte list) list"
  ut_written :: "byte list list"

definition openUdpTunnel ::
  "nat \<Rightarrow> unit res \<Rightarrow> unit res \<Rightarrow> string res \<Rightarrow> RelayShareClient \<Rightarrow> RelayShareClient \<times> udp_tunnel res" where
  "openUdpTunnel t conn wr ready c =
     (case conn of
        Inl e \<Rightarrow> (c, Inl e)
      | Inr _ \<Rightarrow>
          let c1 = trackSocket t c in
          (case wr of
             Inl e \<Rightarrow> (c1, Inl e)
           | Inr _ \<Rightarrow>
               (case ready of
                  Inl e \<Rightarrow> (c1, Inl e)
                | Inr s \<Rightarrow>
                    if s \<noteq> line ''READY'' then (destroy t c1, Inl (Error ''relay rejected UDP tunnel''))
                    else (c1\<lparr>rc_udpTunnel := True\<rparr>,
                          Inr \<lparr>ut_tunnel = t, ut_peers = [], ut_sent = [], ut_written = []\<rparr>))))"

text \<open>\<open>createUdpPeer\<close>: \<open>s\<close> is the socket the system hands out.\<close>

definition createUdpPeer :: "nat \<Rightarrow> byte list \<Rightarrow> RelayShareClient \<times> udp_tunnel \<Rightarrow> RelayShareClient \<times> udp_tunnel" where
  "createUdpPeer s remote = (\<lambda>(c, u).
     (c\<lparr>rc_udpSockets := rc_udpSockets c @ [s]\<rparr>, u\<lparr>ut_peers := AList.update remote s (ut_peers u)\<rparr>))"

text \<open>One round of the reading loop, on the frame it read.\<close>

definition udp_frame :: "nat \<Rightarrow> byte list \<times> byte list \<Rightarrow> RelayShareClient \<times> udp_tunnel \<Rightarrow> RelayShareClient \<times> udp_tunnel" where
  "udp_frame s frame = (\<lambda>(c, u).
     let c1 = c\<lparr>rc_bytesIn := rc_bytesIn c + length (snd frame)\<rparr>;
         (c2, u2) = (case map_of (ut_peers u) (fst frame) of
                       Some _ \<Rightarrow> (c1, u)
                     | None \<Rightarrow> createUdpPeer s (fst frame) (c1, u)) in
     case map_of (ut_peers u2) (fst frame) of
       Some sock \<Rightarrow> (c2, u2\<lparr>ut_sent := ut_sent u2 @ [(sock, snd frame)]\<rparr>)
     | None \<Rightarrow> (c2, u2))"

text \<open>The \<open>message\<close> handler of a peer's socket, which writes to the tunnel in the name of the remote
  the peer was created for; a payload the frame cannot carry raises and nothing is written.\<close>

definition udp_reply :: "nat \<Rightarrow> byte list \<Rightarrow> RelayShareClient \<times> udp_tunnel \<Rightarrow> RelayShareClient \<times> udp_tunnel" where
  "udp_reply sock payload = (\<lambda>(c, u).
     case find (\<lambda>p. snd p = sock) (ut_peers u) of
       None \<Rightarrow> (c, u)
     | Some (remote, _) \<Rightarrow>
         if rc_stopped c \<or> ut_tunnel u \<in> set (rc_destroyed c) then (c, u)
         else case encodeUdpFrame remote payload of
                Inl e \<Rightarrow> (c, u)
              | Inr frame \<Rightarrow> (c\<lparr>rc_bytesOut := rc_bytesOut c + length payload\<rparr>, u\<lparr>ut_written := ut_written u @ [frame]\<rparr>))"

definition udp_tunnel_end :: "RelayShareClient \<times> udp_tunnel \<Rightarrow> RelayShareClient" where
  "udp_tunnel_end = (\<lambda>(c, u).
     (untrackSocket (ut_tunnel u)
       (c\<lparr>rc_udpSockets := filter (\<lambda>s. s \<notin> snd ` set (ut_peers u)) (rc_udpSockets c)\<rparr>))\<lparr>rc_udpTunnel := False\<rparr>)"

datatype udp_event = UFrame nat "byte list \<times> byte list" | UReply nat "byte list"

fun udp_step :: "RelayShareClient \<times> udp_tunnel \<Rightarrow> udp_event \<Rightarrow> RelayShareClient \<times> udp_tunnel" where
  "udp_step cu (UFrame s f) = udp_frame s f cu"
| "udp_step cu (UReply s p) = udp_reply s p cu"

primrec socket_used :: "udp_event \<Rightarrow> nat option" where
  "socket_used (UFrame s f) = Some s"
| "socket_used (UReply s p) = None"

definition peers_ok :: "nat list \<Rightarrow> (byte list \<times> nat) list \<Rightarrow> bool" where
  "peers_ok used ps \<longleftrightarrow> distinct (map fst ps) \<and> distinct (map snd ps) \<and> snd ` set ps \<subseteq> set used"

lemma update_new: "map_of ps k = None \<Longrightarrow> AList.update k v ps = ps @ [(k, v)]"
  by (induction ps) (auto split: if_splits)

lemma udp_frame_peers:
  "ut_peers (snd (udp_frame s f (c, u))) =
     (if map_of (ut_peers u) (fst f) = None then ut_peers u @ [(fst f, s)] else ut_peers u)"
  by (auto simp: udp_frame_def createUdpPeer_def update_new Let_def split: option.split)

lemma udp_reply_peers: "ut_peers (snd (udp_reply s p (c, u))) = ut_peers u"
  by (auto simp: udp_reply_def split: option.split sum.split)

lemma peers_ok_step:
  assumes "peers_ok used (ut_peers (snd cu))" and "\<forall>s. socket_used e = Some s \<longrightarrow> s \<notin> set used"
  shows "peers_ok (used @ (case socket_used e of None \<Rightarrow> [] | Some s \<Rightarrow> [s])) (ut_peers (snd (udp_step cu e)))"
  using assms
  by (cases cu; cases e) (auto simp: peers_ok_def udp_frame_peers udp_reply_peers map_of_eq_None_iff)

lemma peers_ok_run:
  assumes "distinct (used @ List.map_filter socket_used es)" and "peers_ok used (ut_peers (snd cu))"
  shows "\<exists>used'. peers_ok used' (ut_peers (snd (foldl udp_step cu es)))"
  using assms
proof (induction es arbitrary: used cu)
  case Nil
  then show ?case by auto
next
  case (Cons e es)
  have "\<forall>s. socket_used e = Some s \<longrightarrow> s \<notin> set used" using Cons.prems(1) by (auto simp: List.map_filter_simps)
  from peers_ok_step [OF Cons.prems(2) this] show ?case
    using Cons.IH [of "used @ (case socket_used e of None \<Rightarrow> [] | Some s \<Rightarrow> [s])"] Cons.prems(1)
    by (auto simp: List.map_filter_simps split: option.splits)
qed

lemma find_peer:
  assumes "peers_ok used ps" and "map_of ps r = Some s"
  shows "find (\<lambda>p. snd p = s) ps = Some (r, s)"
proof -
  have "(r, s) \<in> set ps" using assms(2) by (rule map_of_SomeD)
  moreover have "distinct (map snd ps)" using assms(1) by (simp add: peers_ok_def)
  ultimately show ?thesis by (induction ps) (auto, force)
qed

text \<open>C28: Replies go back to the remote they answer. After any sequence of frames and replies, with every
  socket handed out fresh, a datagram the local service sends back to the socket of a remote is
  written to the tunnel as a frame that decodes to that remote and that payload, while the client
  runs and the tunnel is open.\<close>

theorem udp_reply_reaches_its_remote:
  fixes c u es
  defines "cu \<equiv> foldl udp_step (c, u) es"
  assumes "ut_peers u = []" and "distinct (List.map_filter socket_used es)"
    and "map_of (ut_peers (snd cu)) remote = Some sock" and "\<not> rc_stopped (fst cu)"
    and "ut_tunnel (snd cu) \<notin> set (rc_destroyed (fst cu))"
    and "length remote \<le> 65535" and "length payload \<le> 4294967295" and "payload \<noteq> []"
  shows "\<exists>frame. ut_written (snd (udp_reply sock payload cu)) = ut_written (snd cu) @ [frame] \<and>
     read_frames True [frame] = [(remote, payload)]"
proof -
  have "peers_ok [] (ut_peers (snd (c, u)))" using assms(2) by (simp add: peers_ok_def)
  from peers_ok_run [OF _ this, of es] obtain used where "peers_ok used (ut_peers (snd cu))"
    using assms(3) unfolding cu_def by auto
  then have f: "find (\<lambda>p. snd p = sock) (ut_peers (snd cu)) = Some (remote, sock)" using assms(4) by (rule find_peer)
  have e: "encodeUdpFrame remote payload = Inr (frame_bytes (remote, payload))"
    using assms(7,8) by (simp add: encode_frame_bytes)
  have "chunks_ok [frame_bytes (remote, payload)]" by (simp add: frame_bytes_def put16_def)
  then obtain cs' where cs: "readUdpFrame True [frame_bytes (remote, payload)] = Some ((remote, payload), cs')"
      "concat cs' = []" "chunks_ok cs'"
    using readUdpFrame_complete [of "[frame_bytes (remote, payload)]" remote payload "[]"] assms(7-9) by auto
  have "cs' = []" using cs(2,3) by (cases cs') auto
  then have "read_frames True [frame_bytes (remote, payload)] = [(remote, payload)]"
    using cs(1) by (subst read_frames.simps) simp
  then show ?thesis using f e assms(5,6) by (cases cu) (auto simp: udp_reply_def)
qed

theorem udp_reply_reaches_its_remote_witness:
  "\<exists>frame. ut_written (snd (udp_reply 9 [7]
       (foldl udp_step (new_RelayShareClient, \<lparr>ut_tunnel = 1, ut_peers = [], ut_sent = [], ut_written = []\<rparr>)
         [UFrame 8 ([65], [1]), UFrame 9 ([66], [2])]))) = [frame] \<and> read_frames True [frame] = [([66], [7])]"
  using udp_reply_reaches_its_remote [where c = new_RelayShareClient and es = "[UFrame 8 ([65], [1]), UFrame 9 ([66], [2])]"
      and u = "\<lparr>ut_tunnel = 1, ut_peers = [], ut_sent = [], ut_written = []\<rparr>" and remote = "[66]" and sock = 9 and payload = "[7]"]
  by (simp add: udp_frame_def createUdpPeer_def new_RelayShareClient_def List.map_filter_simps)

section \<open>Stopping during a heartbeat\<close>

text \<open>A stop during a heartbeat allocates again. When the client is stopped while the answer to a PING
  is awaited, the PING socket is closed by the stop and the heartbeat fails; the refresh that follows
  does not look at the stop: it sends CONNECT after the RELEASE of the stop, and nothing releases
  the new allocation.\<close>

lemma stop_during_ping_allocates:
  assumes "rc_pinging c" and "rc_endpoint c = Some ep" and "buildRelayTarget opts = Inr target"
    and "relay (line (''CONNECT '' @ target)) = Inr resp" and "parseConnectResponse resp = Inr (host, port)"
    and "answer = Inl e \<or> answer = Inr []"
  shows "\<exists>c'. c' = refresh_finish relay opts (heartbeat_answer relay answer (stop_finish (stop_request relay c))) \<and>
     rc_stopped c' \<and> map_option ep_port (rc_endpoint c') = Some port \<and>
     (let rel = line (''RELEASE '' @ show_nat (ep_port ep)) in
      rc_sent c' = rc_sent c @ [rel, rel, line (''CONNECT '' @ target)])"
  using assms
  by (auto simp: stop_request_def stop_finish_def heartbeat_answer_def refresh_begin_def refresh_finish_def release_def destroy_all_def
      allocateRelayEndpoint_def startTunnelLoops_def sendRelayCommand_def Let_def trim_def)

definition granting :: relay where
  "granting cmd = Inr (''OK '' @ show_nat 40001 @ '' '' @ ''example.org'' @ '':'' @ show_nat 40001 @ [CHR 0x0A])"

end
