(* ===== verification/ProxyHeader.thy ===== *)
theory ProxyHeader
  imports NetAddr RelayWire
begin

text \<open>
  The PROXY protocol header of \<open>FerrumClient/src/sharedServiceManager.ts\<close>: the normalisation of an
  address, its bytes, and the version 2 header for a stream or a datagram. The reader
  \<open>proxy_v2_read\<close> is the receiving side of the protocol, against which the header is checked.
\<close>

section \<open>Addresses\<close>

definition normalizeIpAddress :: "string \<Rightarrow> string" where
  "normalizeIpAddress address =
     (let trimmed = trim (if startsWith address ''::ffff:'' then drop 7 address else address) in
      if isIP trimmed \<noteq> 0 then trimmed else ''127.0.0.1'')"

text \<open>\<open>parseInt(s, 16)\<close>\<close>

definition hex_digits_val :: "string \<Rightarrow> nat" where
  "hex_digits_val s = foldl (\<lambda>n c. 16 * n + hex_val c) 0 s"

definition hex_prefix :: "string \<Rightarrow> int option" where
  "hex_prefix s =
     (let t = (case s of a # b # r \<Rightarrow> if a = CHR ''0'' \<and> (b = CHR ''x'' \<or> b = CHR ''X'') then r else s | _ \<Rightarrow> s);
          ds = takeWhile is_hex t in
      if ds = [] then None else Some (int (hex_digits_val ds)))"

definition parseInt16 :: "string \<Rightarrow> int option" where
  "parseInt16 s =
     (case dropWhile is_ws s of
        [] \<Rightarrow> None
      | c # cs \<Rightarrow>
          if c = CHR ''-'' then map_option uminus (hex_prefix cs)
          else if c = CHR ''+'' then hex_prefix cs
          else hex_prefix (c # cs))"

definition padStart4 :: "string \<Rightarrow> string" where
  "padStart4 s = replicate (4 - length s) (CHR ''0'') @ s"

definition colon_parts :: "string \<Rightarrow> string list" where
  "colon_parts s = (if s = [] then [] else split_char (CHR '':'') s)"

definition expandIpv6 :: "string \<Rightarrow> string list" where
  "expandIpv6 address =
     (let (left, right) =
            (case find_dcolon address of
               None \<Rightarrow> (address, [])
             | Some (l, r) \<Rightarrow> (l, case find_dcolon r of None \<Rightarrow> r | Some (r1, r2) \<Rightarrow> r1));
          leftParts = colon_parts left; rightParts = colon_parts right;
          fill = replicate (8 - length leftParts - length rightParts) ''0'' in
      map padStart4 (leftParts @ fill @ rightParts))"

text \<open>\<open>writeUInt16BE\<close> of the parts one after the other into sixteen bytes; a value or an offset out
  of range raises.\<close>

definition group_bytes :: "string \<Rightarrow> byte list res" where
  "group_bytes part =
     (let v = (case parseInt16 part of None \<Rightarrow> 0 | Some n \<Rightarrow> n) in
      if v < 0 \<or> 65535 < v then Inl RangeError else Inr (put16 (nat v)))"

definition ipToBytes :: "string \<Rightarrow> byte list res" where
  "ipToBytes address =
     (if isIPv4 address then Inr (map (\<lambda>part. word_of_nat (dec_val part)) (split_char (CHR ''.'') address))
      else
        let expanded = expandIpv6 address in
        bindE (mapE group_bytes (take 8 expanded)) (\<lambda>gs.
        if 8 < length expanded then Inl RangeError
        else Inr (concat gs @ replicate (16 - 2 * length gs) 0)))"

definition ipv4ToMappedIpv6 :: "byte list \<Rightarrow> byte list" where
  "ipv4ToMappedIpv6 bytes = replicate 10 0 @ [255, 255] @ bytes"

definition clampPort :: "jsnum \<Rightarrow> nat" where
  "clampPort port = (if num_is_int port \<and> \<not> js_less port (Fin 0) \<and> \<not> js_less (Fin 65535) port then num_nat port else 0)"

section \<open>The header\<close>

definition PROXY_V2_SIGNATURE :: "byte list" where
  "PROXY_V2_SIGNATURE = [13, 10, 13, 10, 0, 13, 10, 81, 85, 73, 84, 10]"

definition PROXY_V2_COMMAND :: byte where "PROXY_V2_COMMAND = 0x21"
definition PROXY_V2_INET_STREAM :: byte where "PROXY_V2_INET_STREAM = 0x11"
definition PROXY_V2_INET_DGRAM :: byte where "PROXY_V2_INET_DGRAM = 0x12"
definition PROXY_V2_INET6_STREAM :: byte where "PROXY_V2_INET6_STREAM = 0x21"
definition PROXY_V2_INET6_DGRAM :: byte where "PROXY_V2_INET6_DGRAM = 0x22"

definition to16 :: "byte list \<Rightarrow> byte list" where
  "to16 bs = (if length bs = 16 then bs else ipv4ToMappedIpv6 bs)"

definition buildProxyV2Header :: "string \<Rightarrow> jsnum \<Rightarrow> string \<Rightarrow> jsnum \<Rightarrow> bool \<Rightarrow> byte list res" where
  "buildProxyV2Header sourceAddress sourcePort destinationAddress destinationPort datagram =
     bindE (ipToBytes (normalizeIpAddress sourceAddress)) (\<lambda>src.
     bindE (ipToBytes (normalizeIpAddress destinationAddress)) (\<lambda>dst.
     let sameFamily = length src = length dst;
         useIpv4 = (sameFamily \<and> length src = 4);
         headerLength = (if useIpv4 then 12 else 36);
         family = (if useIpv4 then (if datagram then PROXY_V2_INET_DGRAM else PROXY_V2_INET_STREAM)
                   else (if datagram then PROXY_V2_INET6_DGRAM else PROXY_V2_INET6_STREAM)) in
     Inr (PROXY_V2_SIGNATURE @ [PROXY_V2_COMMAND, family] @ put16 headerLength @
       (if useIpv4 then src @ dst else to16 src @ to16 dst) @
       put16 (clampPort sourcePort) @ put16 (clampPort destinationPort))))"

text \<open>The receiving side: signature, command, family, length, then the addresses and ports.\<close>

definition proxy_v2_read :: "byte list \<Rightarrow> (bool \<times> byte list \<times> byte list \<times> nat \<times> nat) option" where
  "proxy_v2_read h =
     (if take 13 h = PROXY_V2_SIGNATURE @ [0x21] \<and> 16 \<le> length h
      then
        let fam = h ! 13; body = drop 16 h;
            n = (if fam = 0x11 \<or> fam = 0x12 then 4 else if fam = 0x21 \<or> fam = 0x22 then 16 else 0) in
        if n = 0 \<or> get_be (take 2 (drop 14 h)) \<noteq> 2 * n + 4 \<or> length body \<noteq> 2 * n + 4 then None
        else Some (fam = 0x12 \<or> fam = 0x22, take n body, take n (drop n body),
                   get_be (take 2 (drop (2 * n) body)), get_be (drop (2 * n + 2) body))
      else None)"

section \<open>Bounds of the groups\<close>

lemma hex_val_less: "is_hex c \<Longrightarrow> hex_val c < 16"
  by (auto simp: is_hex_def hex_val_def is_digit_def)

lemma hex_digits_val_snoc: "hex_digits_val (s @ [c]) = 16 * hex_digits_val s + hex_val c"
  by (simp add: hex_digits_val_def)

lemma hex_digits_val_less: "list_all is_hex s \<Longrightarrow> hex_digits_val s < 16 ^ length s"
proof (induction s rule: rev_induct)
  case Nil
  show ?case by (simp add: hex_digits_val_def)
next
  case (snoc c s)
  then have "hex_digits_val s + 1 \<le> 16 ^ length s" "hex_val c < 16" using hex_val_less by auto
  then show ?case by (simp add: hex_digits_val_snoc)
qed

lemma hex_digits_val_zeros: "hex_digits_val (replicate k (CHR ''0'') @ s) = hex_digits_val s"
proof -
  have "foldl (\<lambda>n c. 16 * n + hex_val c) 0 (replicate k (CHR ''0'')) = 0" by (induction k) (simp_all add: hex_val_def is_digit_def)
  then show ?thesis by (simp add: hex_digits_val_def)
qed

lemma hex_chars:
  assumes "is_hex c"
  shows "\<not> is_ws c" "c \<noteq> CHR ''-''" "c \<noteq> CHR ''+''" "c \<noteq> CHR ''x''" "c \<noteq> CHR ''X''" "c \<noteq> CHR '':''"
  using assms by (auto simp: is_hex_def is_digit_def is_ws_def)

lemma hex_prefix_strip:
  "\<forall>a b r. s = a # b # r \<longrightarrow> b \<noteq> CHR ''x'' \<and> b \<noteq> CHR ''X'' \<Longrightarrow>
     hex_prefix s = (if takeWhile is_hex s = [] then None else Some (int (hex_digits_val (takeWhile is_hex s))))"
  by (auto simp: hex_prefix_def Let_def split: list.splits)

lemma parse_hex_start:
  assumes "is_hex a" and "\<forall>b r. s = b # r \<longrightarrow> b \<noteq> CHR ''x'' \<and> b \<noteq> CHR ''X''"
  shows "parseInt16 (a # s) = Some (int (hex_digits_val (a # takeWhile is_hex s)))"
  using assms hex_chars [OF assms(1)] hex_prefix_strip [of "a # s"] by (simp add: parseInt16_def)

lemma parse_pad_hex:
  assumes "list_all is_hex s" and "s \<noteq> []"
  shows "parseInt16 (padStart4 s) = Some (int (hex_digits_val s))"
proof -
  have zero: "is_hex (CHR ''0'')" by code_simp
  have all: "list_all is_hex (padStart4 s)" using assms zero by (auto simp: padStart4_def list_all_iff)
  obtain a r where ar: "padStart4 s = a # r" using assms(2) by (cases "padStart4 s") (auto simp: padStart4_def)
  have h: "is_hex a" "list_all is_hex r" using all ar by simp_all
  then have "takeWhile is_hex r = r" by (simp add: list_all_iff)
  moreover have "\<forall>b t. r = b # t \<longrightarrow> b \<noteq> CHR ''x'' \<and> b \<noteq> CHR ''X''" using h(2) hex_chars(4,5) by (cases r) auto
  ultimately have "parseInt16 (padStart4 s) = Some (int (hex_digits_val (padStart4 s)))"
    using parse_hex_start [OF h(1), of r] ar by metis
  then show ?thesis by (simp add: padStart4_def hex_digits_val_zeros)
qed

lemma group_bytes_hex:
  assumes "list_all is_hex s" and "s \<noteq> []" and "hex_digits_val s \<le> 65535"
  shows "group_bytes (padStart4 s) = Inr (put16 (hex_digits_val s))"
  using assms by (simp add: group_bytes_def parse_pad_hex)

lemma seg_bytes: "v6_seg s \<Longrightarrow> group_bytes (padStart4 s) = Inr (put16 (hex_digits_val s))"
proof (rule group_bytes_hex)
  assume s: "v6_seg s"
  then have "hex_digits_val s < 16 ^ length s" by (intro hex_digits_val_less) (simp add: v6_seg_def)
  also have "(16 :: nat) ^ length s \<le> 16 ^ 4" using s by (intro power_increasing) (simp_all add: v6_seg_def)
  finally show "hex_digits_val s \<le> 65535" by simp
qed (simp_all add: v6_seg_def)

section \<open>The header is always built\<close>

lemma split_char_first: "split_char c s = p # q # ps \<Longrightarrow> \<exists>r. s = p @ c # r \<and> split_char c r = q # ps"
proof (induction s arbitrary: p)
  case (Cons x s)
  show ?case
  proof (cases "x = c")
    case True
    then show ?thesis using Cons.prems by auto
  next
    case False
    then obtain p' where "split_char c s = p' # q # ps" "p = x # p'" using Cons.prems by (auto split: list.splits)
    then show ?thesis using Cons.IH by auto
  qed
qed simp

lemma quad_group_ok:
  assumes "isIPv4 s"
  shows "\<exists>v. group_bytes (padStart4 s) = Inr (put16 v)"
proof -
  obtain p q ps where sp: "split_char (CHR ''.'') s = p # q # ps" and o: "v4_octet p"
    using assms by (auto simp: isIPv4_def Let_def numeral_eq_Suc length_Suc_conv)
  then obtain r where r: "s = p @ CHR ''.'' # r" using split_char_first by blast
  have dot: "\<not> is_hex (CHR ''.'')" "is_hex (CHR ''0'')" by code_simp+
  have len: "length p \<le> 3" "p \<noteq> []" "list_all is_hex p"
    using o by (auto simp: v4_octet_def all_digits_def list_all_iff is_hex_def)
  let ?z = "replicate (4 - length s) (CHR ''0'') @ p"
  have z: "list_all is_hex ?z" using len dot by (auto simp: list_all_iff)
  obtain a s' where a: "?z = a # s'" using len(2) by (cases ?z) auto
  have pad: "padStart4 s = a # s' @ CHR ''.'' # r" using r a by (simp add: padStart4_def)
  have "takeWhile is_hex (s' @ CHR ''.'' # r) = s'" using z dot a by (simp add: list_all_iff takeWhile_append)
  moreover have "\<forall>b t. s' @ CHR ''.'' # r = b # t \<longrightarrow> b \<noteq> CHR ''x'' \<and> b \<noteq> CHR ''X''"
    using z a hex_chars(4,5) by (cases s') (auto simp: list_all_iff)
  ultimately have "parseInt16 (padStart4 s) = Some (int (hex_digits_val p))"
    using parse_hex_start [of a "s' @ CHR ''.'' # r"] z pad a hex_digits_val_zeros by (metis list.pred_inject(2))
  moreover have "hex_digits_val p < 16 ^ length p" using len(3) by (rule hex_digits_val_less)
  moreover have "(16 :: nat) ^ length p \<le> 16 ^ 3" using len(1) by (intro power_increasing) auto
  ultimately have "group_bytes (padStart4 s) = Inr (put16 (hex_digits_val p))" by (simp add: group_bytes_def)
  then show ?thesis by blast
qed

lemma v6_parts:
  assumes "v6_groups tail s = Some n"
  shows "[] \<notin> set (colon_parts s) \<and> length (colon_parts s) \<le> n \<and> n \<le> length (colon_parts s) + 1 \<and>
     (\<forall>part \<in> set (colon_parts s). \<exists>v. group_bytes (padStart4 part) = Inr (put16 v))"
proof (cases "s = []")
  case True
  then show ?thesis using assms by (simp add: v6_groups_def colon_parts_def)
next
  case False
  let ?ps = "split_char (CHR '':'') s"
  have ok: "p \<noteq> [] \<and> (\<exists>v. group_bytes (padStart4 p) = Inr (put16 v))" if "v6_seg p \<or> isIPv4 p" for p
  proof -
    have "\<not> isIPv4 []" by code_simp
    then show ?thesis using that seg_bytes quad_group_ok by (auto simp: v6_seg_def)
  qed
  have "list_all (\<lambda>p. v6_seg p \<or> isIPv4 p) ?ps \<and> length ?ps \<le> n \<and> n \<le> length ?ps + 1"
  proof (cases "list_all v6_seg ?ps")
    case True
    then show ?thesis using assms False by (auto simp: v6_groups_def Let_def list_all_iff)
  next
    case nall: False
    then have b: "list_all v6_seg (butlast ?ps)" "isIPv4 (last ?ps)" "n = length ?ps + 1"
      using assms False by (auto simp: v6_groups_def Let_def split: if_splits)
    have "?ps \<noteq> []" using nall by auto
    then have "set ?ps = set (butlast ?ps) \<union> {last ?ps}" by (metis append_butlast_last_id list.simps(15) set_append set_empty)
    then have "list_all (\<lambda>p. v6_seg p \<or> isIPv4 p) ?ps" using b(1,2) by (auto simp: list_all_iff)
    then show ?thesis using b(3) by simp
  qed
  then show ?thesis using False ok by (auto simp: colon_parts_def list_all_iff)
qed

lemma find_dcolon_part: "find_dcolon s = Some (l, r) \<Longrightarrow> [] \<in> set (tl (split_char (CHR '':'') s))"
proof (induction s arbitrary: l rule: find_dcolon.induct)
  case (1 a b s)
  show ?case
  proof (cases "a = CHR '':'' \<and> b = CHR '':''")
    case False
    then obtain l' where "find_dcolon (b # s) = Some (l', r)" using "1.prems" by (auto split: if_splits)
    then have "[] \<in> set (tl (split_char (CHR '':'') (b # s)))" using "1.IH" [OF False] by blast
    then show ?thesis by (cases "split_char (CHR '':'') (b # s)") (auto split: if_splits)
  qed simp
qed simp_all

lemma no_dcolon: "[] \<notin> set (colon_parts s) \<Longrightarrow> find_dcolon s = None"
  using find_dcolon_part [of s] list.set_sel(2) [of "split_char (CHR '':'') s" "[]"]
  by (cases "find_dcolon s"; cases "split_char (CHR '':'') s") (auto simp: colon_parts_def split: if_splits)

lemma group_zero: "group_bytes (padStart4 ''0'') = Inr (put16 0)"
  by code_simp

lemma mapE_groups:
  "\<forall>p \<in> set ps. \<exists>v. group_bytes p = Inr (put16 v) \<Longrightarrow> \<exists>gs. mapE group_bytes ps = Inr gs \<and> length gs = length ps \<and> length (concat gs) = 2 * length ps"
  by (induction ps) (auto simp: bindE_def)

lemma v6_body_bytes:
  assumes "v6_body s" and "\<not> isIPv4 s"
  shows "\<exists>b. ipToBytes s = Inr b \<and> length b = 16"
proof -
  have "length (expandIpv6 s) = 8 \<and> (\<forall>p \<in> set (expandIpv6 s). \<exists>v. group_bytes p = Inr (put16 v))"
  proof (cases "find_dcolon s")
    case None
    then have "v6_groups True s = Some 8" using assms(1) by (simp add: v6_body_def)
    from v6_parts [OF this] show ?thesis using None group_zero by (auto simp: expandIpv6_def colon_parts_def Let_def)
  next
    case (Some lr)
    then obtain l r where lr: "find_dcolon s = Some (l, r)" by (cases lr) auto
    then obtain a b where g: "v6_groups False l = Some a" "v6_groups True r = Some b" "a + b \<le> 7"
      using assms(1) by (auto simp: v6_body_def split: option.splits)
    have "find_dcolon r = None" using v6_parts [OF g(2)] by (intro no_dcolon) simp
    then show ?thesis using lr v6_parts [OF g(1)] v6_parts [OF g(2)] g(3) group_zero by (auto simp: expandIpv6_def Let_def)
  qed
  then show ?thesis using mapE_groups [of "expandIpv6 s"] assms(2) by (auto simp: ipToBytes_def Let_def)
qed

lemma isIP_bytes:
  assumes "isIP s \<noteq> 0" and "CHR ''%'' \<notin> set s"
  shows "\<exists>b. ipToBytes s = Inr b \<and> (length b = 4 \<or> length b = 16)"
proof (cases "isIPv4 s")
  case True
  then show ?thesis by (simp add: ipToBytes_def isIPv4_def Let_def)
next
  case False
  have "split_char (CHR ''%'') s = [s]" using assms(2) by (rule split_char_notin)
  then have "v6_body s" using assms(1) False by (simp add: isIP_def isIPv6_def split: if_splits)
  then show ?thesis using v6_body_bytes False by blast
qed

lemma normalize_ok: "isIP (normalizeIpAddress s) \<noteq> 0" "set (normalizeIpAddress s) \<subseteq> set s \<union> set ''127.0.0.1''"
proof -
  have "isIP ''127.0.0.1'' \<noteq> 0" by code_simp
  then show "isIP (normalizeIpAddress s) \<noteq> 0" by (simp add: normalizeIpAddress_def Let_def)
  show "set (normalizeIpAddress s) \<subseteq> set s \<union> set ''127.0.0.1''"
    using set_trim [of s] set_trim [of "drop 7 s"] set_drop_subset [of 7 s]
    by (auto simp: normalizeIpAddress_def Let_def)
qed

lemma clampPort_le: "clampPort n \<le> 65535"
proof (cases n)
  case (Fin q)
  then show ?thesis by (auto simp: clampPort_def num_nat_def not_less floor_le_iff nat_le_iff dest!: le_floor_iff [THEN iffD2])
qed (auto simp: clampPort_def)

lemma header_read:
  assumes "length s = n" and "length d = n" and "n = 4 \<or> n = 16" and "sp \<le> 65535" and "dp \<le> 65535"
    and "fam = (if n = 4 then 0x11 else 0x21) + (if dg then 1 else 0)"
  shows "proxy_v2_read (PROXY_V2_SIGNATURE @ [PROXY_V2_COMMAND, fam] @ put16 (2 * n + 4) @ (s @ d) @ put16 sp @ put16 dp) =
     Some (dg, s, d, sp, dp)"
proof -
  let ?pre = "PROXY_V2_SIGNATURE @ [PROXY_V2_COMMAND]" and ?body = "s @ d @ put16 sp @ put16 dp"
  let ?h = "PROXY_V2_SIGNATURE @ [PROXY_V2_COMMAND, fam] @ put16 (2 * n + 4) @ (s @ d) @ put16 sp @ put16 dp"
  have pre: "length ?pre = 13" by (simp add: PROXY_V2_SIGNATURE_def)
  have h: "?h = ?pre @ fam # put16 (2 * n + 4) @ ?body" by simp
  have "take 13 ?h = PROXY_V2_SIGNATURE @ [0x21]" unfolding h using pre by (simp add: PROXY_V2_COMMAND_def)
  moreover have "?h ! 13 = fam" unfolding h using pre by (simp add: nth_append)
  moreover have "take 2 (drop 14 ?h) = put16 (2 * n + 4)" unfolding h using pre by simp
  moreover have "drop 16 ?h = ?body" unfolding h using pre by simp
  moreover have "16 \<le> length ?h" unfolding h using pre by simp
  moreover have "get_be (put16 (2 * n + 4)) = 2 * n + 4" using assms(3) by (intro get_be_put16) auto
  moreover have "take n ?body = s" "take n (drop n ?body) = d" "take 2 (drop (2 * n) ?body) = put16 sp"
    "drop (2 * n + 2) ?body = put16 dp" "length ?body = 2 * n + 4" using assms(1,2) by simp_all
  moreover have "(if fam = 0x11 \<or> fam = 0x12 then 4 else if fam = 0x21 \<or> fam = 0x22 then 16 else 0) = n"
    "(fam = 0x12 \<or> fam = 0x22) = dg" using assms(3,6) by auto
  ultimately show ?thesis
    using assms(3-6) get_be_put16 [of sp] get_be_put16 [of dp] unfolding proxy_v2_read_def Let_def by auto
qed

lemma header_of:
  assumes "ipToBytes (normalizeIpAddress src) = Inr s" and "length s = 4 \<or> length s = 16"
    and "ipToBytes (normalizeIpAddress dst) = Inr d" and "length d = 4 \<or> length d = 16"
  shows "\<exists>h. buildProxyV2Header src sp dst dp dg = Inr h \<and> (length h = 28 \<or> length h = 52) \<and>
     proxy_v2_read h = (if length s = 4 \<and> length d = 4 then Some (dg, s, d, clampPort sp, clampPort dp)
       else Some (dg, to16 s, to16 d, clampPort sp, clampPort dp))"
proof (cases "length s = 4 \<and> length d = 4")
  case True
  then have "buildProxyV2Header src sp dst dp dg = Inr (PROXY_V2_SIGNATURE @ [PROXY_V2_COMMAND, 0x11 + (if dg then 1 else 0)] @
      put16 (2 * 4 + 4) @ (s @ d) @ put16 (clampPort sp) @ put16 (clampPort dp))"
    using assms by (simp add: buildProxyV2Header_def bindE_def PROXY_V2_INET_DGRAM_def PROXY_V2_INET_STREAM_def)
  then show ?thesis using header_read [of s 4 d, OF _ _ _ clampPort_le clampPort_le, of _ dg] True
    by (simp add: PROXY_V2_SIGNATURE_def)
next
  case False
  have l: "length (to16 s) = 16" "length (to16 d) = 16" using assms by (auto simp: to16_def ipv4ToMappedIpv6_def)
  have "buildProxyV2Header src sp dst dp dg = Inr (PROXY_V2_SIGNATURE @ [PROXY_V2_COMMAND, 0x21 + (if dg then 1 else 0)] @
      put16 (2 * 16 + 4) @ (to16 s @ to16 d) @ put16 (clampPort sp) @ put16 (clampPort dp))"
    using False assms by (auto simp: buildProxyV2Header_def bindE_def Let_def PROXY_V2_INET6_DGRAM_def PROXY_V2_INET6_STREAM_def)
  then show ?thesis using header_read [OF l _ clampPort_le clampPort_le, of _ dg] l False
    by (auto simp: PROXY_V2_SIGNATURE_def)
qed

text \<open>C29: A PROXY header is always built. For every source and destination text without a zone (host names
  and malformed text included) and every port number, the header exists, has the IPv4 or the IPv6
  length, and the receiving side accepts it and reads the ports that were clamped.\<close>

theorem proxy_header_total:
  assumes "CHR ''%'' \<notin> set src" and "CHR ''%'' \<notin> set dst"
  shows "\<exists>h a b. buildProxyV2Header src sp dst dp dg = Inr h \<and> (length h = 28 \<or> length h = 52) \<and>
     proxy_v2_read h = Some (dg, a, b, clampPort sp, clampPort dp)"
proof -
  have no: "CHR ''%'' \<notin> set (normalizeIpAddress s)" if "CHR ''%'' \<notin> set s" for s
    using normalize_ok(2) [of s] that by auto
  obtain s d where s: "ipToBytes (normalizeIpAddress src) = Inr s" "length s = 4 \<or> length s = 16"
    and d: "ipToBytes (normalizeIpAddress dst) = Inr d" "length d = 4 \<or> length d = 16"
    using isIP_bytes [OF normalize_ok(1) no] assms by metis
  show ?thesis using header_of [OF s d, of sp dp dg] by (auto split: if_splits)
qed

theorem proxy_header_total_witness:
  "\<exists>h a b. buildProxyV2Header ''not an address'' (Fin (1 / 2)) ''::1'' NaN True = Inr h \<and> (length h = 28 \<or> length h = 52) \<and>
     proxy_v2_read h = Some (True, a, b, clampPort (Fin (1 / 2)), clampPort NaN)"
  by (rule proxy_header_total) simp_all

section \<open>The addresses in the header\<close>

definition hex_digit :: "nat \<Rightarrow> char" where
  "hex_digit n = (if n < 10 then char_of (48 + n) else char_of (87 + n))"

fun show_hex :: "nat \<Rightarrow> string" where
  "show_hex n = (if n < 16 then [hex_digit n] else show_hex (n div 16) @ [hex_digit (n mod 16)])"

declare show_hex.simps [simp del]

definition v6_text :: "nat list \<Rightarrow> nat list \<Rightarrow> string" where
  "v6_text L R = join_with '':'' (map show_hex L) @ ''::'' @ join_with '':'' (map show_hex R)"

lemma hex_digit_ok: "n < 16 \<Longrightarrow> is_hex (hex_digit n) \<and> hex_val (hex_digit n) = n"
  by (auto simp: hex_digit_def is_hex_def hex_val_def is_digit_def of_char_of take_bit_eq_mod)

lemma show_hex_ok: "list_all is_hex (show_hex n) \<and> show_hex n \<noteq> [] \<and> hex_digits_val (show_hex n) = n"
proof (induction n rule: show_hex.induct)
  case (1 n)
  show ?case
  proof (cases "n < 16")
    case True
    then show ?thesis by (simp add: show_hex.simps [of n] hex_digit_ok hex_digits_val_def)
  next
    case False
    then show ?thesis using 1 hex_digit_ok [of "n mod 16"] by (simp add: show_hex.simps [of n] hex_digits_val_snoc)
  qed
qed

lemma show_hex_bytes: "n \<le> 65535 \<Longrightarrow> group_bytes (padStart4 (show_hex n)) = Inr (put16 n)"
  using show_hex_ok [of n] by (simp add: group_bytes_hex)

lemma show_hex_chars: "CHR '':'' \<notin> set (show_hex n)" "CHR ''.'' \<notin> set (show_hex n)"
  using show_hex_ok [of n] by (auto simp: list_all_iff is_hex_def is_digit_def)

lemma find_dcolon_word:
  "CHR '':'' \<notin> set w \<Longrightarrow> w \<noteq> [] \<Longrightarrow> s \<noteq> [] \<Longrightarrow> hd s \<noteq> CHR '':'' \<Longrightarrow>
     find_dcolon (w @ CHR '':'' # s) = map_option (\<lambda>(l, r). (w @ CHR '':'' # l, r)) (find_dcolon s)"
proof (induction w)
  case (Cons a w)
  show ?case
  proof (cases w)
    case Nil
    then show ?thesis using Cons.prems by (cases s) (auto simp: option.map_comp comp_def case_prod_unfold)
  next
    case (Cons b w')
    then show ?thesis using Cons.IH Cons.prems by (auto simp: option.map_comp comp_def case_prod_unfold)
  qed
qed simp

lemma find_dcolon_end: "CHR '':'' \<notin> set w \<Longrightarrow> find_dcolon (w @ ''::'' @ s) = Some (w, s)"
proof (induction w)
  case (Cons a w)
  then show ?case by (cases w) auto
qed simp

lemma find_dcolon_join:
  "\<forall>w \<in> set ws. CHR '':'' \<notin> set w \<and> w \<noteq> [] \<Longrightarrow> find_dcolon (join_with '':'' ws @ ''::'' @ s) = Some (join_with '':'' ws, s)"
proof (induction "'':''" ws rule: join_with.induct)
  case (2 l)
  then show ?case using find_dcolon_end [of l s] by simp
next
  case (3 l l' ls)
  let ?t = "join_with '':'' (l' # ls) @ ''::'' @ s"
  have "l' \<noteq> [] \<and> hd l' \<noteq> CHR '':''" using 3(2) by (cases l') auto
  then have "?t \<noteq> []" "hd ?t \<noteq> CHR '':''" by (cases ls; simp)+
  then show ?case using 3 find_dcolon_word [of l ?t] by simp
qed (simp add: find_dcolon_end [of "[]", simplified])

lemma colon_parts_join:
  assumes "\<forall>w \<in> set ws. CHR '':'' \<notin> set w \<and> w \<noteq> []"
  shows "colon_parts (join_with '':'' ws) = ws"
proof (cases ws)
  case (Cons w ws')
  then have "join_with '':'' ws \<noteq> []" using assms by (cases ws') auto
  then show ?thesis using Cons assms split_char_join_with [of ws "CHR '':''"] by (simp add: colon_parts_def)
qed (simp add: colon_parts_def)

lemma mapE_put: "\<forall>n \<in> set ns. n \<le> 65535 \<Longrightarrow> mapE group_bytes (map (\<lambda>n. padStart4 (show_hex n)) ns) = Inr (map put16 ns)"
  by (induction ns) (auto simp: show_hex_bytes bindE_def)

lemma join_no_dot: "\<forall>w \<in> set ws. CHR ''.'' \<notin> set w \<Longrightarrow> CHR ''.'' \<notin> set (join_with '':'' ws)"
  by (induction "'':''" ws rule: join_with.induct) auto

lemma ipToBytes_v6_text:
  assumes "length L + length R \<le> 7" and "\<forall>g \<in> set (L @ R). g \<le> 65535"
  shows "ipToBytes (v6_text L R) = Inr (concat (map put16 (L @ replicate (8 - length L - length R) 0 @ R)))"
proof -
  let ?ns = "L @ replicate (8 - length L - length R) 0 @ R"
  have ok: "\<forall>w \<in> set (map show_hex ns). CHR '':'' \<notin> set w \<and> w \<noteq> []" for ns using show_hex_ok show_hex_chars by auto
  have "CHR ''.'' \<notin> set (v6_text L R)"
    using join_no_dot [of "map show_hex L"] join_no_dot [of "map show_hex R"] show_hex_chars by (simp add: v6_text_def)
  then have "split_char (CHR ''.'') (v6_text L R) = [v6_text L R]" by (rule split_char_notin)
  then have n4: "\<not> isIPv4 (v6_text L R)" by (simp add: isIPv4_def)
  have f: "find_dcolon (v6_text L R) = Some (join_with '':'' (map show_hex L), join_with '':'' (map show_hex R))"
    unfolding v6_text_def by (rule find_dcolon_join [OF ok])
  have "find_dcolon (join_with '':'' (map show_hex R)) = None"
    using colon_parts_join [OF ok, of R] ok [of R] by (intro no_dcolon) auto
  moreover have "''0'' = show_hex 0" by code_simp
  ultimately have "expandIpv6 (v6_text L R) = map (\<lambda>n. padStart4 (show_hex n)) ?ns"
    using f colon_parts_join [OF ok, of L] colon_parts_join [OF ok, of R] by (simp add: expandIpv6_def Let_def)
  moreover have "length ?ns = 8" using assms(1) by simp
  moreover have "\<forall>n \<in> set ?ns. n \<le> 65535" using assms(2) by auto
  ultimately show ?thesis using n4 mapE_put [of ?ns] by (simp add: ipToBytes_def bindE_def Let_def)
qed

lemma normalize_quad:
  assumes "a \<le> 255" and "b \<le> 255" and "c \<le> 255" and "d \<le> 255" and "pre = [] \<or> pre = ''::ffff:''"
  shows "ipToBytes (normalizeIpAddress (pre @ quad a b c d)) = Inr (map word_of_nat [a, b, c, d])"
proof -
  have ip: "isIP (quad a b c d) = 4" using assms by (intro quad_isIP)
  have nn: "show_nat n \<noteq> []" for n using all_digits_show_nat [of n] by (simp add: all_digits_def)
  have ends: "\<not> is_ws (hd (show_nat n))" "\<not> is_ws (last (show_nat n))" for n
    using no_ws_show_nat [of n] nn [of n] by (simp_all add: no_ws_def list_all_iff)
  have ne: "quad a b c d \<noteq> []" "\<not> is_ws (hd (quad a b c d))" "\<not> is_ws (last (quad a b c d))"
    using nn ends by (simp_all add: quad_def)
  have "\<not> is_digit (CHR '':'')" "hd (quad a b c d) = hd (show_nat a)" using nn by (simp_all add: quad_def is_digit_def)
  then have "hd (quad a b c d) \<noteq> CHR '':''" using show_nat_no_char hd_in_set [OF nn] by metis
  then have "\<not> startsWith (quad a b c d) ''::ffff:''"
    by (cases "quad a b c d") (auto simp: startsWith_def)
  then have "normalizeIpAddress (pre @ quad a b c d) = quad a b c d"
    using assms(5) trim_id [of "quad a b c d"] ne ip by (auto simp: normalizeIpAddress_def startsWith_def Let_def)
  moreover have "isIPv4 (quad a b c d)" using ip by (simp add: isIP_def split: if_splits)
  ultimately show ?thesis by (simp add: ipToBytes_def split_quad dec_val_show_nat)
qed

lemma clampPort_nat: "n \<le> 65535 \<Longrightarrow> clampPort (Fin (of_nat n)) = n"
proof -
  assume "n \<le> 65535"
  then have "\<not> (65535 :: rat) < of_nat n" by (metis not_less of_nat_le_iff of_nat_numeral)
  moreover have "rat_is_int (of_nat n)" using rat_is_int_of_int [of "int n"] by simp
  ultimately show ?thesis by (simp add: clampPort_def)
qed

text \<open>C19: The header carries the addresses it is given: for IPv4 addresses, IPv4-mapped ones included, the
  receiving side reads the same octets, ports and kind of transport; and the bytes of an IPv6 address
  printed with \<open>::\<close> anywhere are its groups with the gap filled by zeros.\<close>

theorem proxy_header_addresses:
  assumes "list_all (\<lambda>n. n \<le> 255) [a, b, c, d, e, f, g, h]" and "sp \<le> 65535" and "dp \<le> 65535"
    and "pre \<in> {[], ''::ffff:''}" and "pre' \<in> {[], ''::ffff:''}"
    and "length L + length R \<le> 7" and "list_all (\<lambda>g. g \<le> 65535) (L @ R)"
  shows "(\<exists>hdr. buildProxyV2Header (pre @ quad a b c d) (Fin (of_nat sp)) (pre' @ quad e f g h) (Fin (of_nat dp)) dg = Inr hdr \<and>
       proxy_v2_read hdr = Some (dg, map word_of_nat [a, b, c, d], map word_of_nat [e, f, g, h], sp, dp)) \<and>
     ipToBytes (v6_text L R) = Inr (concat (map put16 (L @ replicate (8 - length L - length R) 0 @ R)))"
proof -
  have s: "ipToBytes (normalizeIpAddress (pre @ quad a b c d)) = Inr (map word_of_nat [a, b, c, d])"
    using assms(1,4) by (intro normalize_quad) auto
  have d: "ipToBytes (normalizeIpAddress (pre' @ quad e f g h)) = Inr (map word_of_nat [e, f, g, h])"
    using assms(1,5) by (intro normalize_quad) auto
  show ?thesis
    using header_of [OF s _ d, of "Fin (of_nat sp)" "Fin (of_nat dp)" dg] clampPort_nat assms(2,3)
      ipToBytes_v6_text [OF assms(6)] assms(7)
    by (auto simp: list_all_iff)
qed

theorem proxy_header_addresses_witness:
  "ipToBytes (v6_text [0x2001, 0xdb8] [1]) = Inr (concat (map put16 ([0x2001, 0xdb8] @ replicate 5 0 @ [1]))) \<and>
   (\<exists>hdr. buildProxyV2Header (''::ffff:'' @ quad 192 0 2 1) (Fin (of_nat 5000)) (quad 10 0 0 1) (Fin (of_nat 80)) True = Inr hdr \<and>
     proxy_v2_read hdr = Some (True, [192, 0, 2, 1], [10, 0, 0, 1], 5000, 80))"
  using proxy_header_addresses [of 192 0 2 1 10 0 0 1 5000 80 "''::ffff:''" "[]" "[0x2001, 0xdb8]" "[1]" True]
  by simp

text \<open>An embedded dotted quad other than after \<open>::ffff:\<close> is read as one hexadecimal group.\<close>

lemma embedded_quad_misread:
  "isIPv6 ''64:ff9b::192.0.2.33''"
  "last (expandIpv6 ''64:ff9b::192.0.2.33'') = ''192.0.2.33''"
  "parseInt16 ''192.0.2.33'' = Some 0x192"
  by code_simp+

end
