(* ===== verification/SharedService.thy ===== *)
theory SharedService
  imports ProxyHeader
begin

text \<open>
  The local sharing service: class \<open>SharedServiceManager\<close> of \<open>FerrumClient/src/sharedServiceManager.ts\<close>.
  Sockets are numbers handed out by the system; what the system answers to a bind is an argument;
  datagrams sent, sockets closed and the last status
  announced are recorded. The callbacks a TCP connection installs
  share the flag \<open>closed\<close>: the connections whose flag is still false are kept in \<open>ss_open\<close> with the
  local socket and the address they log.
\<close>

section \<open>State\<close>

datatype ss_protocol = STcp | SUdp

record SharedServiceLimits =
  maxBytesPerSecond :: nat
  idleTimeoutSeconds :: nat
  udpSessionTimeoutSeconds :: nat

record SharedServiceLogEntry =
  sl_time :: ms
  sl_level :: string
  sl_event :: string
  sl_protocol :: "ss_protocol option"
  sl_message :: string
  sl_remote :: "string option"

record share_port =
  sp_publicPort :: nat
  sp_localHost :: string
  sp_localPort :: nat

record SharedServiceStatus =
  st_id :: string
  st_name :: string
  st_running :: bool
  st_publicHost :: string
  st_haproxy :: bool
  st_tcp :: "share_port option"
  st_udp :: "share_port option"
  st_limits :: SharedServiceLimits
  st_activeTcp :: nat
  st_activeUdp :: nat
  st_totalTcp :: nat
  st_totalUdp :: nat
  st_bytesIn :: nat
  st_bytesOut :: nat
  st_dropped :: nat
  st_startedAt :: ms
  st_logs :: "SharedServiceLogEntry list"

record UdpPeer =
  up_host :: string
  up_port :: nat
  up_socket :: nat
  up_lastActivity :: ms
  up_proxyHeaderSent :: bool

record SharedServiceManager =
  ss_status :: "SharedServiceStatus option"
  ss_tcpServer :: bool
  ss_udpServer :: bool
  ss_tcpConnections :: "nat list"
  ss_udpPeers :: "(string \<times> UdpPeer) list"
  ss_cleanupTimer :: bool
  ss_windowStartedAt :: ms
  ss_windowBytes :: nat
  ss_open :: "(nat \<times> nat \<times> string) list"
  ss_closed :: "nat list"
  ss_toLocal :: "(nat \<times> byte list) list"
  ss_toRemote :: "(string \<times> nat \<times> byte list) list"
  ss_emitted :: "SharedServiceStatus option"

definition DEFAULT_LIMITS :: SharedServiceLimits where
  "DEFAULT_LIMITS = \<lparr>maxBytesPerSecond = 10 * 1024 * 1024, idleTimeoutSeconds = 120, udpSessionTimeoutSeconds = 60\<rparr>"

definition LOG_LIMIT :: nat where "LOG_LIMIT = 300"

definition new_SharedServiceManager :: "ms \<Rightarrow> SharedServiceManager" where
  "new_SharedServiceManager now = \<lparr>ss_status = None, ss_tcpServer = False, ss_udpServer = False, ss_tcpConnections = [],
     ss_udpPeers = [], ss_cleanupTimer = False, ss_windowStartedAt = now, ss_windowBytes = 0, ss_open = [],
     ss_closed = [], ss_toLocal = [], ss_toRemote = [], ss_emitted = None\<rparr>"

section \<open>Limits and ports\<close>

definition positiveInt :: "jsval \<Rightarrow> nat \<Rightarrow> nat" where
  "positiveInt v fallback =
     (case v of JNum n \<Rightarrow> if num_is_int n \<and> js_less (Fin 0) n then num_nat n else fallback | _ \<Rightarrow> fallback)"

definition normalizeLimits :: "jsval \<Rightarrow> SharedServiceLimits res" where
  "normalizeLimits v =
     bindE (opt_prop v ''maxBytesPerSecond'') (\<lambda>a.
     bindE (opt_prop v ''idleTimeoutSeconds'') (\<lambda>b.
     bindE (opt_prop v ''udpSessionTimeoutSeconds'') (\<lambda>c.
     Inr \<lparr>maxBytesPerSecond = positiveInt a (maxBytesPerSecond DEFAULT_LIMITS),
          idleTimeoutSeconds = positiveInt b (idleTimeoutSeconds DEFAULT_LIMITS),
          udpSessionTimeoutSeconds = positiveInt c (udpSessionTimeoutSeconds DEFAULT_LIMITS)\<rparr>)))"

definition requirePort :: "jsval \<Rightarrow> string \<Rightarrow> nat res" where
  "requirePort v label =
     (case v of
        JNum n \<Rightarrow> if \<not> num_is_int n \<or> js_less n (Fin 1) \<or> js_less (Fin 65535) n
                  then Inl (Error (label @ '' must be a valid port'')) else Inr (num_nat n)
      | _ \<Rightarrow> Inl (Error (label @ '' must be a valid port'')))"

section \<open>Log and counters\<close>

definition upd_status :: "(SharedServiceStatus \<Rightarrow> SharedServiceStatus) \<Rightarrow> SharedServiceManager \<Rightarrow> SharedServiceManager" where
  "upd_status f m = m\<lparr>ss_status := map_option f (ss_status m)\<rparr>"

definition push_log :: "SharedServiceStatus \<Rightarrow> SharedServiceLogEntry \<Rightarrow> SharedServiceStatus" where
  "push_log st e =
     (let logs = st_logs st @ [e] in
      st\<lparr>st_logs := (if length logs > LOG_LIMIT then drop (length logs - LOG_LIMIT) logs else logs)\<rparr>)"

definition ss_log ::
  "ms \<Rightarrow> string \<Rightarrow> string \<Rightarrow> string \<Rightarrow> ss_protocol option \<Rightarrow> string option \<Rightarrow> SharedServiceManager \<Rightarrow> SharedServiceManager" where
  "ss_log now level event message protocol remote =
     upd_status (\<lambda>st. push_log st \<lparr>sl_time = now, sl_level = level, sl_event = event, sl_protocol = protocol,
       sl_message = message, sl_remote = remote\<rparr>)"

definition emitChange :: "SharedServiceManager \<Rightarrow> SharedServiceManager" where
  "emitChange m = (case ss_status m of None \<Rightarrow> m | Some st \<Rightarrow> m\<lparr>ss_emitted := Some st\<rparr>)"

definition addBytesIn :: "nat \<Rightarrow> SharedServiceManager \<Rightarrow> SharedServiceManager" where
  "addBytesIn n = upd_status (\<lambda>st. st\<lparr>st_bytesIn := st_bytesIn st + n\<rparr>)"

definition addBytesOut :: "nat \<Rightarrow> SharedServiceManager \<Rightarrow> SharedServiceManager" where
  "addBytesOut n = upd_status (\<lambda>st. st\<lparr>st_bytesOut := st_bytesOut st + n\<rparr>)"

definition addDroppedDatagram :: "ms \<Rightarrow> string \<Rightarrow> SharedServiceManager \<Rightarrow> SharedServiceManager" where
  "addDroppedDatagram now peerId m =
     emitChange (ss_log now ''warn'' ''udp.datagram_dropped'' ''UDP datagram dropped'' (Some SUdp) (Some peerId)
       (upd_status (\<lambda>st. st\<lparr>st_dropped := st_dropped st + 1\<rparr>) m))"

definition consumeBandwidth :: "ms \<Rightarrow> nat \<Rightarrow> SharedServiceManager \<Rightarrow> SharedServiceManager \<times> bool" where
  "consumeBandwidth now bytes m =
     (case ss_status m of
        None \<Rightarrow> (m, False)
      | Some st \<Rightarrow>
          let m1 = (if now - ss_windowStartedAt m \<ge> 1000 then m\<lparr>ss_windowStartedAt := now, ss_windowBytes := 0\<rparr> else m);
              m2 = m1\<lparr>ss_windowBytes := ss_windowBytes m1 + bytes\<rparr> in
          if ss_windowBytes m2 > maxBytesPerSecond (st_limits st)
          then (ss_log now ''warn'' ''bandwidth.throttled'' ''Bandwidth limit exceeded'' None None m2, False)
          else (m2, True))"

section \<open>TCP\<close>

definition set_active_tcp :: "SharedServiceManager \<Rightarrow> SharedServiceManager" where
  "set_active_tcp m = upd_status (\<lambda>st. st\<lparr>st_activeTcp := length (ss_tcpConnections m)\<rparr>) m"

definition tcp_accept :: "ms \<Rightarrow> nat \<Rightarrow> nat \<Rightarrow> string \<Rightarrow> SharedServiceManager \<Rightarrow> SharedServiceManager" where
  "tcp_accept now remote localSock remoteAddress m =
     (let m1 = m\<lparr>ss_tcpConnections :=
             (if remote \<in> set (ss_tcpConnections m) then ss_tcpConnections m else ss_tcpConnections m @ [remote]),
            ss_open := ss_open m @ [(remote, localSock, remoteAddress)]\<rparr> in
      emitChange (ss_log now ''info'' ''tcp.accepted'' ''TCP connection accepted'' (Some STcp) (Some remoteAddress)
        (upd_status (\<lambda>st. st\<lparr>st_totalTcp := st_totalTcp st + 1\<rparr>) (set_active_tcp m1))))"

text \<open>A connection from \<open>remote\<close> arrives; \<open>ra\<close>, \<open>rp\<close>, \<open>la\<close> and \<open>lp\<close> are the addresses and ports the
  socket reports (0 and the empty text when it reports none), \<open>localSock\<close> the socket opened to the
  local service.\<close>

definition tcp_header :: "string \<Rightarrow> nat \<Rightarrow> string \<Rightarrow> nat \<Rightarrow> string \<Rightarrow> nat \<Rightarrow> byte list res" where
  "tcp_header ra rp la lp localHost localPort =
     buildProxyV2Header (if ra = [] then ''127.0.0.1'' else ra) (Fin (of_nat rp))
       (if la = [] then localHost else la) (Fin (of_nat (if lp = 0 then localPort else lp))) False"

definition remote_address :: "string \<Rightarrow> nat \<Rightarrow> string" where
  "remote_address ra rp = (if ra = [] then ''unknown'' else ra) @ '':'' @ show_nat rp"

definition handleTcp ::
  "ms \<Rightarrow> nat \<Rightarrow> nat \<Rightarrow> string \<Rightarrow> nat \<Rightarrow> string \<Rightarrow> nat \<Rightarrow> string \<Rightarrow> nat \<Rightarrow> SharedServiceManager \<Rightarrow> SharedServiceManager" where
  "handleTcp now remote localSock ra rp la lp localHost localPort m =
     (case ss_status m of
        None \<Rightarrow> m\<lparr>ss_closed := ss_closed m @ [remote]\<rparr>
      | Some st \<Rightarrow>
          if st_haproxy st
          then (case tcp_header ra rp la lp localHost localPort of
                  Inl e \<Rightarrow> m
                | Inr h \<Rightarrow> tcp_accept now remote localSock (remote_address ra rp)
                             (m\<lparr>ss_toLocal := ss_toLocal m @ [(localSock, h)]\<rparr>))
          else tcp_accept now remote localSock (remote_address ra rp) m)"

text \<open>The callback \<open>close\<close> of the connection from \<open>remote\<close>.\<close>

definition tcp_close :: "ms \<Rightarrow> nat \<Rightarrow> string \<Rightarrow> SharedServiceManager \<Rightarrow> SharedServiceManager" where
  "tcp_close now remote reason m =
     (case map_of (ss_open m) remote of
        None \<Rightarrow> m
      | Some (localSock, remoteAddress) \<Rightarrow>
          let m1 = m\<lparr>ss_open := AList.delete remote (ss_open m), ss_closed := ss_closed m @ [remote, localSock],
                     ss_tcpConnections := filter (\<lambda>s. s \<noteq> remote) (ss_tcpConnections m)\<rparr> in
          emitChange (ss_log now ''info'' ''tcp.closed'' (''TCP connection closed: '' @ reason) (Some STcp) (Some remoteAddress)
            (set_active_tcp m1)))"

text \<open>The \<open>data\<close> callbacks of the connection.\<close>

definition tcp_data :: "ms \<Rightarrow> nat \<Rightarrow> bool \<Rightarrow> nat \<Rightarrow> SharedServiceManager \<Rightarrow> SharedServiceManager" where
  "tcp_data now remote incoming n m =
     (case consumeBandwidth now n m of
        (m1, False) \<Rightarrow> tcp_close now remote ''bandwidth limit'' m1
      | (m1, True) \<Rightarrow> (if incoming then addBytesIn n m1 else addBytesOut n m1))"

section \<open>UDP\<close>

definition set_active_udp :: "SharedServiceManager \<Rightarrow> SharedServiceManager" where
  "set_active_udp m = upd_status (\<lambda>st. st\<lparr>st_activeUdp := length (ss_udpPeers m)\<rparr>) m"

definition removeUdpPeer :: "ms \<Rightarrow> string \<Rightarrow> string \<Rightarrow> SharedServiceManager \<Rightarrow> SharedServiceManager" where
  "removeUdpPeer now peerId reason m =
     (case map_of (ss_udpPeers m) peerId of
        None \<Rightarrow> m
      | Some peer \<Rightarrow>
          let m1 = m\<lparr>ss_closed := ss_closed m @ [up_socket peer], ss_udpPeers := AList.delete peerId (ss_udpPeers m)\<rparr> in
          emitChange (ss_log now ''info'' ''udp.peer_expired'' (''UDP peer removed: '' @ reason) (Some SUdp) (Some peerId)
            (set_active_udp m1)))"

definition peer_id :: "string \<Rightarrow> nat \<Rightarrow> string" where
  "peer_id host port = host @ '':'' @ show_nat port"

definition create_peer :: "ms \<Rightarrow> nat \<Rightarrow> string \<Rightarrow> nat \<Rightarrow> SharedServiceManager \<Rightarrow> SharedServiceManager" where
  "create_peer now sock host port m =
     (let m1 = m\<lparr>ss_udpPeers := AList.update (peer_id host port)
            \<lparr>up_host = host, up_port = port, up_socket = sock, up_lastActivity = now, up_proxyHeaderSent = False\<rparr> (ss_udpPeers m)\<rparr> in
      emitChange (ss_log now ''info'' ''udp.peer_created'' ''UDP peer created'' (Some SUdp) (Some (peer_id host port))
        (upd_status (\<lambda>st. st\<lparr>st_totalUdp := st_totalUdp st + 1\<rparr>) (set_active_udp m1))))"

text \<open>The part of \<open>handleUdp\<close> that has the peer: activity, bandwidth, header once, send.\<close>

definition udp_forward ::
  "ms \<Rightarrow> bool \<Rightarrow> UdpPeer \<Rightarrow> byte list \<Rightarrow> string \<Rightarrow> nat \<Rightarrow> string \<Rightarrow> nat \<Rightarrow> SharedServiceManager \<Rightarrow> SharedServiceManager" where
  "udp_forward now haproxy peer payload remoteHost remotePort localHost localPort m =
     (let peerId = peer_id remoteHost remotePort;
          m1 = m\<lparr>ss_udpPeers := AList.update peerId (peer\<lparr>up_lastActivity := now\<rparr>) (ss_udpPeers m)\<rparr> in
      case consumeBandwidth now (length payload) m1 of
        (m2, False) \<Rightarrow> addDroppedDatagram now peerId m2
      | (m2, True) \<Rightarrow>
          let sendHeader = (haproxy \<and> \<not> up_proxyHeaderSent peer);
              m3 = m2\<lparr>ss_udpPeers := AList.update peerId
                     (peer\<lparr>up_lastActivity := now, up_proxyHeaderSent := up_proxyHeaderSent peer \<or> sendHeader\<rparr>) (ss_udpPeers m2)\<rparr> in
          (case (if sendHeader then buildProxyV2Header remoteHost (Fin (of_nat remotePort)) localHost (Fin (of_nat localPort)) True
                 else Inr []) of
             Inl e \<Rightarrow> m3
           | Inr h \<Rightarrow> addBytesIn (length payload) (m3\<lparr>ss_toLocal := ss_toLocal m3 @ [(up_socket peer, h @ payload)]\<rparr>)))"

definition handleUdp ::
  "ms \<Rightarrow> nat \<Rightarrow> byte list \<Rightarrow> string \<Rightarrow> nat \<Rightarrow> string \<Rightarrow> nat \<Rightarrow> SharedServiceManager \<Rightarrow> SharedServiceManager" where
  "handleUdp now sock payload remoteHost remotePort localHost localPort m =
     (case ss_status m of
        None \<Rightarrow> m
      | Some st \<Rightarrow>
          if \<not> ss_udpServer m then m
          else
            let peerId = peer_id remoteHost remotePort;
                m1 = (if map_of (ss_udpPeers m) peerId = None then create_peer now sock remoteHost remotePort m else m) in
            case map_of (ss_udpPeers m1) peerId of
              None \<Rightarrow> m1
            | Some peer \<Rightarrow> udp_forward now (st_haproxy st) peer payload remoteHost remotePort localHost localPort m1)"

text \<open>The \<open>message\<close> callback of the local socket made for the remote \<open>host\<close> and \<open>port\<close>.\<close>

definition udp_response :: "ms \<Rightarrow> string \<Rightarrow> nat \<Rightarrow> byte list \<Rightarrow> SharedServiceManager \<Rightarrow> SharedServiceManager" where
  "udp_response now host port response m =
     (if \<not> ss_udpServer m then addDroppedDatagram now (peer_id host port) m
      else case consumeBandwidth now (length response) m of
             (m1, False) \<Rightarrow> addDroppedDatagram now (peer_id host port) m1
           | (m1, True) \<Rightarrow> addBytesOut (length response) (m1\<lparr>ss_toRemote := ss_toRemote m1 @ [(host, port, response)]\<rparr>))"

definition idle_peer :: "ms \<Rightarrow> SharedServiceStatus \<Rightarrow> UdpPeer \<Rightarrow> bool" where
  "idle_peer now st peer \<longleftrightarrow> now - up_lastActivity peer \<ge> int (udpSessionTimeoutSeconds (st_limits st)) * 1000"

definition cleanupIdleUdpPeers :: "ms \<Rightarrow> SharedServiceManager \<Rightarrow> SharedServiceManager" where
  "cleanupIdleUdpPeers now m =
     (case ss_status m of
        None \<Rightarrow> m
      | Some st \<Rightarrow>
          foldl (\<lambda>m (peerId, peer). if idle_peer now st peer then removeUdpPeer now peerId ''idle timeout'' m else m)
            m (ss_udpPeers m))"

section \<open>Callbacks\<close>

datatype ss_event =
    STcpOpen ms nat nat string nat string nat string nat
  | STcpData ms nat bool nat
  | STcpClose ms nat string
  | SUdpIn ms nat "byte list" string nat string nat
  | SUdpOut ms string nat "byte list"
  | SUdpError ms string nat
  | SCleanup ms

fun ss_step :: "SharedServiceManager \<Rightarrow> ss_event \<Rightarrow> SharedServiceManager" where
  "ss_step m (STcpOpen now r l ra rp la lp lh lport) = handleTcp now r l ra rp la lp lh lport m"
| "ss_step m (STcpData now r incoming n) = tcp_data now r incoming n m"
| "ss_step m (STcpClose now r reason) = tcp_close now r reason m"
| "ss_step m (SUdpIn now sock p h pt lh lp) = handleUdp now sock p h pt lh lp m"
| "ss_step m (SUdpOut now h pt p) = udp_response now h pt p m"
| "ss_step m (SUdpError now h pt) = removeUdpPeer now (peer_id h pt) ''local error'' m"
| "ss_step m (SCleanup now) = cleanupIdleUdpPeers now m"

primrec ss_at :: "ss_event \<Rightarrow> ms" where
  "ss_at (STcpOpen now r l ra rp la lp lh lport) = now"
| "ss_at (STcpData now r incoming n) = now"
| "ss_at (STcpClose now r reason) = now"
| "ss_at (SUdpIn now sock p h pt lh lp) = now"
| "ss_at (SUdpOut now h pt p) = now"
| "ss_at (SUdpError now h pt) = now"
| "ss_at (SCleanup now) = now"

section \<open>Start and stop\<close>

text \<open>\<open>stop\<close> waits for the TCP server and then for the UDP server to close, and other callbacks can run
  there: it is cut into the part before the first wait, the part between the two, and the rest, and
  \<open>d1\<close> and \<open>d2\<close> are the callbacks that run in the two waits. Without a server there is no wait.\<close>

definition stop_begin :: "SharedServiceManager \<Rightarrow> SharedServiceManager" where
  "stop_begin m = m\<lparr>ss_cleanupTimer := False,
     ss_closed := ss_closed m @ ss_tcpConnections m @ map (\<lambda>p. up_socket (snd p)) (ss_udpPeers m),
     ss_tcpConnections := [], ss_udpPeers := []\<rparr>"

definition stop_tcp_closed :: "SharedServiceManager \<Rightarrow> SharedServiceManager" where
  "stop_tcp_closed m = m\<lparr>ss_tcpServer := False\<rparr>"

definition stop_end :: "ms \<Rightarrow> SharedServiceManager \<Rightarrow> SharedServiceManager" where
  "stop_end now m =
     (emitChange (ss_log now ''info'' ''share.stopped'' ''Shared service stopped'' None None
       (upd_status (\<lambda>st. st\<lparr>st_running := False, st_activeTcp := 0, st_activeUdp := 0\<rparr>)
         (m\<lparr>ss_udpServer := False\<rparr>))))\<lparr>ss_status := None\<rparr>"

definition ss_stop :: "ms \<Rightarrow> ss_event list \<Rightarrow> ss_event list \<Rightarrow> SharedServiceManager \<Rightarrow> SharedServiceManager" where
  "ss_stop now d1 d2 m =
     (let m1 = stop_begin m;
          m2 = (if ss_tcpServer m1 then stop_tcp_closed (foldl ss_step m1 d1) else m1);
          m3 = (if ss_udpServer m2 then foldl ss_step m2 d2 else m2) in
      stop_end now m3)"

record port_request =
  pr_enabled :: bool
  pr_localHost :: "string option"
  pr_localPort :: jsval
  pr_publicPort :: jsval

record SharedServiceStartRequest =
  rq_name :: "string option"
  rq_publicHost :: "string option"
  rq_bindHost :: "string option"
  rq_haproxy :: bool
  rq_tcp :: "port_request option"
  rq_udp :: "port_request option"
  rq_limits :: jsval

definition trim_or :: "string option \<Rightarrow> string \<Rightarrow> string" where
  "trim_or v fallback = (case v of None \<Rightarrow> fallback | Some s \<Rightarrow> if trim s = [] then fallback else trim s)"

definition enabled :: "port_request option \<Rightarrow> bool" where
  "enabled p = (case p of None \<Rightarrow> False | Some r \<Rightarrow> pr_enabled r)"

text \<open>The answers of the system to a bind of a host and a port: an error, or the port in use;
  \<open>None\<close> when a TCP server has no address to report.\<close>

type_synonym listen_answer = "string \<Rightarrow> jsval \<Rightarrow> nat option res"
type_synonym bind_answer = "string \<Rightarrow> jsval \<Rightarrow> nat res"

definition or_zero :: "jsval \<Rightarrow> jsval" where
  "or_zero v = (if js_truthy v then v else JNum (Fin 0))"

text \<open>Callbacks also run while \<open>start\<close> waits for a server to listen; \<open>w\<close> are those.\<close>

definition start_tcp ::
  "listen_answer \<Rightarrow> ss_event list \<Rightarrow> string \<Rightarrow> port_request \<Rightarrow> SharedServiceManager \<Rightarrow> SharedServiceManager \<times> unit res" where
  "start_tcp listen w bindHost r m0 =
     (case requirePort (pr_localPort r) ''TCP local port'' of
        Inl e \<Rightarrow> (m0, Inl e)
      | Inr localPort \<Rightarrow>
          (let m = foldl ss_step m0 w in
           case listen bindHost (or_zero (pr_publicPort r)) of
             Inl e \<Rightarrow> (m, Inl e)
           | Inr None \<Rightarrow> (m\<lparr>ss_tcpServer := True\<rparr>, Inl (Error ''Failed to resolve TCP public port''))
           | Inr (Some publicPort) \<Rightarrow>
               (upd_status (\<lambda>st. st\<lparr>st_tcp := Some \<lparr>sp_publicPort = publicPort,
                    sp_localHost = trim_or (pr_localHost r) ''127.0.0.1'', sp_localPort = localPort\<rparr>\<rparr>)
                  (m\<lparr>ss_tcpServer := True\<rparr>), Inr ())))"

definition start_udp ::
  "bind_answer \<Rightarrow> ss_event list \<Rightarrow> string \<Rightarrow> port_request \<Rightarrow> SharedServiceManager \<Rightarrow> SharedServiceManager \<times> unit res" where
  "start_udp bind w bindHost r m0 =
     (case requirePort (pr_localPort r) ''UDP local port'' of
        Inl e \<Rightarrow> (m0, Inl e)
      | Inr localPort \<Rightarrow>
          (let m = foldl ss_step m0 w in
           case bind bindHost (or_zero (pr_publicPort r)) of
             Inl e \<Rightarrow> (m, Inl e)
           | Inr p \<Rightarrow>
               (upd_status (\<lambda>st. st\<lparr>st_udp := Some \<lparr>sp_publicPort = p,
                    sp_localHost = trim_or (pr_localHost r) ''127.0.0.1'', sp_localPort = localPort\<rparr>\<rparr>)
                  (m\<lparr>ss_udpServer := True\<rparr>), Inr ())))"

definition opt_start :: "(port_request \<Rightarrow> SharedServiceManager \<Rightarrow> SharedServiceManager \<times> unit res) \<Rightarrow>
    port_request option \<Rightarrow> SharedServiceManager \<Rightarrow> SharedServiceManager \<times> unit res" where
  "opt_start f p m = (case p of Some r \<Rightarrow> if pr_enabled r then f r m else (m, Inr ()) | None \<Rightarrow> (m, Inr ()))"

definition initial_status :: "ms \<Rightarrow> string \<Rightarrow> SharedServiceLimits \<Rightarrow> SharedServiceStartRequest \<Rightarrow> SharedServiceStatus" where
  "initial_status now uuid limits req =
     \<lparr>st_id = uuid, st_name = trim_or (rq_name req) ''Shared Service'', st_running = True,
      st_publicHost = trim_or (rq_publicHost req) ''127.0.0.1'', st_haproxy = rq_haproxy req, st_tcp = None, st_udp = None,
      st_limits = limits, st_activeTcp = 0, st_activeUdp = 0, st_totalTcp = 0, st_totalUdp = 0, st_bytesIn = 0,
      st_bytesOut = 0, st_dropped = 0, st_startedAt = now, st_logs = []\<rparr>"

text \<open>The callbacks that run in the waits of a start: for the TCP server, for the UDP server, and in the
  stop that follows an error.\<close>

record ss_waits =
  sw_tcp :: "ss_event list"
  sw_udp :: "ss_event list"
  sw_stop1 :: "ss_event list"
  sw_stop2 :: "ss_event list"

definition ss_start ::
  "ms \<Rightarrow> string \<Rightarrow> listen_answer \<Rightarrow> bind_answer \<Rightarrow> ss_waits \<Rightarrow> SharedServiceStartRequest \<Rightarrow> SharedServiceManager \<Rightarrow>
   SharedServiceManager \<times> SharedServiceStatus res" where
  "ss_start now uuid listen bind w req m =
     (if (case ss_status m of None \<Rightarrow> False | Some st \<Rightarrow> st_running st)
      then (m, Inl (Error ''Shared service is already running''))
      else if \<not> enabled (rq_tcp req) \<and> \<not> enabled (rq_udp req) then (m, Inl (Error ''Enable TCP, UDP, or both''))
      else
        case normalizeLimits (rq_limits req) of
          Inl e \<Rightarrow> (m, Inl e)
        | Inr limits \<Rightarrow>
            let bindHost = trim_or (rq_bindHost req) ''0.0.0.0'';
                m0 = m\<lparr>ss_status := Some (initial_status now uuid limits req)\<rparr> in
            (case opt_start (start_tcp listen (sw_tcp w) bindHost) (rq_tcp req) m0 of
               (m1, Inl e) \<Rightarrow> (ss_stop now (sw_stop1 w) (sw_stop2 w) m1, Inl e)
             | (m1, Inr _) \<Rightarrow>
                 (case opt_start (start_udp bind (sw_udp w) bindHost) (rq_udp req) m1 of
                    (m2, Inl e) \<Rightarrow> (ss_stop now (sw_stop1 w) (sw_stop2 w) m2, Inl e)
                  | (m2, Inr _) \<Rightarrow>
                      let m3 = emitChange (ss_log now ''info'' ''share.started'' ''Shared service started'' None None
                                 (m2\<lparr>ss_cleanupTimer := True\<rparr>)) in
                      (m3, case ss_status m3 of None \<Rightarrow> Inl (Error ''Shared service is not running'') | Some st \<Rightarrow> Inr st))))"

section \<open>Bandwidth\<close>

text \<open>What the limiter reads and the bytes let through.\<close>

definition moved :: "SharedServiceStatus \<Rightarrow> nat" where
  "moved st = st_bytesIn st + st_bytesOut st"

definition bw :: "SharedServiceManager \<Rightarrow> ms \<times> nat \<times> (nat \<times> nat) option" where
  "bw m = (ss_windowStartedAt m, ss_windowBytes m,
     map_option (\<lambda>st. (maxBytesPerSecond (st_limits st), moved st)) (ss_status m))"

lemma bw_upd:
  "(\<And>st. st_limits (f st) = st_limits st \<and> moved (f st) = moved st) \<Longrightarrow> bw (upd_status f m) = bw m"
  by (simp add: bw_def upd_status_def option.map_comp comp_def)

lemma bw_fields [simp]:
  "bw (m\<lparr>ss_udpPeers := ps\<rparr>) = bw m" "bw (m\<lparr>ss_toLocal := q\<rparr>) = bw m" "bw (m\<lparr>ss_toRemote := q'\<rparr>) = bw m"
  "bw (m\<lparr>ss_closed := q''\<rparr>) = bw m" "bw (m\<lparr>ss_closed := q'', ss_udpPeers := ps\<rparr>) = bw m"
  "bw (m\<lparr>ss_open := z, ss_closed := q'', ss_tcpConnections := cs\<rparr>) = bw m"
  "bw (m\<lparr>ss_tcpConnections := cs, ss_open := z\<rparr>) = bw m" "bw (m\<lparr>ss_emitted := e\<rparr>) = bw m"
  by (simp_all add: bw_def)

lemma bw_counters [simp]:
  "bw (upd_status (\<lambda>st. st\<lparr>st_dropped := f st\<rparr>) m) = bw m" "bw (upd_status (\<lambda>st. st\<lparr>st_totalTcp := f st\<rparr>) m) = bw m"
  "bw (upd_status (\<lambda>st. st\<lparr>st_totalUdp := f st\<rparr>) m) = bw m" "bw (upd_status (\<lambda>st. st\<lparr>st_activeTcp := f st\<rparr>) m) = bw m"
  "bw (upd_status (\<lambda>st. st\<lparr>st_activeUdp := f st\<rparr>) m) = bw m" "bw (upd_status (\<lambda>st. push_log st e) m) = bw m"
  by (rule bw_upd; simp add: moved_def push_log_def Let_def)+

lemma bw_same [simp]:
  "bw (ss_log now lv ev msg pr rm m) = bw m" "bw (emitChange m) = bw m" "bw (set_active_tcp m) = bw m"
  "bw (set_active_udp m) = bw m"
  by (simp_all add: ss_log_def emitChange_def set_active_tcp_def set_active_udp_def split: option.split)

lemma bw_tcp_close [simp]: "bw (tcp_close now r reason m) = bw m"
  by (cases "map_of (ss_open m) r") (auto simp: tcp_close_def Let_def)

lemma bw_removeUdpPeer [simp]: "bw (removeUdpPeer now i reason m) = bw m"
  by (cases "map_of (ss_udpPeers m) i") (simp_all add: removeUdpPeer_def Let_def)

lemma bw_create_peer [simp]: "bw (create_peer now s h p m) = bw m"
  by (simp add: create_peer_def Let_def)

lemma bw_addDropped [simp]: "bw (addDroppedDatagram now i m) = bw m"
  by (simp add: addDroppedDatagram_def)

lemma bw_tcp_accept [simp]: "bw (tcp_accept now r l a m) = bw m"
  by (simp add: tcp_accept_def Let_def)

lemma bw_handleTcp [simp]: "bw (handleTcp now r l ra rp la lp lh lport m) = bw m"
  by (simp add: handleTcp_def split: option.split sum.split)

lemma bw_cleanup [simp]: "bw (cleanupIdleUdpPeers now m) = bw m"
proof -
  have "bw (foldl (\<lambda>m (i, p). if idle_peer now st p then removeUdpPeer now i ''idle timeout'' m else m) m ps) = bw m" for st ps
    by (induction ps arbitrary: m) auto
  then show ?thesis by (simp add: cleanupIdleUdpPeers_def split: option.split)
qed

text \<open>A charge of \<open>n\<close> bytes against the window, admitted or not.\<close>

definition window_at :: "ms \<Rightarrow> ms \<times> nat \<Rightarrow> ms \<times> nat" where
  "window_at now wb = (if now - fst wb \<ge> 1000 then (now, 0) else wb)"

fun charged :: "ms \<Rightarrow> nat \<Rightarrow> ms \<times> nat \<times> (nat \<times> nat) option \<Rightarrow> ms \<times> nat \<times> (nat \<times> nat) option \<Rightarrow> bool" where
  "charged now n (w, b, Some (M, v)) (w', b', Some (M', v')) \<longleftrightarrow>
     w' = fst (window_at now (w, b)) \<and> b' = snd (window_at now (w, b)) + n \<and> M' = M \<and> (v' = v \<or> v' = v + n \<and> b' \<le> M)"
| "charged now n _ _ \<longleftrightarrow> False"

lemma bw_add [simp]:
  "bw (addBytesIn n m) = (fst (bw m), fst (snd (bw m)), map_option (\<lambda>(M, v). (M, v + n)) (snd (snd (bw m))))"
  "bw (addBytesOut n m) = (fst (bw m), fst (snd (bw m)), map_option (\<lambda>(M, v). (M, v + n)) (snd (snd (bw m))))"
  by (cases "ss_status m"; simp add: addBytesIn_def addBytesOut_def bw_def upd_status_def moved_def)+

lemma consume_status: "ss_status m = None \<Longrightarrow> consumeBandwidth now n m = (m, False)"
  by (simp add: consumeBandwidth_def)

lemma consume_bw:
  assumes "ss_status m \<noteq> None" and "consumeBandwidth now n m = (m', ok)"
  shows "\<exists>w b M v. bw m = (w, b, Some (M, v)) \<and>
     bw m' = (fst (window_at now (w, b)), snd (window_at now (w, b)) + n, Some (M, v)) \<and>
     (ok \<longrightarrow> snd (window_at now (w, b)) + n \<le> M)"
proof -
  obtain st where st: "ss_status m = Some st" using assms(1) by auto
  let ?m1 = "if now - ss_windowStartedAt m \<ge> 1000 then m\<lparr>ss_windowStartedAt := now, ss_windowBytes := 0\<rparr> else m"
  let ?m2 = "?m1\<lparr>ss_windowBytes := ss_windowBytes ?m1 + n\<rparr>"
  have "bw m' = bw ?m2 \<and> (ok \<longrightarrow> ss_windowBytes ?m2 \<le> maxBytesPerSecond (st_limits st))"
    using assms(2) st by (auto simp: consumeBandwidth_def Let_def split: if_splits)
  then show ?thesis using st by (auto simp: bw_def window_at_def)
qed

lemma charged_keep:
  assumes "ss_status m \<noteq> None" and "consumeBandwidth now n m = (m', ok)" and "bw x = bw m'"
  shows "charged now n (bw m) (bw x)"
  using consume_bw [OF assms(1,2)] assms(3) by auto

lemma charged_add:
  assumes "ss_status m \<noteq> None" and "consumeBandwidth now n m = (m', True)" and "bw y = bw m'"
  shows "charged now n (bw m) (bw (addBytesIn n y))" "charged now n (bw m) (bw (addBytesOut n y))"
  using consume_bw [OF assms(1,2)] assms(3) by auto

lemma status_bw: "ss_status m = None \<longleftrightarrow> snd (snd (bw m)) = None"
  by (simp add: bw_def)

lemma udp_forward_charges:
  assumes "ss_status m \<noteq> None"
  shows "charged now (length p) (bw m) (bw (udp_forward now ha peer p h pt lh lp m))"
proof -
  let ?m1 = "m\<lparr>ss_udpPeers := AList.update (peer_id h pt) (peer\<lparr>up_lastActivity := now\<rparr>) (ss_udpPeers m)\<rparr>"
  have a: "ss_status ?m1 \<noteq> None" and b: "bw ?m1 = bw m" using assms by simp_all
  obtain m2 ok where c: "consumeBandwidth now (length p) ?m1 = (m2, ok)" by fastforce
  show ?thesis
  proof (cases ok)
    case True
    with c have "consumeBandwidth now (length p) ?m1 = (m2, True)" by simp
    from charged_add(1) [OF a this refl] show ?thesis
      using True charged_keep [OF a c refl]
      unfolding b udp_forward_def Let_def c by (simp split: sum.split)
  next
    case False
    then show ?thesis using charged_keep [OF a c refl] unfolding b udp_forward_def Let_def c by simp
  qed
qed

lemma handleUdp_cases:
  fixes m now sock h pt
  defines "m1 \<equiv> if map_of (ss_udpPeers m) (peer_id h pt) = None then create_peer now sock h pt m else m"
  shows "handleUdp now sock p h pt lh lp m = m \<or> handleUdp now sock p h pt lh lp m = m1 \<or>
     (\<exists>ha peer. handleUdp now sock p h pt lh lp m = udp_forward now ha peer p h pt lh lp m1)"
  unfolding handleUdp_def Let_def m1_def [symmetric]
  by (cases "ss_status m"; cases "map_of (ss_udpPeers m1) (peer_id h pt)"; cases "ss_udpServer m") auto

lemma tcp_data_charges:
  assumes "ss_status m \<noteq> None"
  shows "charged now n (bw m) (bw (tcp_data now r incoming n m))"
proof -
  obtain m' ok where c: "consumeBandwidth now n m = (m', ok)" by fastforce
  show ?thesis
  proof (cases ok)
    case True
    then have "consumeBandwidth now n m = (m', True)" using c by simp
    from charged_add [OF assms this refl] this show ?thesis by (cases incoming) (simp_all add: tcp_data_def del: bw_add)
  next
    case False
    then show ?thesis using charged_keep [OF assms c, of "tcp_close now r ''bandwidth limit'' m'"] c by (simp add: tcp_data_def)
  qed
qed

lemma udp_response_charges:
  assumes "ss_status m \<noteq> None"
  shows "bw (udp_response now h pt p m) = bw m \<or> charged now (length p) (bw m) (bw (udp_response now h pt p m))"
proof -
  obtain m' ok where c: "consumeBandwidth now (length p) m = (m', ok)" by fastforce
  show ?thesis
  proof (cases ok)
    case True
    then have "consumeBandwidth now (length p) m = (m', True)" using c by simp
    from charged_add(2) [OF assms this, of "m'\<lparr>ss_toRemote := ss_toRemote m' @ [(h, pt, p)]\<rparr>"] this
    show ?thesis by (simp add: udp_response_def del: bw_add)
  next
    case False
    then show ?thesis using charged_keep [OF assms c, of "addDroppedDatagram now (peer_id h pt) m'"] c by (simp add: udp_response_def)
  qed
qed

lemma handleUdp_charges:
  assumes "ss_status m \<noteq> None"
  shows "bw (handleUdp now sock p h pt lh lp m) = bw m \<or> charged now (length p) (bw m) (bw (handleUdp now sock p h pt lh lp m))"
proof -
  let ?m1 = "if map_of (ss_udpPeers m) (peer_id h pt) = None then create_peer now sock h pt m else m"
  have b: "bw ?m1 = bw m" by simp
  then have "ss_status ?m1 \<noteq> None" using assms by (metis status_bw)
  from udp_forward_charges [OF this] b have "charged now (length p) (bw m) (bw (udp_forward now ha peer p h pt lh lp ?m1))" for ha peer
    by simp
  with b show ?thesis using handleUdp_cases [of now sock p h pt lh lp m] by (elim disjE exE) simp_all
qed

lemma step_charges:
  assumes "ss_status m \<noteq> None"
  shows "bw (ss_step m e) = bw m \<or> (\<exists>n. charged (ss_at e) n (bw m) (bw (ss_step m e)))"
  using tcp_data_charges [OF assms] udp_response_charges [OF assms] handleUdp_charges [OF assms]
  by (cases e) (simp_all, blast+)

section \<open>The bound\<close>

definition total_moved :: "SharedServiceManager \<Rightarrow> nat" where
  "total_moved m = (case ss_status m of None \<Rightarrow> 0 | Some st \<Rightarrow> moved st)"

definition gained :: "SharedServiceManager \<Rightarrow> ss_event \<Rightarrow> rat" where
  "gained m e = of_nat (total_moved (ss_step m e)) - of_nat (total_moved m)"

definition bw_ok :: "nat \<Rightarrow> ms \<Rightarrow> SharedServiceManager \<Rightarrow> bool" where
  "bw_ok M t m \<longleftrightarrow> (\<exists>w b v. bw m = (w, b, Some (M, v)) \<and> w \<le> t)"

definition bw_credit :: "nat \<Rightarrow> ms \<Rightarrow> SharedServiceManager \<Rightarrow> rat" where
  "bw_credit M t m = of_nat (M - ss_windowBytes m) + of_nat M / 1000 * of_int (min (t - ss_windowStartedAt m) 1000)"

lemma bw_view: "bw m = (w, b, Some (M, v)) \<Longrightarrow> ss_windowStartedAt m = w \<and> ss_windowBytes m = b \<and> total_moved m = v"
  by (auto simp: bw_def total_moved_def)

lemma rate_mono: "x \<le> y \<Longrightarrow> of_nat M / 1000 * of_int x \<le> of_nat M / 1000 * (of_int y :: rat)"
  by (intro mult_left_mono) simp_all

lemma credit_view: "bw m = (w, b, Some (M, v)) \<Longrightarrow>
     bw_credit N t m = of_nat (N - b) + of_nat N / 1000 * of_int (min (t - w) 1000) \<and> total_moved m = v"
  using bw_view by (simp add: bw_credit_def)

lemma credit_gain: "v' = v \<or> v' = v + n \<and> b + n \<le> M \<Longrightarrow>
     of_nat v' - of_nat v + of_nat (M - (b + n)) \<le> (of_nat (M - b) :: rat)"
  by (elim disjE conjE) (simp_all add: of_nat_diff)

lemma bw_pay:
  assumes v: "bw m = (w, b, Some (M, v))" and w: "w \<le> t" and le: "t \<le> T"
    and c: "bw m' = bw m \<or> (\<exists>n. charged T n (bw m) (bw m'))"
  shows "of_nat (total_moved m') - of_nat (total_moved m) + bw_credit M T m' \<le> bw_credit M t m + of_nat M / 1000 * of_int (T - t)"
proof -
  define R where "R x = of_nat M / 1000 * (of_int x :: rat)" for x
  have R: "R x + R y = R (x + y)" "x \<le> y \<Longrightarrow> R x \<le> R y" "R 1000 = of_nat M" "R 0 = 0" for x y
    unfolding R_def using rate_mono by (simp_all add: field_simps)
  have view: "bw_credit M t m = of_nat (M - b) + R (min (t - w) 1000)" "total_moved m = v"
    using credit_view [OF v, of M t] by (simp_all add: R_def)
  obtain n wa v' where m': "bw m' = (fst wa, snd wa + n, Some (M, v'))"
    and g: "v' = v \<or> v' = v + n \<and> snd wa + n \<le> M" and wa: "wa = (w, b) \<or> wa = (T, 0) \<and> T - w \<ge> 1000"
  proof (cases "bw m' = bw m")
    case True
    then show ?thesis using that [of "(w, b)" 0 v] v by simp
  next
    case False
    then obtain n where "charged T n (bw m) (bw m')" using c by blast
    then show ?thesis using that [of "window_at T (w, b)" n] unfolding v by (elim charged.elims) (auto simp: window_at_def)
  qed
  have view': "bw_credit M T m' = of_nat (M - (snd wa + n)) + R (min (T - fst wa) 1000)" "total_moved m' = v'"
    using credit_view [OF m', of M T] by (simp_all add: R_def)
  have gain: "of_nat v' - of_nat v + of_nat (M - (snd wa + n)) \<le> (of_nat (M - snd wa) :: rat)" using g by (rule credit_gain)
  have "of_nat (M - snd wa) + R (min (T - fst wa) 1000) \<le> of_nat (M - b) + R (min (t - w) 1000 + (T - t))"
    using wa
  proof (elim disjE conjE)
    assume "wa = (w, b)"
    then show ?thesis using R(2) [of "min (T - w) 1000" "min (t - w) 1000 + (T - t)"] le by (simp add: min_def)
  next
    assume wa: "wa = (T, 0)" and "T - w \<ge> 1000"
    then have "1000 \<le> min (t - w) 1000 + (T - t)" using le by (simp add: min_def)
    from R(2) [OF this] have "of_nat M \<le> R (min (t - w) 1000 + (T - t))" unfolding R(3) .
    moreover have "(0 :: rat) \<le> of_nat (M - b)" by simp
    ultimately have "of_nat M \<le> of_nat (M - b) + R (min (t - w) 1000 + (T - t))" by linarith
    then show ?thesis using wa R(4) by simp
  qed
  then show ?thesis using gain view view' R(1) [of "min (t - w) 1000" "T - t"] unfolding R_def [symmetric] by simp
qed

interpretation bwm: amortised ss_step gained ss_at "bw_ok M" "bw_credit M" "of_nat M / 1000" for M
proof unfold_locales
  fix t m e
  assume ok: "bw_ok M t m" and le: "t \<le> ss_at e"
  then obtain w b v where v: "bw m = (w, b, Some (M, v))" and w: "w \<le> t" by (auto simp: bw_ok_def)
  then have "ss_status m \<noteq> None" by (metis option.discI prod.sel(2) status_bw)
  note c = step_charges [OF this, of e]
  show "bw_ok M (ss_at e) (ss_step m e)"
    using c v w le by (auto simp: bw_ok_def window_at_def elim!: charged.elims)
  show "gained m e + bw_credit M (ss_at e) (ss_step m e) \<le> bw_credit M t m + of_nat M / 1000 * of_int (ss_at e - t)"
    using bw_pay [OF v w le c] by (simp add: gained_def)
next
  fix t m
  assume "bw_ok M t m"
  then show "0 \<le> bw_credit M t m" by (auto simp: bw_ok_def bw_credit_def dest!: bw_view)
qed

lemma gained_total: "total_charge ss_step gained m es = of_nat (total_moved (foldl ss_step m es)) - of_nat (total_moved m)"
  by (induction es arbitrary: m) (simp_all add: gained_def)

text \<open>C5: The bandwidth limit holds. Over any sequence of connections, TCP chunks, datagrams, replies and
  clean-ups in time order, the byte counters of the service, both directions together, grow by at most
  the limit times the seconds passed plus two.\<close>

theorem bandwidth_bound:
  assumes "ss_status m = Some st" and "ss_windowStartedAt m \<le> t" and "timed ss_at t es"
  shows "of_nat (total_moved (foldl ss_step m es)) \<le> of_nat (total_moved m) +
     of_nat (maxBytesPerSecond (st_limits st)) * (of_int (end_at ss_at t es - t) / 1000 + (2 :: rat))"
proof -
  let ?M = "maxBytesPerSecond (st_limits st)"
  have ok: "bw_ok ?M t m" using assms(1,2) by (simp add: bw_ok_def bw_def)
  have "bw_credit ?M t m \<le> 2 * of_nat ?M"
  proof -
    have "of_nat ?M / 1000 * of_int (min (t - ss_windowStartedAt m) 1000) \<le> of_nat ?M / 1000 * (of_int 1000 :: rat)"
      by (rule rate_mono) simp
    moreover have "of_nat (?M - ss_windowBytes m) \<le> (of_nat ?M :: rat)" by simp
    ultimately show ?thesis unfolding bw_credit_def by simp
  qed
  then show ?thesis using bwm.total_le [OF ok assms(3)] unfolding gained_total by (simp add: field_simps)
qed

definition running_service :: SharedServiceManager where
  "running_service = (new_SharedServiceManager 0)\<lparr>ss_status := Some (initial_status 0 ''id'' (DEFAULT_LIMITS\<lparr>maxBytesPerSecond := 100\<rparr>)
     \<lparr>rq_name = None, rq_publicHost = None, rq_bindHost = None, rq_haproxy = False, rq_tcp = None, rq_udp = None, rq_limits = JUndef\<rparr>)\<rparr>"

theorem bandwidth_bound_witness:
  "of_nat (total_moved (foldl ss_step running_service [STcpData 0 1 True 90, STcpData 500 1 True 90, STcpData 2000 2 False 80])) \<le>
     (400 :: rat)"
proof -
  obtain st where st: "ss_status running_service = Some st" "maxBytesPerSecond (st_limits st) = 100" "moved st = 0"
    by (simp add: running_service_def initial_status_def moved_def)
  have w: "ss_windowStartedAt running_service \<le> 0" by (simp add: running_service_def new_SharedServiceManager_def)
  have "total_moved running_service = 0" using st by (simp add: total_moved_def)
  then show ?thesis
    using bandwidth_bound [OF st(1) w, of "[STcpData 0 1 True 90, STcpData 500 1 True 90, STcpData 2000 2 False 80]"] st(2)
    by (simp del: ss_step.simps)
qed

section \<open>Accounting\<close>

interpretation ssl: bounded_log push_log st_logs LOG_LIMIT
  by unfold_locales (auto simp: push_log_def Let_def)

text \<open>The connections, the peers, and what the status reports of them.\<close>

definition acct :: "SharedServiceManager \<Rightarrow> nat list \<times> (string \<times> UdpPeer) list \<times> (bool \<times> nat \<times> nat \<times> nat) option" where
  "acct m = (ss_tcpConnections m, ss_udpPeers m,
     map_option (\<lambda>st. (st_running st, st_activeTcp st, st_activeUdp st, length (st_logs st))) (ss_status m))"

fun acct_ok :: "nat list \<times> (string \<times> UdpPeer) list \<times> (bool \<times> nat \<times> nat \<times> nat) option \<Rightarrow> bool" where
  "acct_ok (c, p, None) \<longleftrightarrow> c = [] \<and> p = []"
| "acct_ok (c, p, Some (r, a, u, l)) \<longleftrightarrow> distinct c \<and> distinct (map fst p) \<and> r \<and> a = length c \<and> u = length p \<and> l \<le> LOG_LIMIT"

definition ss_inv :: "SharedServiceManager \<Rightarrow> bool" where
  "ss_inv m \<longleftrightarrow> acct_ok (acct m)"

lemma acct_fields [simp]:
  "acct (m\<lparr>ss_toLocal := q\<rparr>) = acct m" "acct (m\<lparr>ss_toRemote := q'\<rparr>) = acct m" "acct (m\<lparr>ss_closed := q''\<rparr>) = acct m"
  "acct (m\<lparr>ss_emitted := e\<rparr>) = acct m" "acct (emitChange m) = acct m"
  by (simp_all add: acct_def emitChange_def split: option.split)

lemma acct_upd:
  "(\<And>st. st_running (f st) = st_running st \<and> st_activeTcp (f st) = st_activeTcp st \<and>
      st_activeUdp (f st) = st_activeUdp st \<and> st_logs (f st) = st_logs st) \<Longrightarrow> acct (upd_status f m) = acct m"
  by (simp add: acct_def upd_status_def option.map_comp comp_def)

lemma acct_counters [simp]:
  "acct (upd_status (\<lambda>st. st\<lparr>st_dropped := f st\<rparr>) m) = acct m" "acct (upd_status (\<lambda>st. st\<lparr>st_totalTcp := f st\<rparr>) m) = acct m"
  "acct (upd_status (\<lambda>st. st\<lparr>st_totalUdp := f st\<rparr>) m) = acct m" "acct (addBytesIn n m) = acct m" "acct (addBytesOut n m) = acct m"
  unfolding addBytesIn_def addBytesOut_def by (rule acct_upd; simp)+

lemma log_fields [simp]:
  "ss_tcpConnections (ss_log now lv ev msg pr rm m) = ss_tcpConnections m" "ss_udpPeers (ss_log now lv ev msg pr rm m) = ss_udpPeers m"
  "ss_udpServer (ss_log now lv ev msg pr rm m) = ss_udpServer m"
  "ss_status (ss_log now lv ev msg pr rm m) = None \<longleftrightarrow> ss_status m = None"
  "(\<exists>y. ss_status (ss_log now lv ev msg pr rm m) = Some y) \<longleftrightarrow> ss_status m \<noteq> None"
  by (simp_all add: ss_log_def upd_status_def)

lemma push_log_fields [simp]:
  "st_running (push_log st e) = st_running st" "st_activeTcp (push_log st e) = st_activeTcp st"
  "st_activeUdp (push_log st e) = st_activeUdp st"
  by (simp_all add: push_log_def Let_def)

lemma inv_log [simp]: "ss_inv m \<Longrightarrow> ss_inv (ss_log now lv ev msg pr rm m)"
  by (cases "ss_status m") (simp_all add: ss_inv_def acct_def ss_log_def upd_status_def ssl.push_bound)

lemma inv_same: "acct m' = acct m \<Longrightarrow> ss_inv m \<Longrightarrow> ss_inv m'"
  by (simp add: ss_inv_def)

lemma inv_emit [simp]: "ss_inv (emitChange m) = ss_inv m"
  by (simp add: ss_inv_def)

lemma inv_active_tcp:
  assumes "ss_inv m" and "distinct cs" and "ss_status m = None \<Longrightarrow> cs = []"
    and "ss_status m' = ss_status m" "ss_udpPeers m' = ss_udpPeers m" "ss_tcpConnections m' = cs"
  shows "ss_inv (set_active_tcp m')"
  using assms by (cases "ss_status m") (simp_all add: ss_inv_def acct_def set_active_tcp_def upd_status_def)

lemma inv_active_udp:
  assumes "ss_inv m" and "distinct (map fst ps)" and "ss_status m = None \<Longrightarrow> ps = []"
    and "ss_status m' = ss_status m" "ss_tcpConnections m' = ss_tcpConnections m" "ss_udpPeers m' = ps"
  shows "ss_inv (set_active_udp m')"
  using assms by (cases "ss_status m") (simp_all add: ss_inv_def acct_def set_active_udp_def upd_status_def)

lemma inv_distinct: "ss_inv m \<Longrightarrow> distinct (ss_tcpConnections m) \<and> distinct (map fst (ss_udpPeers m))"
  by (cases "ss_status m") (simp_all add: ss_inv_def acct_def)

lemma inv_none: "ss_inv m \<Longrightarrow> ss_status m = None \<Longrightarrow> ss_tcpConnections m = [] \<and> ss_udpPeers m = []"
  by (simp add: ss_inv_def acct_def)

lemma inv_consume:
  assumes "ss_inv m" and "consumeBandwidth now n m = (m', ok)"
  shows "ss_inv m' \<and> ss_tcpConnections m' = ss_tcpConnections m \<and> ss_udpPeers m' = ss_udpPeers m \<and> (ss_status m' = None \<longleftrightarrow> ss_status m = None)"
proof (cases "ss_status m")
  case None
  then show ?thesis using assms by (simp add: consumeBandwidth_def)
next
  case (Some st)
  have eq: "acct (m\<lparr>ss_windowStartedAt := w, ss_windowBytes := b\<rparr>) = acct m" "acct (m\<lparr>ss_windowBytes := b\<rparr>) = acct m" for w b
    by (simp_all add: acct_def)
  show ?thesis
    using assms Some inv_same [OF eq(1) assms(1)] inv_same [OF eq(2) assms(1)]
    by (auto simp: consumeBandwidth_def Let_def split: if_splits)
qed

lemma inv_tcp_accept: "ss_inv m \<Longrightarrow> ss_status m \<noteq> None \<Longrightarrow> ss_inv (tcp_accept now r l a m)"
  unfolding tcp_accept_def Let_def inv_emit
  by (intro inv_log inv_same [OF acct_counters(2)] inv_active_tcp [of m]) (auto dest: inv_distinct)

lemma inv_handleTcp: "ss_inv m \<Longrightarrow> ss_inv (handleTcp now r l ra rp la lp lh lport m)"
  by (auto simp: handleTcp_def intro!: inv_tcp_accept inv_same [OF acct_fields(1)] inv_same [OF acct_fields(3)]
      split: option.split sum.split)

lemma inv_tcp_close: "ss_inv m \<Longrightarrow> ss_inv (tcp_close now r reason m)"
  using inv_distinct [of m] inv_none [of m]
  by (cases "map_of (ss_open m) r")
    (auto simp: tcp_close_def Let_def intro!: inv_log inv_active_tcp [of m "filter (\<lambda>s. s \<noteq> r) (ss_tcpConnections m)"])

lemma inv_tcp_data: "ss_inv m \<Longrightarrow> ss_inv (tcp_data now r incoming n m)"
  using inv_consume [of m now n]
  by (cases "consumeBandwidth now n m"; cases "snd (consumeBandwidth now n m)")
    (auto simp: tcp_data_def intro: inv_tcp_close inv_same [OF acct_counters(4)] inv_same [OF acct_counters(5)])

lemma inv_removeUdpPeer: "ss_inv m \<Longrightarrow> ss_inv (removeUdpPeer now i reason m)"
  by (cases "map_of (ss_udpPeers m) i")
    (auto simp: removeUdpPeer_def Let_def intro!: inv_log inv_active_udp [of m "AList.delete i (ss_udpPeers m)"] distinct_delete
      dest: inv_distinct inv_none)

lemma inv_create_peer: "ss_inv m \<Longrightarrow> ss_status m \<noteq> None \<Longrightarrow> ss_inv (create_peer now s h p m)"
  unfolding create_peer_def Let_def inv_emit
  by (intro inv_log inv_same [OF acct_counters(3)] inv_active_udp [of m]) (auto dest: inv_distinct intro: distinct_update)

lemma inv_addDropped: "ss_inv m \<Longrightarrow> ss_inv (addDroppedDatagram now i m)"
  by (auto simp: addDroppedDatagram_def intro!: inv_log inv_same [OF acct_counters(1)])

lemma inv_udp_response: "ss_inv m \<Longrightarrow> ss_inv (udp_response now h pt p m)"
  using inv_consume [of m now "length p"]
  by (cases "consumeBandwidth now (length p) m"; cases "snd (consumeBandwidth now (length p) m)")
    (auto simp: udp_response_def intro: inv_addDropped inv_same [OF acct_counters(5)] inv_same [OF acct_fields(2)])

lemma update_present: "map_of ps k \<noteq> None \<Longrightarrow> map fst (AList.update k v ps) = map fst ps \<and> length (AList.update k v ps) = length ps"
  by (induction ps) (auto split: if_splits)

lemma inv_touch: "ss_inv m \<Longrightarrow> map_of (ss_udpPeers m) k \<noteq> None \<Longrightarrow> ss_inv (m\<lparr>ss_udpPeers := AList.update k v (ss_udpPeers m)\<rparr>)"
  using update_present [of "ss_udpPeers m" k v] by (cases "ss_status m") (auto simp: ss_inv_def acct_def)

lemma inv_udp_forward:
  assumes "ss_inv m" and "map_of (ss_udpPeers m) (peer_id h pt) \<noteq> None"
  shows "ss_inv (udp_forward now ha peer p h pt lh lp m)"
proof -
  let ?m1 = "m\<lparr>ss_udpPeers := AList.update (peer_id h pt) (peer\<lparr>up_lastActivity := now\<rparr>) (ss_udpPeers m)\<rparr>"
  obtain m2 ok where c: "consumeBandwidth now (length p) ?m1 = (m2, ok)" by fastforce
  note i = inv_consume [OF inv_touch [OF assms] c]
  have "map_of (ss_udpPeers m2) (peer_id h pt) \<noteq> None" using i by (simp add: update_conv')
  from inv_touch [OF _ this] i have "ss_inv (m2\<lparr>ss_udpPeers := AList.update (peer_id h pt) v (ss_udpPeers m2)\<rparr>)" for v by blast
  then show ?thesis
    using i unfolding udp_forward_def Let_def c
    by (cases ok) (auto intro!: inv_addDropped inv_same [OF acct_counters(4)] inv_same [OF acct_fields(1)] split: sum.split)
qed

lemma inv_handleUdp: "ss_inv m \<Longrightarrow> ss_inv (handleUdp now sock p h pt lh lp m)"
proof -
  assume inv: "ss_inv m"
  let ?m1 = "if map_of (ss_udpPeers m) (peer_id h pt) = None then create_peer now sock h pt m else m"
  show ?thesis
  proof (cases "ss_status m")
    case (Some st)
    then have "ss_inv ?m1" using inv inv_create_peer by simp
    then show ?thesis
      unfolding handleUdp_def Some option.case Let_def
      by (cases "map_of (ss_udpPeers ?m1) (peer_id h pt)"; cases "ss_udpServer m") (simp_all only: option.case if_True if_False inv simp_thms inv_udp_forward option.simps)
  qed (simp add: inv handleUdp_def)
qed

lemma inv_cleanup: "ss_inv m \<Longrightarrow> ss_inv (cleanupIdleUdpPeers now m)"
proof -
  have "ss_inv m \<Longrightarrow> ss_inv (foldl (\<lambda>m (i, p). if idle_peer now st p then removeUdpPeer now i ''idle timeout'' m else m) m ps)" for st ps m
    by (induction ps arbitrary: m) (auto simp: inv_removeUdpPeer)
  then show "ss_inv m \<Longrightarrow> ss_inv (cleanupIdleUdpPeers now m)" by (simp add: cleanupIdleUdpPeers_def split: option.split)
qed

lemma inv_step: "ss_inv m \<Longrightarrow> ss_inv (ss_step m e)"
  by (cases e) (simp_all add: inv_handleTcp inv_tcp_data inv_tcp_close inv_handleUdp inv_udp_response inv_removeUdpPeer inv_cleanup)

lemma inv_steps: "ss_inv m \<Longrightarrow> ss_inv (foldl ss_step m es)"
  by (induction es arbitrary: m) (simp_all add: inv_step)

text \<open>A run of the service: calls to start and stop it, one after the other, and callbacks, also during
  the waits of the calls. A run is quiet in its stops if no connection and no datagram from outside
  arrives while a stop waits.\<close>

datatype ss_action =
    SStart ms string listen_answer bind_answer ss_waits SharedServiceStartRequest
  | SStop ms "ss_event list" "ss_event list"
  | SCallback ss_event

fun ss_act :: "SharedServiceManager \<Rightarrow> ss_action \<Rightarrow> SharedServiceManager" where
  "ss_act m (SStart now uuid listen bind w req) = fst (ss_start now uuid listen bind w req m)"
| "ss_act m (SStop now d1 d2) = ss_stop now d1 d2 m"
| "ss_act m (SCallback e) = ss_step m e"

fun arrives :: "ss_event \<Rightarrow> bool" where
  "arrives (STcpOpen now r l ra rp la lp lh lport) = True"
| "arrives (SUdpIn now sock p h pt lh lp) = True"
| "arrives _ = False"

fun quiet_stops :: "ss_action \<Rightarrow> bool" where
  "quiet_stops (SStart now uuid listen bind w req) \<longleftrightarrow> \<not> list_ex arrives (sw_stop1 w) \<and> \<not> list_ex arrives (sw_stop2 w)"
| "quiet_stops (SStop now d1 d2) \<longleftrightarrow> \<not> list_ex arrives d1 \<and> \<not> list_ex arrives d2"
| "quiet_stops (SCallback e) \<longleftrightarrow> True"

text \<open>Nothing comes back once a stop has cleared the service, unless something arrives.\<close>

definition cleared :: "SharedServiceManager \<Rightarrow> bool" where
  "cleared m \<longleftrightarrow> ss_tcpConnections m = [] \<and> ss_udpPeers m = []"

lemma cleared_same [simp]:
  "cleared (ss_log now lv ev msg pr rm m) = cleared m" "cleared (emitChange m) = cleared m" "cleared (upd_status f m) = cleared m"
  by (simp_all add: cleared_def emitChange_def upd_status_def split: option.split)

lemma cleared_counters [simp]:
  "cleared (addBytesIn n m) = cleared m" "cleared (addBytesOut n m) = cleared m" "cleared (addDroppedDatagram now i m) = cleared m"
  "cleared (set_active_tcp m) = cleared m" "cleared (set_active_udp m) = cleared m"
  by (simp_all add: addBytesIn_def addBytesOut_def addDroppedDatagram_def set_active_tcp_def set_active_udp_def)

lemma cleared_consume: "cleared m \<Longrightarrow> consumeBandwidth now n m = (m', ok) \<Longrightarrow> cleared m'"
  by (auto simp: consumeBandwidth_def cleared_def Let_def split: option.splits if_splits)

lemma cleared_tcp_close: "cleared m \<Longrightarrow> cleared (tcp_close now r reason m)"
  by (auto simp: tcp_close_def Let_def split: option.split) (simp add: cleared_def)

lemma cleared_removeUdpPeer: "cleared m \<Longrightarrow> cleared (removeUdpPeer now i reason m)"
  by (simp add: removeUdpPeer_def cleared_def)

lemma cleared_step: "cleared m \<Longrightarrow> \<not> arrives e \<Longrightarrow> cleared (ss_step m e)"
proof (cases e)
  case (STcpData now r incoming n)
  assume "cleared m"
  then show ?thesis using cleared_consume [of m now n]
    by (cases "consumeBandwidth now n m") (auto simp: STcpData tcp_data_def cleared_tcp_close split: bool.split)
next
  case (SUdpOut now h pt p)
  assume m: "cleared m"
  have "cleared (x\<lparr>ss_toRemote := q\<rparr>) = cleared x" for x q by (simp add: cleared_def)
  then show ?thesis using m cleared_consume [of m now "length p"]
    by (cases "consumeBandwidth now (length p) m"; cases "snd (consumeBandwidth now (length p) m)") (auto simp: SUdpOut udp_response_def)
next
  case (SCleanup now)
  assume "cleared m"
  then show ?thesis by (simp add: SCleanup cleanupIdleUdpPeers_def cleared_def split: option.split)
qed (simp_all add: cleared_tcp_close cleared_removeUdpPeer)

lemma cleared_steps: "cleared m \<Longrightarrow> \<not> list_ex arrives es \<Longrightarrow> cleared (foldl ss_step m es)"
  by (induction es arbitrary: m) (simp_all add: cleared_step)

lemma inv_stop:
  assumes "\<not> list_ex arrives d1" and "\<not> list_ex arrives d2"
  shows "ss_inv (ss_stop now d1 d2 m)"
proof -
  have tcp: "cleared (stop_tcp_closed x) = cleared x" for x by (simp add: cleared_def stop_tcp_closed_def)
  have "ss_inv (stop_end now x)" if "cleared x" for x
    using that by (simp add: ss_inv_def acct_def stop_end_def cleared_def emitChange_def upd_status_def split: option.split)
  moreover have "cleared (stop_begin m)" by (simp add: cleared_def stop_begin_def)
  ultimately show ?thesis using assms by (simp add: ss_stop_def Let_def tcp cleared_steps)
qed

lemma opt_start_inv:
  assumes "ss_inv m"
  shows "opt_start (start_tcp listen w bh) q m = (m', r) \<Longrightarrow> ss_inv m'" "opt_start (start_udp bind w bh) q m = (m', r) \<Longrightarrow> ss_inv m'"
proof -
  have s: "acct (x\<lparr>ss_tcpServer := True\<rparr>) = acct x" "acct (x\<lparr>ss_udpServer := True\<rparr>) = acct x" for x by (simp_all add: acct_def)
  have p: "acct (upd_status (\<lambda>st. st\<lparr>st_tcp := a\<rparr>) x) = acct x" "acct (upd_status (\<lambda>st. st\<lparr>st_udp := a\<rparr>) x) = acct x" for x a
    by (simp_all add: acct_upd)
  show "opt_start (start_tcp listen w bh) q m = (m', r) \<Longrightarrow> ss_inv m'" "opt_start (start_udp bind w bh) q m = (m', r) \<Longrightarrow> ss_inv m'"
    using assms inv_steps [OF assms, of w]
    by (auto simp: opt_start_def start_tcp_def start_udp_def Let_def ss_inv_def s p split: option.splits if_splits sum.splits)
qed

lemma inv_start:
  assumes inv: "ss_inv m" and quiet: "\<not> list_ex arrives (sw_stop1 w)" "\<not> list_ex arrives (sw_stop2 w)"
  shows "ss_inv (fst (ss_start now uuid listen bind w req m))"
proof (cases "ss_status m")
  case (Some st)
  then show ?thesis using inv by (simp add: ss_inv_def acct_def ss_start_def)
next
  case None
  have m0: "ss_inv (m\<lparr>ss_status := Some (initial_status now uuid limits req)\<rparr>)" for limits
    using inv_none [OF inv None] by (simp add: ss_inv_def acct_def initial_status_def)
  have "acct (x\<lparr>ss_cleanupTimer := True\<rparr>) = acct x" for x by (simp add: acct_def)
  then show ?thesis
    using inv None
    by (auto simp: ss_start_def Let_def intro!: inv_stop [OF quiet] inv_log dest!: opt_start_inv(1) [OF m0]
        dest: opt_start_inv(2) intro: inv_same split: sum.split prod.split)
qed

interpretation ssm: machine ss_act quiet_stops ss_inv
proof
  fix m e
  show "ss_inv m \<Longrightarrow> quiet_stops e \<Longrightarrow> ss_inv (ss_act m e)" by (cases e) (simp_all add: inv_step inv_start inv_stop)
qed

text \<open>C18: The status is true to the service. After any run of starts (successful or not), stops and
  callbacks, those in the waits of the calls included, in which no connection and no datagram from
  outside arrives while a stop waits: while the service runs its status counts exactly the open TCP
  connections and UDP peers, no connection or peer is kept twice and the log has at most 300 entries;
  while it does not run, neither connections nor peers are kept.\<close>

theorem service_accounting:
  assumes "list_all quiet_stops as" and "m = foldl ss_act (new_SharedServiceManager t0) as"
  shows "distinct (ss_tcpConnections m) \<and> distinct (map fst (ss_udpPeers m)) \<and>
    (case ss_status m of
       None \<Rightarrow> ss_tcpConnections m = [] \<and> ss_udpPeers m = []
     | Some st \<Rightarrow> st_running st \<and> st_activeTcp st = length (ss_tcpConnections m) \<and>
         st_activeUdp st = length (ss_udpPeers m) \<and> length (st_logs st) \<le> 300)"
proof -
  have "ss_inv (new_SharedServiceManager t0)" by (simp add: ss_inv_def acct_def new_SharedServiceManager_def)
  then have inv: "ss_inv m" unfolding assms(2) by (rule ssm.run_good [OF _ assms(1)])
  then show ?thesis
    using inv_distinct [OF inv] by (cases "ss_status m") (auto simp: ss_inv_def acct_def LOG_LIMIT_def)
qed

definition share_run :: "ss_action list" where
  "share_run =
    [SStart 0 ''id'' (\<lambda>_ _. Inr (Some 7)) (\<lambda>_ _. Inr 8)
       \<lparr>sw_tcp = [], sw_udp = [STcpOpen 1 1 2 ''h'' 5 ''l'' 7 ''h'' 9], sw_stop1 = [], sw_stop2 = []\<rparr>
       \<lparr>rq_name = None, rq_publicHost = None, rq_bindHost = None, rq_haproxy = False,
        rq_tcp = Some \<lparr>pr_enabled = True, pr_localHost = None, pr_localPort = JNum (Fin 9), pr_publicPort = JUndef\<rparr>,
        rq_udp = Some \<lparr>pr_enabled = True, pr_localHost = None, pr_localPort = JNum (Fin 9), pr_publicPort = JUndef\<rparr>,
        rq_limits = JUndef\<rparr>,
     SCallback (SUdpIn 2 3 [1] ''h'' 5 ''h'' 9)]"

definition share_stop :: ss_action where
  "share_stop = SStop 3 [STcpClose 3 1 ''remote close''] []"

theorem service_accounting_witness:
  "(case ss_status (foldl ss_act (new_SharedServiceManager 0) share_run) of
      None \<Rightarrow> False | Some st \<Rightarrow> st_activeTcp st = 1 \<and> st_activeUdp st = 1) \<and>
   ss_tcpConnections (foldl ss_act (new_SharedServiceManager 0) (share_run @ [share_stop])) = [] \<and>
   ss_udpPeers (foldl ss_act (new_SharedServiceManager 0) (share_run @ [share_stop])) = []"
proof -
  let ?m = "foldl ss_act (new_SharedServiceManager 0) share_run"
    and ?n = "foldl ss_act (new_SharedServiceManager 0) (share_run @ [share_stop])"
  have q: "list_all quiet_stops share_run" "list_all quiet_stops (share_run @ [share_stop])"
    by (simp_all add: share_run_def share_stop_def)
  have "length (ss_tcpConnections ?m) = 1 \<and> length (ss_udpPeers ?m) = 1 \<and> ss_status ?m \<noteq> None"
    by (simp add: share_run_def ss_start_def enabled_def normalizeLimits_def opt_prop_def new_SharedServiceManager_def bindE_def
        Let_def opt_start_def start_tcp_def start_udp_def requirePort_def rat_is_int_def upd_status_def initial_status_def
        positiveInt_def DEFAULT_LIMITS_def handleTcp_def tcp_accept_def set_active_tcp_def emitChange_def ss_log_def handleUdp_def
        create_peer_def set_active_udp_def udp_forward_def consumeBandwidth_def addBytesIn_def push_log_def LOG_LIMIT_def)
  moreover have "ss_status ?n = None" by (simp add: share_stop_def ss_stop_def stop_end_def Let_def)
  ultimately show ?thesis
    using service_accounting [OF q(1) refl, of 0] service_accounting [OF q(2) refl, of 0] by (auto split: option.splits)
qed

lemma remove_peers: "ss_udpPeers (removeUdpPeer now i reason m) = AList.delete i (ss_udpPeers m)"
proof (cases "map_of (ss_udpPeers m) i")
  case None
  then have "AList.delete i (ss_udpPeers m) = ss_udpPeers m" by (simp add: delete_id map_of_eq_None_iff)
  then show ?thesis using None by (simp add: removeUdpPeer_def)
next
  case (Some p)
  then show ?thesis by (simp add: removeUdpPeer_def Let_def emitChange_def set_active_udp_def upd_status_def split: option.split)
qed

lemma cleanup_fold:
  "ss_udpPeers (foldl (\<lambda>m (i, p). if idle_peer now st p then removeUdpPeer now i ''idle timeout'' m else m) m ps) =
     filter (\<lambda>q. \<forall>r \<in> set ps. fst r = fst q \<longrightarrow> \<not> idle_peer now st (snd r)) (ss_udpPeers m)"
proof (induction ps arbitrary: m)
  case (Cons q ps)
  obtain i p where q: "q = (i, p)" by (cases q)
  show ?case
    unfolding q foldl_Cons prod.case Cons.IH
    by (cases "idle_peer now st p") (auto simp: remove_peers AList.delete_eq intro!: filter_cong)
qed simp

text \<open>C31: Idle peers expire and no others: after a clean-up the service keeps, in order, exactly the peers
  active within the session timeout.\<close>

theorem idle_peers_expire:
  assumes "distinct (map fst (ss_udpPeers m))" and "ss_status m = Some st"
  shows "ss_udpPeers (cleanupIdleUdpPeers now m) =
     filter (\<lambda>q. now - up_lastActivity (snd q) < int (udpSessionTimeoutSeconds (st_limits st)) * 1000) (ss_udpPeers m)"
proof -
  have "ss_udpPeers (cleanupIdleUdpPeers now m) = filter (\<lambda>q. \<not> idle_peer now st (snd q)) (ss_udpPeers m)"
    unfolding cleanupIdleUdpPeers_def assms(2) option.case cleanup_fold
    by (intro filter_cong) (auto, metis eq_key_imp_eq_value [OF assms(1)])
  then show ?thesis by (simp add: idle_peer_def not_le)
qed

theorem idle_peers_expire_witness:
  "ss_udpPeers (cleanupIdleUdpPeers 70000 (running_service\<lparr>ss_udpPeers :=
      [(''a'', \<lparr>up_host = ''a'', up_port = 1, up_socket = 1, up_lastActivity = 10000, up_proxyHeaderSent = False\<rparr>),
       (''b'', \<lparr>up_host = ''b'', up_port = 1, up_socket = 2, up_lastActivity = 10001, up_proxyHeaderSent = False\<rparr>)]\<rparr>)) =
   [(''b'', \<lparr>up_host = ''b'', up_port = 1, up_socket = 2, up_lastActivity = 10001, up_proxyHeaderSent = False\<rparr>)]"
proof -
  obtain st where st: "ss_status running_service = Some st" "udpSessionTimeoutSeconds (st_limits st) = 60"
    by (simp add: running_service_def initial_status_def DEFAULT_LIMITS_def)
  let ?m = "running_service\<lparr>ss_udpPeers :=
      [(''a'', \<lparr>up_host = ''a'', up_port = 1, up_socket = 1, up_lastActivity = 10000, up_proxyHeaderSent = False\<rparr>),
       (''b'', \<lparr>up_host = ''b'', up_port = 1, up_socket = 2, up_lastActivity = 10001, up_proxyHeaderSent = False\<rparr>)]\<rparr>"
  have "ss_status ?m = Some st" "distinct (map fst (ss_udpPeers ?m))" using st(1) by simp_all
  from idle_peers_expire [OF this(2,1), of 70000] show ?thesis using st(2) by simp
qed

section \<open>A datagram during the stop\<close>

lemma emit_fields [simp]:
  "ss_udpPeers (emitChange m) = ss_udpPeers m" "ss_closed (emitChange m) = ss_closed m" "ss_status (emitChange m) = ss_status m"
  "ss_udpPeers (upd_status f m) = ss_udpPeers m" "ss_closed (upd_status f m) = ss_closed m"
  "ss_closed (ss_log now lv ev msg pr rm m) = ss_closed m"
  by (simp_all add: emitChange_def ss_log_def upd_status_def split: option.split)

lemma consume_fields:
  assumes "consumeBandwidth now n m = (m', ok)"
  shows "ss_udpPeers m' = ss_udpPeers m" "ss_closed m' = ss_closed m"
  using assms by (auto simp: consumeBandwidth_def Let_def split: option.splits if_splits)

lemma forward_fields:
  "\<exists>q. map_of (ss_udpPeers (udp_forward now ha peer p h pt lh lp m)) (peer_id h pt) = Some q \<and> up_socket q = up_socket peer"
  "ss_closed (udp_forward now ha peer p h pt lh lp m) = ss_closed m"
proof -
  let ?m1 = "m\<lparr>ss_udpPeers := AList.update (peer_id h pt) (peer\<lparr>up_lastActivity := now\<rparr>) (ss_udpPeers m)\<rparr>"
  obtain m2 ok where c: "consumeBandwidth now (length p) ?m1 = (m2, ok)" by fastforce
  note f = consume_fields [OF c]
  show "\<exists>q. map_of (ss_udpPeers (udp_forward now ha peer p h pt lh lp m)) (peer_id h pt) = Some q \<and> up_socket q = up_socket peer"
    unfolding udp_forward_def Let_def c
    by (cases ok) (auto simp: f update_conv' addDroppedDatagram_def addBytesIn_def split: sum.split)
  show "ss_closed (udp_forward now ha peer p h pt lh lp m) = ss_closed m"
    unfolding udp_forward_def Let_def c by (cases ok) (auto simp: f addDroppedDatagram_def addBytesIn_def split: sum.split)
qed

text \<open>A datagram that arrives while a stop waits for the TCP server leaves a peer behind. The peers have
  been cleared by then, the datagram makes a new one, and when the stop is done the service is not
  running, the peer is still in the map, its socket is not among those that were closed, and the
  clean-up, which does nothing without a status, never removes it.\<close>

lemma datagram_during_stop_leaks:
  fixes m t1 t2 sock p h pt lh lp
  assumes "ss_status m = Some st" and "ss_udpServer m" and "ss_tcpServer m"
  defines "m' \<equiv> ss_stop t2 [SUdpIn t1 sock p h pt lh lp] [] m"
  shows "ss_status m' = None \<and> \<not> ss_udpServer m' \<and>
     (\<exists>q. map_of (ss_udpPeers m') (peer_id h pt) = Some q \<and> up_socket q = sock) \<and>
     ss_closed m' = ss_closed m @ ss_tcpConnections m @ map (\<lambda>q. up_socket (snd q)) (ss_udpPeers m) \<and>
     cleanupIdleUdpPeers t3 m' = m'"
proof -
  let ?b = "stop_begin m" and ?c = "create_peer t1 sock h pt (stop_begin m)"
  have b: "ss_status ?b = Some st" "ss_udpServer ?b" "ss_udpPeers ?b = []" using assms(1,2) by (simp_all add: stop_begin_def)
  have c: "map_of (ss_udpPeers ?c) (peer_id h pt) = Some \<lparr>up_host = h, up_port = pt, up_socket = sock, up_lastActivity = t1, up_proxyHeaderSent = False\<rparr>"
    "ss_closed ?c = ss_closed ?b"
    using b(3) by (simp_all add: create_peer_def Let_def set_active_udp_def)
  have u: "handleUdp t1 sock p h pt lh lp ?b = udp_forward t1 (st_haproxy st)
      \<lparr>up_host = h, up_port = pt, up_socket = sock, up_lastActivity = t1, up_proxyHeaderSent = False\<rparr> p h pt lh lp ?c"
    using b c(1) by (simp add: handleUdp_def Let_def)
  have m': "ss_status m' = None" "\<not> ss_udpServer m'"
    "ss_udpPeers m' = ss_udpPeers (handleUdp t1 sock p h pt lh lp ?b)" "ss_closed m' = ss_closed (handleUdp t1 sock p h pt lh lp ?b)"
    unfolding m'_def ss_stop_def Let_def stop_end_def stop_tcp_closed_def
    using assms(3) by (simp_all add: stop_begin_def emitChange_def ss_log_def upd_status_def split: option.split)
  have "ss_closed m' = ss_closed ?b" using m'(4) c(2) forward_fields(2) by (simp add: u)
  then show ?thesis
    using m' forward_fields(1) [of t1 "st_haproxy st" "\<lparr>up_host = h, up_port = pt, up_socket = sock, up_lastActivity = t1, up_proxyHeaderSent = False\<rparr>" p h pt lh lp ?c]
    unfolding u by (auto simp: cleanupIdleUdpPeers_def stop_begin_def)
qed

end
