(* ===== verification/Downloader.thy ===== *)
theory Downloader
  imports JsValue AuthManager
begin

text \<open>
  Releases of the proxy: \<open>FerrumGUI/src/downloader.ts\<close>. The version manifest is an arbitrary JSON
  value; what \<open>fetch\<close> answers is an argument, and so are the clock and the repository and tag of the
  process environment. Cached values carry the time they were stored.
\<close>

section \<open>The cache\<close>

definition CACHE_DURATION :: ms where "CACHE_DURATION = 60 * 60 * 1000"

record ReleaseAsset =
  ra_name :: jsval
  ra_downloadUrl :: jsval
  ra_size :: jsnum
  ra_platform :: "string option"

record Release =
  rel_version :: string
  rel_tag :: jsval
  rel_publishedAt :: jsval
  rel_assets :: "ReleaseAsset list"
  rel_commit :: jsval

datatype cached = CRelease Release | CReleases "Release list"

record ReleaseCache =
  ch_cache :: "(string \<times> cached \<times> ms) list"
  ch_rateLimited :: bool
  ch_rateLimitUntil :: ms

definition new_ReleaseCache :: ReleaseCache where
  "new_ReleaseCache = \<lparr>ch_cache = [], ch_rateLimited = False, ch_rateLimitUntil = 0\<rparr>"

definition cache_get :: "ms \<Rightarrow> string \<Rightarrow> ReleaseCache \<Rightarrow> ReleaseCache \<times> cached option" where
  "cache_get now key c =
     (case map_of (ch_cache c) key of
        None \<Rightarrow> (c, None)
      | Some (data, timestamp) \<Rightarrow>
          if now - timestamp > CACHE_DURATION then (c\<lparr>ch_cache := AList.delete key (ch_cache c)\<rparr>, None)
          else (c, Some data))"

definition cache_set :: "ms \<Rightarrow> string \<Rightarrow> cached \<Rightarrow> ReleaseCache \<Rightarrow> ReleaseCache" where
  "cache_set now key data c = c\<lparr>ch_cache := AList.update key (data, now) (ch_cache c)\<rparr>"

definition cache_clear :: "ReleaseCache \<Rightarrow> ReleaseCache" where
  "cache_clear c = c\<lparr>ch_cache := []\<rparr>"

definition setRateLimited :: "ms \<Rightarrow> ms option \<Rightarrow> ReleaseCache \<Rightarrow> ReleaseCache" where
  "setRateLimited now until c =
     c\<lparr>ch_rateLimited := True,
       ch_rateLimitUntil := (case until of Some u \<Rightarrow> if u = 0 then now + 60 * 60 * 1000 else u | None \<Rightarrow> now + 60 * 60 * 1000)\<rparr>"

definition isRateLimited :: "ms \<Rightarrow> ReleaseCache \<Rightarrow> ReleaseCache \<times> bool" where
  "isRateLimited now c =
     (if \<not> ch_rateLimited c then (c, False)
      else if now > ch_rateLimitUntil c then (c\<lparr>ch_rateLimited := False\<rparr>, False)
      else (c, True))"

section \<open>The manifest\<close>

text \<open>The answer to a request: it fails, or it has a status, a status text and a body, which may not
  be JSON.\<close>

datatype fetched = FetchError string | Fetched nat string "jsval res"

definition ok_status :: "nat \<Rightarrow> bool" where "ok_status s \<longleftrightarrow> 200 \<le> s \<and> s < 300"

definition or_else :: "jsval \<Rightarrow> jsval \<Rightarrow> jsval" where
  "or_else a b = (if js_truthy a then a else b)"

definition read_asset :: "jsval \<Rightarrow> ReleaseAsset res" where
  "read_asset a =
     bindE (js_prop a ''name'') (\<lambda>n. bindE (js_prop a ''downloadUrl'') (\<lambda>u.
     bindE (js_prop a ''size'') (\<lambda>sz. bindE (js_prop a ''platform'') (\<lambda>p.
     Inr \<lparr>ra_name = n, ra_downloadUrl = u, ra_size = (case sz of JNum x \<Rightarrow> x | _ \<Rightarrow> Fin 0),
          ra_platform = (case p of JStr s \<Rightarrow> Some s | _ \<Rightarrow> None)\<rparr>))))"

text \<open>A manifest without a version text or an array of assets counts as missing.\<close>

definition read_manifest :: "string \<Rightarrow> string \<Rightarrow> jsval \<Rightarrow> Release option res" where
  "read_manifest tag nowText m =
     (if \<not> js_truthy m then Inr None
      else bindE (js_prop m ''version'') (\<lambda>v. bindE (js_prop m ''assets'') (\<lambda>as.
        case (v, as) of
          (JStr version, JArr xs) \<Rightarrow>
            bindE (js_prop m ''tag'') (\<lambda>t. bindE (js_prop m ''buildDate'') (\<lambda>d. bindE (js_prop m ''commit'') (\<lambda>co.
            bindE (mapE read_asset xs) (\<lambda>assets.
            Inr (Some \<lparr>rel_version = version, rel_tag = or_else t (JStr tag), rel_publishedAt = or_else d (JStr nowText),
                       rel_assets = assets, rel_commit = co\<rparr>)))))
        | _ \<Rightarrow> Inr None)))"

definition fetchVersionManifest :: "string \<Rightarrow> string \<Rightarrow> fetched \<Rightarrow> Release option" where
  "fetchVersionManifest tag nowText answer =
     (case answer of
        FetchError m \<Rightarrow> None
      | Fetched status text body \<Rightarrow>
          if \<not> ok_status status then None
          else (case bindE body (read_manifest tag nowText) of Inl e \<Rightarrow> None | Inr r \<Rightarrow> r))"

definition fallbackRelease :: "string \<Rightarrow> string \<Rightarrow> Release" where
  "fallbackRelease tag nowText =
     \<lparr>rel_version = ''latest'', rel_tag = JStr tag, rel_publishedAt = JStr nowText, rel_assets = [], rel_commit = JUndef\<rparr>"

section \<open>Releases\<close>

definition fetch_release :: "ms \<Rightarrow> string \<Rightarrow> string \<Rightarrow> fetched \<Rightarrow> ReleaseCache \<Rightarrow> ReleaseCache \<times> Release" where
  "fetch_release now tag nowText answer c =
     (case fetchVersionManifest tag nowText answer of
        None \<Rightarrow> (let fb = fallbackRelease tag nowText in (cache_set now ''latest'' (CRelease fb) c, fb))
      | Some r \<Rightarrow> (cache_set now ''all'' (CReleases [r]) (cache_set now ''latest'' (CRelease r) c), r))"

definition getLatestRelease :: "bool \<Rightarrow> ms \<Rightarrow> string \<Rightarrow> string \<Rightarrow> fetched \<Rightarrow> ReleaseCache \<Rightarrow> ReleaseCache \<times> Release" where
  "getLatestRelease force now tag nowText answer c =
     (if force then fetch_release now tag nowText answer c
      else case cache_get now ''latest'' c of
             (c1, Some (CRelease r)) \<Rightarrow> (c1, r)
           | (c1, _) \<Rightarrow> fetch_release now tag nowText answer c1)"

definition getAllReleases :: "bool \<Rightarrow> ms \<Rightarrow> string \<Rightarrow> string \<Rightarrow> fetched \<Rightarrow> ReleaseCache \<Rightarrow> ReleaseCache \<times> Release list" where
  "getAllReleases force now tag nowText answer c =
     (let fetch = (\<lambda>c. case getLatestRelease force now tag nowText answer c of
                         (c1, r) \<Rightarrow> (cache_set now ''all'' (CReleases [r]) c1, [r])) in
      if force then fetch c
      else case cache_get now ''all'' c of
             (c1, Some (CReleases rs)) \<Rightarrow> (c1, rs)
           | (c1, _) \<Rightarrow> fetch c1)"

definition getReleaseByVersion ::
  "string \<Rightarrow> bool \<Rightarrow> ms \<Rightarrow> string \<Rightarrow> string \<Rightarrow> fetched \<Rightarrow> ReleaseCache \<Rightarrow> ReleaseCache \<times> Release" where
  "getReleaseByVersion version force now tag nowText answer c = getLatestRelease force now tag nowText answer c"

section \<open>Assets\<close>

fun toVersionJsonPlatform :: "FerrumProxyPlatform \<Rightarrow> string" where
  "toVersionJsonPlatform Linux = ''linux-x64''"
| "toVersionJsonPlatform Linux_arm64 = ''linux-arm64''"
| "toVersionJsonPlatform Macos_arm64 = ''macos-arm64''"
| "toVersionJsonPlatform Windows = ''windows-x64''"

definition resolveAssetForPlatform :: "Release \<Rightarrow> FerrumProxyPlatform \<Rightarrow> ReleaseAsset option" where
  "resolveAssetForPlatform release platform =
     find (\<lambda>a. ra_platform a = Some (toVersionJsonPlatform platform)) (rel_assets release)"

fun getPlatformAssetName :: "FerrumProxyPlatform \<Rightarrow> string \<Rightarrow> string" where
  "getPlatformAssetName Linux v = ''FerrumProxy-linux-x64''"
| "getPlatformAssetName Linux_arm64 v = ''FerrumProxy-linux-arm64''"
| "getPlatformAssetName Macos_arm64 v = ''FerrumProxy-macos-arm64''"
| "getPlatformAssetName Windows v = ''FerrumProxy-windows-x64.exe''"

text \<open>A download: the answer of the server, the chunks of the body in order (or \<open>None\<close> without a body),
  the error that ends the reading if any, and the error of the file system if any. \<open>dl_mkdir\<close> is the
  error of making the directory or of a request without an answer. The result is what the file holds, and the progress reported before each chunk is written.\<close>

record download =
  dl_mkdir :: "js_error option"
  dl_status :: nat
  dl_statusText :: string
  dl_contentLength :: "string option"
  dl_chunks :: "string list option"
  dl_readError :: "js_error option"
  dl_writeError :: "js_error option"

definition total_size :: "string option \<Rightarrow> int option" where
  "total_size len = parseInt (case len of None \<Rightarrow> ''0'' | Some s \<Rightarrow> if s = [] then ''0'' else s)"

fun progress :: "nat \<Rightarrow> string list \<Rightarrow> nat list" where
  "progress n [] = []"
| "progress n (c # cs) = (n + length c) # progress (n + length c) cs"

definition downloadBinary :: "download \<Rightarrow> nat list \<times> string res" where
  "downloadBinary d =
     (case dl_mkdir d of
        Some e \<Rightarrow> ([], Inl e)
      | None \<Rightarrow>
          if \<not> ok_status (dl_status d) then ([], Inl (Error (''Failed to download: '' @ dl_statusText d)))
          else (case dl_chunks d of
                  None \<Rightarrow> ([], Inl (Error ''Response body is null''))
                | Some cs \<Rightarrow>
                    (progress 0 cs,
                     case dl_readError d of
                       Some e \<Rightarrow> Inl e
                     | None \<Rightarrow> (case dl_writeError d of Some e \<Rightarrow> Inl e | None \<Rightarrow> Inr (concat cs)))))"

definition setExecutablePermissions :: "bool \<Rightarrow> js_error option \<Rightarrow> unit res" where
  "setExecutablePermissions win32 chmod = (if win32 then Inr () else case chmod of Some e \<Rightarrow> Inl e | None \<Rightarrow> Inr ())"

definition platform_name :: "FerrumProxyPlatform \<Rightarrow> string" where
  "platform_name p = (case p of Linux \<Rightarrow> ''linux'' | Linux_arm64 \<Rightarrow> ''linux-arm64'' | Macos_arm64 \<Rightarrow> ''macos-arm64'' | Windows \<Rightarrow> ''windows'')"

definition downloadAndVerifyBinary ::
  "bool \<Rightarrow> js_error option \<Rightarrow> ms \<Rightarrow> string \<Rightarrow> string \<Rightarrow> fetched \<Rightarrow> (jsval \<Rightarrow> download) \<Rightarrow> FerrumProxyPlatform \<Rightarrow>
   ReleaseCache \<Rightarrow> ReleaseCache \<times> string res" where
  "downloadAndVerifyBinary win32 chmod now tag nowText answer get platform c =
     (case getLatestRelease False now tag nowText answer c of
        (c1, release) \<Rightarrow>
          (case resolveAssetForPlatform release platform of
             None \<Rightarrow> (c1, Inl (Error (''No asset for '' @ platform_name platform @ '' in release '' @ rel_version release)))
           | Some asset \<Rightarrow>
               (case downloadBinary (get (ra_downloadUrl asset)) of
                  (_, Inl e) \<Rightarrow> (c1, Inl e)
                | (_, Inr content) \<Rightarrow>
                    (c1, bindE (setExecutablePermissions win32 chmod) (\<lambda>_. Inr content)))))"

section \<open>A failed request\<close>

text \<open>One failed request hides the release for an hour. When the manifest cannot be read, the
  placeholder without assets is stored like a release: every unforced call within the next hour
  returns it without asking again, whatever the server would answer, and no platform has a download.\<close>

lemma failed_fetch_is_kept:
  assumes "fetchVersionManifest tag text answer = None" and "t0 \<le> t" and "t - t0 \<le> 3600000"
    and "fetch_release t0 tag text answer c = (c1, r)"
  shows "getLatestRelease False t tag' text' answer' c1 = (c1, r) \<and> resolveAssetForPlatform r p = None"
  using assms
  by (auto simp: fetch_release_def getLatestRelease_def cache_get_def cache_set_def CACHE_DURATION_def update_conv'
      fallbackRelease_def resolveAssetForPlatform_def Let_def)

end
