(* ===== verification/SystemdUpdate.thy ===== *)
theory SystemdUpdate
  imports RelayWire AuthManager
begin

text \<open>
  Restart of the GUI under systemd: \<open>FerrumGUI/src/systemdUpdate.ts\<close>. The text of the control group
  file, the output of \<open>systemctl\<close>, the user id and the failures of the file system are arguments; files
  are an association list from paths to contents.
\<close>

section \<open>The unit of the process\<close>

text \<open>The path of a line of the form \<open>0::/path\<close> or \<open>n:name=systemd:/path\<close>.\<close>

definition cgroup_path :: "string \<Rightarrow> string option" where
  "cgroup_path line =
     (let ds = takeWhile is_digit line; rest = dropWhile is_digit line;
          path = (if startsWith line ''0::'' then Some (drop 3 line)
                  else if ds \<noteq> [] \<and> startsWith rest '':name=systemd:'' then Some (drop 14 rest) else None) in
      case path of
        Some p \<Rightarrow> if startsWith p ''/'' \<and> CHR 0x0D \<notin> set p then Some p else None
      | None \<Rightarrow> None)"

definition unit_char :: "char \<Rightarrow> bool" where
  "unit_char c \<longleftrightarrow> is_digit c \<or> (65 \<le> (of_char c :: nat) \<and> (of_char c :: nat) \<le> 90) \<or>
     (97 \<le> (of_char c :: nat) \<and> (of_char c :: nat) \<le> 122) \<or> c \<in> set [CHR ''_'', CHR '':'', CHR ''@'', CHR ''.'', CHR 0x5C, CHR ''-'']"

definition service_name :: "string \<Rightarrow> bool" where
  "service_name u \<longleftrightarrow> 8 < length u \<and> endsWith u ''.service'' \<and> list_all unit_char u"

definition user_manager :: "string \<Rightarrow> bool" where
  "user_manager u \<longleftrightarrow> startsWith u ''user@'' \<and> endsWith u ''.service'' \<and> 13 < length u \<and>
     list_all is_digit (take (length u - 13) (drop 5 u))"

definition service_of_line :: "string \<Rightarrow> (string \<times> bool) option" where
  "service_of_line line =
     (case cgroup_path line of
        None \<Rightarrow> None
      | Some p \<Rightarrow>
          let segs = split_char (CHR ''/'') p; named = filter (\<lambda>s. s \<noteq> []) segs in
          if named = [] then None
          else if service_name (last named) \<and> \<not> user_manager (last named)
          then Some (last named, list_ex user_manager (tl (butlast segs)))
          else None)"

fun serviceFromCgroup_lines :: "string list \<Rightarrow> (string \<times> bool) option" where
  "serviceFromCgroup_lines [] = None"
| "serviceFromCgroup_lines (l # ls) =
     (case service_of_line l of Some s \<Rightarrow> Some s | None \<Rightarrow> serviceFromCgroup_lines ls)"

definition serviceFromCgroup :: "string \<Rightarrow> (string \<times> bool) option" where
  "serviceFromCgroup cgroup = serviceFromCgroup_lines (split_char (CHR 0x0A) cgroup)"

section \<open>Its properties\<close>

record SystemdService =
  sd_unit :: string
  sd_user :: bool
  sd_properties :: "(string \<times> string) list"

definition property :: "string \<Rightarrow> (string \<times> string) list \<Rightarrow> string option" where
  "property k ps = map_of ps k"

definition read_property :: "(string \<times> string) list \<Rightarrow> string \<Rightarrow> (string \<times> string) list" where
  "read_property ps line =
     (let k = takeWhile (\<lambda>c. c \<noteq> CHR ''='') line in
      if k \<noteq> [] \<and> CHR ''='' \<in> set line then AList.update k (trim (drop (length k + 1) line)) ps else ps)"

definition read_properties :: "string \<Rightarrow> (string \<times> string) list" where
  "read_properties output = foldl read_property [] (split_char (CHR 0x0A) output)"

definition detectSystemdService ::
  "bool \<Rightarrow> string option \<Rightarrow> nat \<Rightarrow> string res \<Rightarrow> (string \<times> bool \<Rightarrow> string res) \<Rightarrow> SystemdService option res" where
  "detectSystemdService linux invocationId pid cgroup run =
     (if \<not> linux \<or> invocationId = None \<or> invocationId = Some [] then Inr None
      else bindE cgroup (\<lambda>text.
        case serviceFromCgroup text of
          None \<Rightarrow> Inl (Error ''Cannot identify the systemd service running this GUI. Use the GUI binary directly in ExecStart.'')
        | Some (u, user) \<Rightarrow>
            bindE (run (u, user)) (\<lambda>output.
              let ps = read_properties output in
              if (case property ''MainPID'' ps of None \<Rightarrow> NaN | Some s \<Rightarrow> str_number s) \<noteq> Fin (of_nat pid) \<or>
                 property ''InvocationID'' ps \<noteq> invocationId
              then Inl (Error (''The GUI is not the main process of '' @ u @ ''. Use the GUI binary directly in ExecStart.''))
              else Inr (Some \<lparr>sd_unit = u, sd_user = user, sd_properties = ps\<rparr>))))"

section \<open>Durations\<close>

definition word_char :: "char \<Rightarrow> bool" where
  "word_char c \<longleftrightarrow> is_digit c \<or> (65 \<le> (of_char c :: nat) \<and> (of_char c :: nat) \<le> 90) \<or>
     (97 \<le> (of_char c :: nat) \<and> (of_char c :: nat) \<le> 122) \<or> c = CHR ''_''"

definition duration_units :: "(string \<times> rat) list" where
  "duration_units = [(''us'', 1 / 1000), (''ms'', 1), (''min'', 60000), (''s'', 1000), (''h'', 3600000),
     (''d'', 86400000), (''w'', 604800000)]"

text \<open>The unit at the head of a text, followed by no word character, and what follows it.\<close>

definition unit_at :: "string \<Rightarrow> (rat \<times> string) option" where
  "unit_at s =
     (case find (\<lambda>(u, f). startsWith s u \<and> (case drop (length u) s of [] \<Rightarrow> True | c # _ \<Rightarrow> \<not> word_char c)) duration_units of
        None \<Rightarrow> None
      | Some (u, f) \<Rightarrow> Some (f, drop (length u) s))"

text \<open>A decimal number at the head: its value and the rest.\<close>

definition number_at :: "string \<Rightarrow> (rat \<times> string) option" where
  "number_at s =
     (let ds = takeWhile is_digit s; r = dropWhile is_digit s in
      if ds = [] then None
      else case r of
             c # r1 \<Rightarrow>
               let fs = takeWhile is_digit r1 in
               if c = CHR ''.'' \<and> fs \<noteq> []
               then Some (of_nat (dec_val ds) + of_nat (dec_val fs) / 10 ^ length fs, dropWhile is_digit r1)
               else Some (of_nat (dec_val ds), r)
           | [] \<Rightarrow> Some (of_nat (dec_val ds), r))"

definition duration_at :: "string \<Rightarrow> (rat \<times> string) option" where
  "duration_at s =
     (case number_at s of
        None \<Rightarrow> None
      | Some (a, r) \<Rightarrow> (case unit_at (dropWhile is_ws r) of None \<Rightarrow> None | Some (f, r') \<Rightarrow> Some (a * f, r')))"

lemma duration_at_shorter:
  assumes "duration_at s = Some (v, r)"
  shows "length r < length s"
proof -
  obtain a r0 where n: "number_at s = Some (a, r0)" and u: "\<exists>f. unit_at (dropWhile is_ws r0) = Some (f, r)"
    using assms by (auto simp: duration_at_def split: option.splits)
  have "length (dropWhile is_digit x) \<le> length s" if "dropWhile is_digit s = c # x" for c x
    using length_dropWhile_le [of is_digit s, unfolded that] length_dropWhile_le [of is_digit x] by simp
  then have "length r0 \<le> length s"
    using n by (auto simp: number_at_def Let_def length_dropWhile_le split: if_splits list.splits)
  moreover have "length r < length (dropWhile is_ws r0)"
    using u by (auto simp: unit_at_def duration_units_def startsWith_def prefix_def split: if_splits option.splits)
  ultimately show ?thesis using length_dropWhile_le [of is_ws r0] by linarith
qed

text \<open>The global replacement: the sum of what was matched and the text that is left.\<close>

function take_durations :: "string \<Rightarrow> rat \<times> string" where
  "take_durations s =
     (case s of
        [] \<Rightarrow> (0, [])
      | c # cs \<Rightarrow>
          (case duration_at s of
             Some (v, r) \<Rightarrow> (let (t, left) = take_durations r in (v + t, left))
           | None \<Rightarrow> (let (t, left) = take_durations cs in (t, c # left))))"
  by pat_completeness auto
termination by (relation "measure length") (auto dest: duration_at_shorter)

declare take_durations.simps [simp del]

definition systemdDurationMs :: "string \<Rightarrow> rat res" where
  "systemdDurationMs v =
     (if v = ''0'' then Inr 0
      else let (total, left) = take_durations v in
           if trim left \<noteq> [] \<or> v = [] then Inl (Error (''Unsupported systemd restart delay: '' @ v)) else Inr total)"

section \<open>The restart plan\<close>

definition status_set :: "string option \<Rightarrow> string list" where
  "status_set v = split_ws (case v of None \<Rightarrow> [] | Some s \<Rightarrow> s)"

definition restarts_on :: "(string \<times> string) list \<Rightarrow> nat \<Rightarrow> bool" where
  "restarts_on ps code \<longleftrightarrow>
     show_nat code \<notin> set (status_set (property ''RestartPreventExitStatus'' ps)) \<and>
     (let success = ''0'' # status_set (property ''SuccessExitStatus'' ps); r = property ''Restart'' ps in
      r = Some ''always'' \<or> r = Some ''on-success'' \<and> show_nat code \<in> set success \<or>
      r = Some ''on-failure'' \<and> show_nat code \<notin> set success)"

definition automaticRestartExitCode :: "(string \<times> string) list \<Rightarrow> nat option" where
  "automaticRestartExitCode ps =
     (if property ''ExitType'' ps = Some ''cgroup'' then None else find (restarts_on ps) [0..<126])"

record restart_plan =
  rp_managerRestart :: bool
  rp_exitCode :: nat
  rp_restartTimeoutMs :: rat

definition systemdRestartPlan :: "SystemdService \<Rightarrow> nat \<Rightarrow> restart_plan res" where
  "systemdRestartPlan service uid =
     (let ps = sd_properties service in
      if (uid = 0 \<or> sd_user service) \<and> property ''RefuseManualStart'' ps \<noteq> Some ''yes'' \<and> property ''RefuseManualStop'' ps \<noteq> Some ''yes''
      then Inr \<lparr>rp_managerRestart = True, rp_exitCode = 0, rp_restartTimeoutMs = 90000\<rparr>
      else case automaticRestartExitCode ps of
             None \<Rightarrow> Inl (Error (sd_unit service @ '' cannot restart this GUI automatically. Set Restart=always with ExitType=main, or run it with permission to restart its systemd unit.''))
           | Some code \<Rightarrow>
               bindE (systemdDurationMs (case property ''RestartUSec'' ps of None \<Rightarrow> ''100ms'' | Some s \<Rightarrow> if s = [] then ''100ms'' else s))
                 (\<lambda>d. Inr \<lparr>rp_managerRestart = False, rp_exitCode = code, rp_restartTimeoutMs = 90000 + d\<rparr>))"

section \<open>Replacing the executable\<close>

type_synonym files = "(string \<times> string) list"

text \<open>A rename fails with the fault of the system or because the source is missing.\<close>

definition rename :: "js_error option \<Rightarrow> string \<Rightarrow> string \<Rightarrow> files \<Rightarrow> files \<times> unit res" where
  "rename fault src dst fs =
     (case fault of
        Some e \<Rightarrow> (fs, Inl e)
      | None \<Rightarrow>
          (case map_of fs src of
             None \<Rightarrow> (fs, Inl (SysError ''ENOENT''))
           | Some c \<Rightarrow> (AList.update dst c (AList.delete src fs), Inr ())))"

text \<open>A copy that fails may have left anything at the destination.\<close>

definition copyFile :: "(js_error \<times> string option) option \<Rightarrow> string \<Rightarrow> string \<Rightarrow> files \<Rightarrow> files \<times> unit res" where
  "copyFile fault src dst fs =
     (case fault of
        Some (e, junk) \<Rightarrow> ((case junk of None \<Rightarrow> AList.delete dst fs | Some c \<Rightarrow> AList.update dst c fs), Inl e)
      | None \<Rightarrow>
          (case map_of fs src of
             None \<Rightarrow> (fs, Inl (SysError ''ENOENT''))
           | Some c \<Rightarrow> (AList.update dst c fs, Inr ())))"

definition require_file :: "js_error option \<Rightarrow> string \<Rightarrow> files \<Rightarrow> unit res" where
  "require_file fault path fs =
     (case fault of Some e \<Rightarrow> Inl e | None \<Rightarrow> if map_of fs path = None then Inl (SysError ''ENOENT'') else Inr ())"

record install_faults =
  if_stat :: "js_error option"
  if_chmod :: "js_error option"
  if_copy :: "(js_error \<times> string option) option"
  if_rename :: "js_error option"

definition installSystemdUpdate ::
  "install_faults \<Rightarrow> string \<Rightarrow> SystemdService \<Rightarrow> nat \<Rightarrow> files \<Rightarrow> files \<times> restart_plan res" where
  "installSystemdUpdate flt target service uid fs =
     (case systemdRestartPlan service uid of
        Inl e \<Rightarrow> (fs, Inl e)
      | Inr plan \<Rightarrow>
          (case bindE (require_file (if_stat flt) target fs) (\<lambda>_. require_file (if_chmod flt) (target @ ''.new'') fs) of
             Inl e \<Rightarrow> (fs, Inl e)
           | Inr _ \<Rightarrow>
               (case copyFile (if_copy flt) target (target @ ''.old'') fs of
                  (fs1, Inl e) \<Rightarrow> (fs1, Inl e)
                | (fs1, Inr _) \<Rightarrow>
                    (case rename (if_rename flt) (target @ ''.new'') target fs1 of
                       (fs2, Inl e) \<Rightarrow> (fs2, Inl e)
                     | (fs2, Inr _) \<Rightarrow> (fs2, Inr plan)))))"

text \<open>The callback \<open>restart\<close>: the exit code, or the error after the old executable was put back (the
  entry in the log file is left out).\<close>

definition restart_systemd :: "unit res \<Rightarrow> js_error option \<Rightarrow> string \<Rightarrow> restart_plan \<Rightarrow> files \<Rightarrow> files \<times> nat res" where
  "restart_systemd systemctl fault target plan fs =
     (if rp_managerRestart plan
      then case systemctl of
             Inr _ \<Rightarrow> (fs, Inr (rp_exitCode plan))
           | Inl e \<Rightarrow>
               (case rename fault (target @ ''.old'') target fs of
                  (fs1, Inl e') \<Rightarrow> (fs1, Inl e')
                | (fs1, Inr _) \<Rightarrow> (fs1, Inl e))
      else (fs, Inr (rp_exitCode plan)))"

section \<open>The plan is one systemd follows\<close>

text \<open>A restart plan never leaves the GUI down. When a plan is made, either the manager may restart the
  unit and is asked to, or the exit code is one after which the unit's own policy starts it again,
  the least such code below 126; and when no such code exists the plan is refused.\<close>

lemma restart_plan_sound:
  "case systemdRestartPlan service uid of
     Inr plan \<Rightarrow>
       if rp_managerRestart plan then (uid = 0 \<or> sd_user service) \<and> property ''RefuseManualStop'' (sd_properties service) \<noteq> Some ''yes''
       else property ''ExitType'' (sd_properties service) \<noteq> Some ''cgroup'' \<and> rp_exitCode plan < 126 \<and>
            restarts_on (sd_properties service) (rp_exitCode plan) \<and>
            list_all (\<lambda>c. \<not> restarts_on (sd_properties service) c) [0..<rp_exitCode plan]
   | Inl e \<Rightarrow> \<not> ((uid = 0 \<or> sd_user service) \<and> property ''RefuseManualStart'' (sd_properties service) \<noteq> Some ''yes'' \<and>
        property ''RefuseManualStop'' (sd_properties service) \<noteq> Some ''yes'')"
proof -
  have f: "find P [0..<126] = Some c \<Longrightarrow> c < 126 \<and> P c \<and> list_all (\<lambda>c. \<not> P c) [0..<c]" for P c
    unfolding find_Some_iff by (auto simp: list_all_iff)
  show ?thesis
    by (auto simp: systemdRestartPlan_def automaticRestartExitCode_def Let_def bindE_def dest!: f split: option.splits sum.splits if_splits)
qed

section \<open>The executable is never missing\<close>

lemma paths_differ: "target @ ''.old'' \<noteq> target" "target @ ''.new'' \<noteq> target" "target @ ''.old'' \<noteq> target @ ''.new''"
  by auto

text \<open>C21: The executable is never missing and never half replaced. Whatever file operation fails, the path
  of the executable holds the old program until the install succeeds and the new one after it, with
  the old one kept beside it; and when the restart is refused and the old one can be moved back, it
  is what the path holds again.\<close>

theorem systemd_update_atomic:
  assumes "map_of fs target = Some old" and "map_of fs (target @ ''.new'') = Some new"
    and "installSystemdUpdate flt target service uid fs = (fs', r)"
  shows "case r of
      Inl e \<Rightarrow> map_of fs' target = Some old
    | Inr plan \<Rightarrow> map_of fs' target = Some new \<and> map_of fs' (target @ ''.old'') = Some old \<and>
        (\<forall>ctl fault fs'' x. restart_systemd ctl fault target plan fs' = (fs'', x) \<longrightarrow>
           map_of fs'' target = Some (if rp_managerRestart plan \<and> ctl \<noteq> Inr () \<and> fault = None then old else new))"
  using assms
  by (auto simp: installSystemdUpdate_def rename_def copyFile_def require_file_def restart_systemd_def bindE_def
      update_conv' delete_conv' split: sum.splits option.splits prod.splits if_splits)

definition user_service :: SystemdService where
  "user_service = \<lparr>sd_unit = ''gui.service'', sd_user = True, sd_properties = []\<rparr>"

theorem systemd_update_atomic_witness:
  "map_of (fst (installSystemdUpdate \<lparr>if_stat = None, if_chmod = None, if_copy = None, if_rename = Some (SysError ''EBUSY'')\<rparr>
     ''/g'' user_service 1000 [(''/g'', ''old''), (''/g.new'', ''new'')])) ''/g'' = Some ''old''"
proof -
  let ?r = "installSystemdUpdate \<lparr>if_stat = None, if_chmod = None, if_copy = None, if_rename = Some (SysError ''EBUSY'')\<rparr>
     ''/g'' user_service 1000 [(''/g'', ''old''), (''/g.new'', ''new'')]"
  have s: "snd ?r = Inl (SysError ''EBUSY'')" by code_simp
  then have r: "?r = (fst ?r, Inl (SysError ''EBUSY''))" by (metis prod.collapse)
  have fs: "map_of [(''/g'', ''old''), (''/g.new'', ''new'')] ''/g'' = Some ''old''"
    "map_of [(''/g'', ''old''), (''/g.new'', ''new'')] (''/g'' @ ''.new'') = Some ''new''" by simp_all
  show ?thesis using systemd_update_atomic [OF fs r] by simp
qed

section \<open>Printed durations are read back\<close>

definition show_duration :: "(nat \<times> string) list \<Rightarrow> string" where
  "show_duration ds = concat (map (\<lambda>(n, u). show_nat n @ u @ '' '') ds)"

lemma unit_at_known:
  assumes "map_of duration_units u = Some f"
  shows "unit_at (u @ '' '' @ r) = Some (f, '' '' @ r)"
proof -
  have w: "\<not> word_char (CHR '' '')" by code_simp
  consider "u = ''us''" "f = 1 / 1000" | "u = ''ms''" "f = 1" | "u = ''min''" "f = 60000" | "u = ''s''" "f = 1000"
    | "u = ''h''" "f = 3600000" | "u = ''d''" "f = 86400000" | "u = ''w''" "f = 604800000"
    using assms by (auto simp: duration_units_def split: if_splits)
  then show ?thesis by cases (simp_all add: duration_units_def unit_at_def startsWith_def w)
qed

lemma take_durations_step:
  "duration_at s = Some (v, r) \<Longrightarrow> take_durations s = (v + fst (take_durations r), snd (take_durations r))"
proof -
  assume d: "duration_at s = Some (v, r)"
  then have "s \<noteq> []" using duration_at_shorter by fastforce
  then show ?thesis using d by (subst take_durations.simps) (auto simp: Let_def case_prod_beta split: list.split)
qed

lemma duration_at_printed:
  assumes "map_of duration_units u = Some f"
  shows "duration_at (show_nat n @ u @ '' '' @ r) = Some (of_nat n * f, '' '' @ r)"
proof -
  have u: "u \<noteq> []" "\<not> is_digit (hd u)" "hd u \<noteq> CHR ''.''" "\<not> is_ws (hd u)"
    using assms by (auto simp: duration_units_def is_digit_def is_ws_def split: if_splits)
  let ?t = "u @ '' '' @ r"
  have d: "\<forall>c \<in> set (show_nat n). is_digit c" using all_digits_show_nat [of n] by (simp add: all_digits_def list_all_iff)
  have hd: "?t = hd u # tl u @ '' '' @ r" using u(1) by (cases u) auto
  have "takeWhile is_digit (show_nat n @ ?t) = show_nat n" "dropWhile is_digit (show_nat n @ ?t) = ?t"
    using d u(2) unfolding hd by (simp_all add: takeWhile_append dropWhile_append)
  moreover have "show_nat n \<noteq> []" using all_digits_show_nat [of n] by (simp add: all_digits_def)
  ultimately have "number_at (show_nat n @ ?t) = Some (of_nat n, ?t)"
    using u(3) unfolding number_at_def Let_def by (subst (asm) hd, subst (2) hd) (simp add: dec_val_show_nat hd [symmetric])
  moreover have "dropWhile is_ws ?t = ?t" using u(4) unfolding hd by simp
  ultimately show ?thesis using unit_at_known [OF assms] by (simp add: duration_at_def)
qed

lemma duration_at_space: "duration_at ('' '' @ r) = None"
  by (simp add: duration_at_def number_at_def is_digit_def)

lemma take_durations_printed:
  assumes "\<forall>(n, u) \<in> set ds. map_of duration_units u \<noteq> None"
  shows "\<exists>w. take_durations (show_duration ds) = (sum_list (map (\<lambda>(n, u). of_nat n * the (map_of duration_units u)) ds), w) \<and> list_all is_ws w"
  using assms
proof (induction ds)
  case Nil
  show ?case by (simp add: show_duration_def take_durations.simps [of "[]"])
next
  case (Cons d ds)
  obtain n u f where d: "d = (n, u)" and f: "map_of duration_units u = Some f" using Cons.prems by (cases d) auto
  obtain w where w: "take_durations (show_duration ds) = (sum_list (map (\<lambda>(n, u). of_nat n * the (map_of duration_units u)) ds), w)"
    "list_all is_ws w" using Cons by auto
  have s: "show_duration (d # ds) = show_nat n @ u @ '' '' @ show_duration ds" by (simp add: show_duration_def d)
  have sp: "is_ws (CHR '' '')" by code_simp
  have "take_durations ('' '' @ show_duration ds) = (sum_list (map (\<lambda>(n, u). of_nat n * the (map_of duration_units u)) ds), CHR '' '' # w)"
    using duration_at_space [of "show_duration ds"] w(1) by (subst take_durations.simps) simp
  then have "take_durations (show_duration (d # ds)) =
      (of_nat n * f + sum_list (map (\<lambda>(n, u). of_nat n * the (map_of duration_units u)) ds), CHR '' '' # w)"
    using take_durations_step [OF duration_at_printed [OF f, of n "show_duration ds"]] unfolding s by simp
  then show ?case using w(2) d f sp by simp
qed

text \<open>A duration printed as numbers with units, each followed by a space, is read back as its length in
  milliseconds, for every unit the table knows and any number of parts.\<close>

lemma duration_roundtrip:
  assumes "ds \<noteq> []" and "list_all (\<lambda>(n, u). u \<in> set [''us'', ''ms'', ''min'', ''s'', ''h'', ''d'', ''w'']) ds"
  shows "systemdDurationMs (show_duration ds) = Inr (sum_list (map (\<lambda>(n, u). of_nat n * the (map_of duration_units u)) ds))"
proof -
  have known: "map_of duration_units u \<noteq> None" "1 \<le> length u"
    if "u \<in> set [''us'', ''ms'', ''min'', ''s'', ''h'', ''d'', ''w'']" for u
    using that unfolding map_of_eq_None_iff duration_units_def by auto
  have "\<forall>(n, u) \<in> set ds. map_of duration_units u \<noteq> None" using assms(2) known(1) unfolding list_all_iff by blast
  from take_durations_printed [OF this] obtain w
    where w: "take_durations (show_duration ds) = (sum_list (map (\<lambda>(n, u). of_nat n * the (map_of duration_units u)) ds), w)"
      "list_all is_ws w" by blast
  obtain n u ds' where ds: "ds = (n, u) # ds'" using assms(1) by (cases ds) auto
  have "u \<in> set [''us'', ''ms'', ''min'', ''s'', ''h'', ''d'', ''w'']" using assms(2) unfolding ds by (simp only: prod.case list.pred_inject)
  then have "1 \<le> length u" by (rule known(2))
  then have "2 \<le> length (show_duration ds)" by (simp add: ds show_duration_def)
  then have "show_duration ds \<noteq> []" "show_duration ds \<noteq> ''0''" by auto
  moreover have "trim w = []" using w(2) by (simp add: trim_eq_Nil_iff)
  ultimately show ?thesis using w(1) by (simp add: systemdDurationMs_def)
qed

end
