(* ===== verification/SelfUpdate.thy ===== *)
theory SelfUpdate
  imports SystemdUpdate Downloader
begin

text \<open>
  Update of the GUI itself: \<open>FerrumGUI/src/selfUpdate.ts\<close> and \<open>selfUpdateInstaller.ts\<close>. What the
  network, the service manager and the file system answer are arguments; the files are an association
  list. The callback that runs before the install (\<open>beforeInstall\<close>) is a state transformer on the
  state of the caller. The installer script for Unix, which the sources hold as text, is the function
  \<open>unix_installer\<close> on the same files.
\<close>

section \<open>The version of the program\<close>

text \<open>The pattern \<open>^version\s*=\s*(\S+)\<close>, at the start of the text and after every line end.\<close>

definition version_at :: "string \<Rightarrow> string option" where
  "version_at s =
     (if \<not> startsWith s ''version'' then None
      else case dropWhile is_ws (drop 7 s) of
             c # r \<Rightarrow>
               let v = takeWhile (\<lambda>c. \<not> is_ws c) (dropWhile is_ws r) in
               if c = CHR ''='' \<and> v \<noteq> [] then Some v else None
           | [] \<Rightarrow> None)"

fun version_in :: "bool \<Rightarrow> string \<Rightarrow> string option" where
  "version_in bol [] = None"
| "version_in bol (c # cs) =
     (case (if bol then version_at (c # cs) else None) of
        Some v \<Rightarrow> Some v
      | None \<Rightarrow> version_in (c = CHR 0x0A \<or> c = CHR 0x0D) cs)"

text \<open>The candidate files in order: absent, unreadable, or their text.\<close>

fun readVersionIniFallback :: "string res option list \<Rightarrow> string option" where
  "readVersionIniFallback [] = None"
| "readVersionIniFallback (f # fs) =
     (case f of
        Some (Inr text) \<Rightarrow> (case version_in True text of Some v \<Rightarrow> Some v | None \<Rightarrow> readVersionIniFallback fs)
      | _ \<Rightarrow> readVersionIniFallback fs)"

text \<open>The first argument is \<open>cachedVersion\<close>, the version found by an earlier call.\<close>

definition text_or :: "string option \<Rightarrow> string \<Rightarrow> string" where
  "text_or v d = (case v of None \<Rightarrow> d | Some s \<Rightarrow> if s = [] then d else s)"

definition getCurrentGuiVersion :: "string option \<Rightarrow> string option \<Rightarrow> string res option list \<Rightarrow> string option \<times> string" where
  "getCurrentGuiVersion cachedVersion build files =
     (let v = text_or cachedVersion (text_or build (text_or (readVersionIniFallback files) ''dev'')) in (Some v, v))"

definition isSelfUpdateSupported :: "bool \<Rightarrow> string \<Rightarrow> bool" where
  "isSelfUpdateSupported isCompiled current \<longleftrightarrow> isCompiled \<and> current \<noteq> ''dev''"

definition getCurrentGuiPlatformKey :: "string \<Rightarrow> string \<Rightarrow> string option" where
  "getCurrentGuiPlatformKey p a =
     (if p = ''win32'' \<and> a = ''x64'' then Some ''windows-x64''
      else if p = ''linux'' \<and> a = ''x64'' then Some ''linux-x64''
      else if p = ''linux'' \<and> a = ''arm64'' then Some ''linux-arm64''
      else if p = ''darwin'' \<and> a = ''arm64'' then Some ''macos-arm64''
      else None)"

section \<open>The release\<close>

definition fetchGuiVersionManifest :: "fetched \<Rightarrow> jsval option res" where
  "fetchGuiVersionManifest answer =
     (case answer of
        FetchError m \<Rightarrow> Inl (Error m)
      | Fetched status text body \<Rightarrow>
          if \<not> ok_status status
          then (if status = 404 then Inr None
                else Inl (Error (''Failed to fetch GUI version.json: '' @ show_nat status @ '' '' @ text)))
          else bindE body (\<lambda>data.
            if \<not> js_truthy data then Inr None
            else bindE (js_prop data ''version'') (\<lambda>v. bindE (js_prop data ''assets'') (\<lambda>as.
              Inr (if is_str v \<and> is_arr as then Some data else None)))))"

fun find_asset :: "string \<Rightarrow> jsval list \<Rightarrow> jsval option res" where
  "find_asset key [] = Inr None"
| "find_asset key (a # as) =
     bindE (js_prop a ''platform'') (\<lambda>p. if p = JStr key then Inr (Some a) else find_asset key as)"

definition elems :: "jsval \<Rightarrow> jsval list" where
  "elems v = (case v of JArr xs \<Rightarrow> xs | _ \<Rightarrow> [])"

definition str_of :: "jsval \<Rightarrow> string" where
  "str_of v = (case v of JStr s \<Rightarrow> s | _ \<Rightarrow> [])"

record GuiReleaseInfo =
  gi_version :: string
  gi_tag :: jsval
  gi_commit :: jsval
  gi_assetUrl :: jsval
  gi_assetName :: jsval
  gi_assetSize :: jsval
  gi_publishedAt :: jsval

text \<open>\<open>asset?.k ?? null\<close>\<close>

definition or_null :: "jsval option \<Rightarrow> string \<Rightarrow> jsval res" where
  "or_null a k =
     (case a of
        None \<Rightarrow> Inr JNull
      | Some v \<Rightarrow> bindE (opt_prop v k) (\<lambda>x. Inr (if x = JUndef then JNull else x)))"

definition fetchLatestGuiRelease ::
  "string \<Rightarrow> string \<Rightarrow> string option \<Rightarrow> fetched \<Rightarrow> GuiReleaseInfo option res" where
  "fetchLatestGuiRelease tag nowText platformKey answer =
     bindE (fetchGuiVersionManifest answer) (\<lambda>m. case m of
        None \<Rightarrow> Inr None
      | Some manifest \<Rightarrow>
          bindE (js_prop manifest ''version'') (\<lambda>v. bindE (js_prop manifest ''assets'') (\<lambda>as.
          bindE (case platformKey of None \<Rightarrow> Inr None | Some key \<Rightarrow> find_asset key (elems as)) (\<lambda>asset.
          bindE (js_prop manifest ''tag'') (\<lambda>t. bindE (js_prop manifest ''commit'') (\<lambda>co. bindE (js_prop manifest ''buildDate'') (\<lambda>d.
          bindE (or_null asset ''name'') (\<lambda>n. bindE (or_null asset ''downloadUrl'') (\<lambda>u. bindE (or_null asset ''size'') (\<lambda>s.
          Inr (Some \<lparr>gi_version = str_of v, gi_tag = or_else t (JStr tag), gi_commit = co, gi_assetUrl = u, gi_assetName = n,
                     gi_assetSize = s, gi_publishedAt = or_else d (JStr nowText)\<rparr>)))))))))))"

definition compareVersions :: "string \<Rightarrow> string \<Rightarrow> int" where
  "compareVersions a b = (if a = b then 0 else 1)"

definition hasGuiUpdate :: "string \<Rightarrow> string option \<Rightarrow> bool" where
  "hasGuiUpdate current latest =
     (case latest of
        None \<Rightarrow> False
      | Some l \<Rightarrow> if l = [] then False else if current = ''dev'' then False else current \<noteq> l)"

definition cleanupOldBinary :: "js_error option \<Rightarrow> string \<Rightarrow> files \<Rightarrow> files" where
  "cleanupOldBinary fault execPath fs =
     (if map_of fs (execPath @ ''.old'') \<noteq> None \<and> fault = None then AList.delete (execPath @ ''.old'') fs else fs)"

section \<open>The installer\<close>

text \<open>\<open>/(\\*)"/g\<close> becomes the run doubled and an escaped quote; \<open>n\<close> counts the backslashes just read.\<close>

fun replace_quotes :: "nat \<Rightarrow> string \<Rightarrow> string" where
  "replace_quotes n [] = replicate n (CHR 0x5C)"
| "replace_quotes n (c # cs) =
     (if c = CHR 0x5C then replace_quotes (n + 1) cs
      else if c = CHR 0x22 then replicate (2 * n) (CHR 0x5C) @ [CHR 0x5C, CHR 0x22] @ replace_quotes 0 cs
      else replicate n (CHR 0x5C) @ c # replace_quotes 0 cs)"

text \<open>\<open>/(\\+)$/\<close> becomes the run doubled.\<close>

definition double_tail :: "string \<Rightarrow> string" where
  "double_tail s = s @ takeWhile (\<lambda>c. c = CHR 0x5C) (rev s)"

definition quoteWindowsArgument :: "string \<Rightarrow> string" where
  "quoteWindowsArgument v = [CHR 0x22] @ double_tail (replace_quotes 0 v) @ [CHR 0x22]"

section \<open>The scripts\<close>

text \<open>What the operations of the shell script meet: \<open>us_alive\<close> says at each of its checks whether the old
  GUI still runs, and a program whose mode could not be set does not start.\<close>

record unix_answers =
  us_alive :: "bool list"
  us_cd :: bool
  us_rm :: "js_error option"
  us_mv1 :: "js_error option"
  us_mv2 :: "js_error option"
  us_mv3 :: "js_error option"
  us_chmod :: "js_error option"

fun unix_wait :: "nat \<Rightarrow> bool list \<Rightarrow> bool" where
  "unix_wait attempt [] = True"
| "unix_wait attempt (alive # as) =
     (if \<not> alive then True else if attempt + 1 \<ge> 60 then False else unix_wait (attempt + 1) as)"

definition rm_file :: "js_error option \<Rightarrow> string \<Rightarrow> files \<Rightarrow> files" where
  "rm_file fault path fs = (if fault = None then AList.delete path fs else fs)"

definition update_log :: "string \<Rightarrow> string \<Rightarrow> files \<Rightarrow> files" where
  "update_log target msg fs = AList.update (target @ ''.update.log'') msg fs"

text \<open>The shell script: the files after it, and the program it started, if any.\<close>

definition unixInstallerScript :: "unix_answers \<Rightarrow> string \<Rightarrow> files \<Rightarrow> files \<times> string option" where
  "unixInstallerScript a target fs =
     (if \<not> unix_wait 0 (us_alive a) then (update_log target (''The old GUI did not stop.'' @ [CHR 0x0A]) fs, None)
      else if map_of fs (target @ ''.new'') = None then (update_log target (''The downloaded GUI is missing.'' @ [CHR 0x0A]) fs, None)
      else if \<not> us_cd a then (fs, None)
      else
        case rename (us_mv1 a) target (target @ ''.old'') (rm_file (us_rm a) (target @ ''.old'') fs) of
          (fs2, Inl e) \<Rightarrow> (fs2, None)
        | (fs2, Inr _) \<Rightarrow>
            (case rename (us_mv2 a) (target @ ''.new'') target fs2 of
               (fs3, Inl e) \<Rightarrow>
                 (let fs4 = fst (rename (us_mv3 a) (target @ ''.old'') target fs3) in (fs4, map_of fs4 target))
             | (fs3, Inr _) \<Rightarrow> (fs3, if us_chmod a = None then map_of fs3 target else None)))"

text \<open>The PowerShell script. Without \<open>-Force\<close> a move does not replace a file that exists.\<close>

record windows_answers =
  wn_exited :: bool
  wn_rm :: "js_error option"
  wn_mv1 :: "js_error option"
  wn_mv2 :: "js_error option"
  wn_start1 :: "js_error option"
  wn_mv3 :: "js_error option"
  wn_mv4 :: "js_error option"
  wn_start2 :: "js_error option"
  wn_text :: string

definition Move_Item :: "js_error option \<Rightarrow> string \<Rightarrow> string \<Rightarrow> files \<Rightarrow> files \<times> unit res" where
  "Move_Item fault src dst fs =
     (if map_of fs dst \<noteq> None then (fs, Inl (SysError ''EEXIST'')) else rename fault src dst fs)"

definition start_process :: "js_error option \<Rightarrow> string \<Rightarrow> files \<Rightarrow> string res" where
  "start_process fault target fs =
     (case fault of Some e \<Rightarrow> Inl e | None \<Rightarrow> (case map_of fs target of None \<Rightarrow> Inl (SysError ''ENOENT'') | Some c \<Rightarrow> Inr c))"

text \<open>The inner \<open>catch\<close>: back to the old program.\<close>

definition windows_restore :: "windows_answers \<Rightarrow> string \<Rightarrow> bool \<Rightarrow> files \<Rightarrow> files \<times> string option" where
  "windows_restore a target installed fs =
     (case (if installed then rename (wn_mv3 a) target (target @ ''.new'') fs else (fs, Inr ())) of
        (fs1, Inl e) \<Rightarrow> (fs1, None)
      | (fs1, Inr _) \<Rightarrow>
          (case Move_Item (wn_mv4 a) (target @ ''.old'') target fs1 of
             (fs2, Inl e) \<Rightarrow> (fs2, None)
           | (fs2, Inr _) \<Rightarrow>
               (fs2, case start_process (wn_start2 a) target fs2 of Inl e \<Rightarrow> None | Inr c \<Rightarrow> Some c)))"

definition windowsInstallerScript :: "windows_answers \<Rightarrow> string \<Rightarrow> files \<Rightarrow> files \<times> string option" where
  "windowsInstallerScript a target fs =
     (let failed = (\<lambda>(fs, started). (update_log target (wn_text a) fs, started)) in
      if \<not> wn_exited a then failed (fs, None)
      else if map_of fs (target @ ''.new'') = None then failed (fs, None)
      else if map_of fs (target @ ''.old'') \<noteq> None \<and> wn_rm a \<noteq> None then failed (fs, None)
      else
        case Move_Item (wn_mv1 a) target (target @ ''.old'') (rm_file (wn_rm a) (target @ ''.old'') fs) of
          (fs1, Inl e) \<Rightarrow> failed (fs1, None)
        | (fs1, Inr _) \<Rightarrow>
            (case Move_Item (wn_mv2 a) (target @ ''.new'') target fs1 of
               (fs2, Inl e) \<Rightarrow> failed (windows_restore a target False fs2)
             | (fs2, Inr _) \<Rightarrow>
                 (case start_process (wn_start1 a) target fs2 of
                    Inl e \<Rightarrow> failed (windows_restore a target True fs2)
                  | Inr c \<Rightarrow> (fs2, Some c))))"

section \<open>Starting the installer\<close>

text \<open>\<open>JSON.stringify\<close> of a string\<close>

definition hex_digit :: "nat \<Rightarrow> char" where
  "hex_digit d = (if d < 10 then char_of (48 + d) else char_of (87 + d))"

definition json_char :: "char \<Rightarrow> string" where
  "json_char c =
     (let n = of_char c :: nat in
      if c = CHR 0x22 \<or> c = CHR 0x5C then [CHR 0x5C, c]
      else if n = 8 then [CHR 0x5C, CHR ''b''] else if n = 9 then [CHR 0x5C, CHR ''t'']
      else if n = 10 then [CHR 0x5C, CHR ''n''] else if n = 12 then [CHR 0x5C, CHR ''f'']
      else if n = 13 then [CHR 0x5C, CHR ''r'']
      else if n < 32 then CHR 0x5C # ''u00'' @ [hex_digit (n div 16), hex_digit (n mod 16)]
      else [c])"

definition json_string :: "string \<Rightarrow> string" where
  "json_string s = [CHR 0x22] @ concat (map json_char s) @ [CHR 0x22]"

definition installer_metadata :: "string \<Rightarrow> nat \<Rightarrow> string \<Rightarrow> string list \<Rightarrow> string" where
  "installer_metadata target pid cwd argv =
     ''{'' @ json_string ''execPath'' @ '':'' @ json_string target @ '','' @ json_string ''processId'' @ '':'' @ show_nat pid @
     '','' @ json_string ''cwd'' @ '':'' @ json_string cwd @ '','' @ json_string ''arguments'' @ '':'' @
     json_string (join_with '' '' (map quoteWindowsArgument argv)) @ ''}''"

text \<open>The process and what the system answers it; \<open>ia_script\<close> is the text of the script.\<close>

record installer_env =
  ia_service :: "SystemdService option res"
  ia_uid :: nat
  ia_faults :: install_faults
  ia_windows :: bool
  ia_pid :: nat
  ia_cwd :: string
  ia_argv :: "string list"
  ia_script :: string
  ia_write :: "unit res"
  ia_meta :: "unit res"
  ia_open :: "unit res"
  ia_launch :: "unit res"
  ia_close :: "unit res"
  ia_rm :: "js_error option"

datatype GuiUpdateRestart = RestartSystemd restart_plan | RestartExit

fun restartTimeoutMs :: "GuiUpdateRestart \<Rightarrow> rat" where
  "restartTimeoutMs (RestartSystemd plan) = rp_restartTimeoutMs plan"
| "restartTimeoutMs RestartExit = 90000"

definition script_path :: "installer_env \<Rightarrow> string \<Rightarrow> string" where
  "script_path ia target = target @ ''.update-'' @ show_nat (ia_pid ia) @ ''.'' @ (if ia_windows ia then ''ps1'' else ''sh'')"

definition metadata_path :: "installer_env \<Rightarrow> string \<Rightarrow> string" where
  "metadata_path ia target = script_path ia target @ ''.json''"

definition open_log :: "installer_env \<Rightarrow> string \<Rightarrow> files \<Rightarrow> files \<times> unit res" where
  "open_log ia target fs =
     ((if ia_open ia = Inr () \<and> map_of fs (target @ ''.installer.log'') = None
       then AList.update (target @ ''.installer.log'') [] fs else fs), ia_open ia)"

text \<open>The files the branch without a service writes before it starts the script.\<close>

definition write_installer :: "installer_env \<Rightarrow> string \<Rightarrow> files \<Rightarrow> files \<times> unit res" where
  "write_installer ia target fs =
     (case ia_write ia of
        Inl e \<Rightarrow> (fs, Inl e)
      | Inr _ \<Rightarrow>
          let fs1 = AList.update (script_path ia target) (ia_script ia) fs in
          if ia_windows ia
          then case ia_meta ia of
                 Inl e \<Rightarrow> (fs1, Inl e)
               | Inr _ \<Rightarrow>
                   open_log ia target
                     (AList.update (metadata_path ia target) (installer_metadata target (ia_pid ia) (ia_cwd ia) (ia_argv ia)) fs1)
          else open_log ia target fs1)"

definition launch_installer :: "installer_env \<Rightarrow> string \<Rightarrow> files \<Rightarrow> files \<times> GuiUpdateRestart res" where
  "launch_installer ia target fs =
     (case write_installer ia target fs of
        (fs1, r) \<Rightarrow>
          (case bindE r (\<lambda>_. case ia_close ia of Inl e \<Rightarrow> Inl e | Inr _ \<Rightarrow> ia_launch ia) of
             Inl e \<Rightarrow> (rm_file (ia_rm ia) (metadata_path ia target) (rm_file (ia_rm ia) (script_path ia target) fs1), Inl e)
           | Inr _ \<Rightarrow> (fs1, Inr RestartExit)))"

text \<open>\<open>beforeInstall\<close> changes the state \<open>w\<close> of the caller. The policy of the service is read before it runs.\<close>

definition startGuiUpdateInstaller ::
  "installer_env \<Rightarrow> ('w \<Rightarrow> 'w \<times> unit res) \<Rightarrow> string \<Rightarrow> 'w \<Rightarrow> files \<Rightarrow> 'w \<times> files \<times> GuiUpdateRestart res" where
  "startGuiUpdateInstaller ia beforeInstall target w fs =
     (case bindE (ia_service ia) (\<lambda>service.
             case service of
               None \<Rightarrow> Inr None
             | Some s \<Rightarrow> bindE (systemdRestartPlan s (ia_uid ia)) (\<lambda>_. Inr (Some s))) of
        Inl e \<Rightarrow> (w, fs, Inl e)
      | Inr service \<Rightarrow>
          (case beforeInstall w of
             (w1, Inl e) \<Rightarrow> (w1, fs, Inl e)
           | (w1, Inr _) \<Rightarrow>
               (w1,
                case service of
                  Some s \<Rightarrow>
                    (case installSystemdUpdate (ia_faults ia) target s (ia_uid ia) fs of
                       (fs1, r) \<Rightarrow> (fs1, bindE r (\<lambda>plan. Inr (RestartSystemd plan))))
                | None \<Rightarrow> launch_installer ia target fs)))"

section \<open>The update\<close>

text \<open>What the update meets: \<open>su_fetch\<close> answers the request for the asset, \<open>su_partial\<close> is what a
  transfer that fails leaves in the new file.\<close>

record update_env =
  su_compiled :: bool
  su_version :: string
  su_manifest :: fetched
  su_platform :: string
  su_arch :: string
  su_fetch :: "jsval \<Rightarrow> download res"
  su_rm1 :: "js_error option"
  su_rm2 :: "js_error option"
  su_partial :: "string option"
  su_target :: string
  su_installer :: installer_env

datatype SelfUpdateResult = Updated string GuiUpdateRestart | Refused string | Failed string js_error

definition new_path :: "update_env \<Rightarrow> string" where "new_path u = su_target u @ ''.new''"

text \<open>\<open>Number.parseInt(contentLength || '0', 10) || (assetSize ?? 0)\<close>\<close>

definition transfer_size :: "string option \<Rightarrow> jsval \<Rightarrow> jsval" where
  "transfer_size len assetSize =
     (case total_size len of
        Some n \<Rightarrow> if n \<noteq> 0 then JNum (Fin (of_int n)) else if assetSize = JNull \<or> assetSize = JUndef then JNum (Fin 0) else assetSize
      | None \<Rightarrow> if assetSize = JNull \<or> assetSize = JUndef then JNum (Fin 0) else assetSize)"

definition incomplete :: "nat \<Rightarrow> jsval \<Rightarrow> bool" where
  "incomplete downloaded expectedSize \<longleftrightarrow>
     downloaded = 0 \<or> js_less (Fin 0) (js_number expectedSize) \<and> JNum (Fin (of_nat downloaded)) \<noteq> expectedSize"

text \<open>The transfer into the new file, removed again when it fails. The numbers in the text of the error are left
  out.\<close>

definition transfer :: "update_env \<Rightarrow> jsval \<Rightarrow> download \<Rightarrow> string list \<Rightarrow> files \<Rightarrow> files \<times> unit res" where
  "transfer u assetSize d cs fs =
     (case (case dl_readError d of Some e \<Rightarrow> Some e | None \<Rightarrow> dl_writeError d) of
        Some e \<Rightarrow>
          (rm_file (su_rm2 u) (new_path u)
             (case su_partial u of None \<Rightarrow> fs | Some c \<Rightarrow> AList.update (new_path u) c fs), Inl e)
      | None \<Rightarrow>
          let fs1 = AList.update (new_path u) (concat cs) fs in
          if incomplete (length (concat cs)) (or_else assetSize (transfer_size (dl_contentLength d) assetSize))
          then (rm_file (su_rm2 u) (new_path u) fs1, Inl (Error ''Incomplete download''))
          else (fs1, Inr ()))"

definition find_update :: "update_env \<Rightarrow> (SelfUpdateResult + string \<times> jsval \<times> jsval) res" where
  "find_update u =
     (if \<not> isSelfUpdateSupported (su_compiled u) (su_version u)
      then Inr (Inl (Refused ''Self-update is only available on compiled binaries''))
      else bindE (fetchGuiVersionManifest (su_manifest u)) (\<lambda>m. case m of
        None \<Rightarrow> Inr (Inl (Refused ''No GUI release manifest (version.json) found''))
      | Some manifest \<Rightarrow>
          bindE (js_prop manifest ''version'') (\<lambda>v. bindE (js_prop manifest ''assets'') (\<lambda>as.
          let version = str_of v in
          if \<not> hasGuiUpdate (su_version u) (Some version)
          then Inr (Inl (Refused (''Already up to date (current v'' @ su_version u @ '', latest v'' @ version @ '')'')))
          else case getCurrentGuiPlatformKey (su_platform u) (su_arch u) of
            None \<Rightarrow> Inr (Inl (Refused (''Unsupported platform: '' @ su_platform u @ ''/'' @ su_arch u)))
          | Some key \<Rightarrow>
              bindE (find_asset key (elems as)) (\<lambda>asset.
                let missing = Inr (Inl (Refused (''No matching asset for '' @ key @ '' in release '' @ version))) in
                case asset of
                  None \<Rightarrow> missing
                | Some a \<Rightarrow>
                    bindE (js_prop a ''downloadUrl'') (\<lambda>url. bindE (js_prop a ''size'') (\<lambda>sz.
                      if \<not> js_truthy url then missing else Inr (Inr (version, url, sz)))))))))"

definition install_update ::
  "update_env \<Rightarrow> ('w \<Rightarrow> 'w \<times> unit res) \<Rightarrow> string \<Rightarrow> 'w \<Rightarrow> files \<Rightarrow> 'w \<times> files \<times> SelfUpdateResult" where
  "install_update u beforeInstall version w fs =
     (case startGuiUpdateInstaller (su_installer u) beforeInstall (su_target u) w fs of
        (w1, fs1, Inl e) \<Rightarrow> (w1, rm_file (su_rm2 u) (new_path u) fs1, Failed ''Failed to prepare GUI restart: '' e)
      | (w1, fs1, Inr r) \<Rightarrow> (w1, fs1, Updated version r))"

definition performGuiSelfUpdate ::
  "update_env \<Rightarrow> ('w \<Rightarrow> 'w \<times> unit res) \<Rightarrow> 'w \<Rightarrow> files \<Rightarrow> 'w \<times> files \<times> SelfUpdateResult res" where
  "performGuiSelfUpdate u beforeInstall w fs =
     (case find_update u of
        Inl e \<Rightarrow> (w, fs, Inl e)
      | Inr (Inl r) \<Rightarrow> (w, fs, Inr r)
      | Inr (Inr (version, url, sz)) \<Rightarrow>
          let fs0 = rm_file (su_rm1 u) (new_path u) fs in
          (case su_fetch u url of
             Inl e \<Rightarrow> (w, fs0, Inl e)
           | Inr d \<Rightarrow>
               (case (if ok_status (dl_status d) then dl_chunks d else None) of
                  None \<Rightarrow> (w, fs0, Inr (Refused (''Download failed: '' @ show_nat (dl_status d) @ '' '' @ dl_statusText d)))
                | Some cs \<Rightarrow>
                    (case transfer u sz d cs fs0 of
                       (fs1, Inl e) \<Rightarrow> (w, fs1, Inr (Failed ''Download error: '' e))
                     | (fs1, Inr _) \<Rightarrow>
                         (case install_update u beforeInstall version w fs1 of
                            (w1, fs2, r) \<Rightarrow> (w1, fs2, Inr r))))))"

section \<open>The order of an update\<close>

lemma map_of_rm_file: "map_of (rm_file fault p fs) q = (if fault = None \<and> q = p then None else map_of fs q)"
  by (simp add: rm_file_def delete_conv')

lemma map_of_rename:
  "map_of (fst (rename fault src dst fs)) q =
     (if fault = None \<and> map_of fs src \<noteq> None then if q = dst then map_of fs src else if q = src then None else map_of fs q
      else map_of fs q)"
  by (auto simp: rename_def update_conv' delete_conv' split: option.splits)

lemma snd_rename: "snd (rename fault src dst fs) = Inr () \<longleftrightarrow> fault = None \<and> map_of fs src \<noteq> None"
  by (auto simp: rename_def split: option.splits)

lemma open_log_keeps: "q \<noteq> t @ ''.installer.log'' \<Longrightarrow> map_of (fst (open_log ia t fs)) q = map_of fs q"
  by (simp add: open_log_def update_conv')

lemma write_keeps:
  assumes "q \<noteq> t @ ''.installer.log''" "q \<noteq> script_path ia t" "q \<noteq> metadata_path ia t"
  shows "map_of (fst (write_installer ia t fs)) q = map_of fs q"
proof (cases "ia_write ia")
  case (Inr u)
  then show ?thesis using assms by (cases "ia_meta ia") (simp_all add: write_installer_def Let_def open_log_keeps update_conv')
qed (simp add: write_installer_def)

lemma launch_keeps:
  assumes "q \<noteq> t @ ''.installer.log''" "q \<noteq> script_path ia t" "q \<noteq> metadata_path ia t"
  shows "map_of (fst (launch_installer ia t fs)) q = map_of fs q"
  using assms write_keeps [OF assms, of fs]
  by (cases "write_installer ia t fs") (simp add: launch_installer_def map_of_rm_file split: sum.split)

lemma launch_keeps_target: "map_of (fst (launch_installer ia t fs)) t = map_of fs t"
  by (rule launch_keeps) (simp_all add: script_path_def metadata_path_def)

lemma launch_keeps_new: "map_of (fst (launch_installer ia t fs)) (t @ ''.new'') = map_of fs (t @ ''.new'')"
  by (rule launch_keeps) (simp_all add: script_path_def metadata_path_def)

lemma map_of_copyFile: "q \<noteq> dst \<Longrightarrow> map_of (fst (copyFile fault src dst fs)) q = map_of fs q"
  by (simp add: copyFile_def update_conv' delete_conv' split: option.split prod.split)

lemma install_systemd_target:
  assumes "map_of fs t = Some old"
  shows "map_of (fst (installSystemdUpdate flt t s uid fs)) t =
     (case snd (installSystemdUpdate flt t s uid fs) of Inl e \<Rightarrow> Some old | Inr plan \<Rightarrow> map_of fs (t @ ''.new''))"
proof -
  obtain fs1 c where c: "copyFile (if_copy flt) t (t @ ''.old'') fs = (fs1, c)" by fastforce
  obtain fs2 m where m: "rename (if_rename flt) (t @ ''.new'') t fs1 = (fs2, m)" by fastforce
  have 1: "map_of fs1 q = map_of fs q" if "q \<noteq> t @ ''.old''" for q using map_of_copyFile [OF that, of "if_copy flt" t fs] c by simp
  have 2: "map_of fs2 t = (case m of Inl e \<Rightarrow> Some old | Inr _ \<Rightarrow> map_of fs (t @ ''.new''))"
    using map_of_rename [of "if_rename flt" "t @ ''.new''" t fs1 t] snd_rename [of "if_rename flt" "t @ ''.new''" t fs1] 1 m assms
    by (cases m) auto
  show ?thesis unfolding installSystemdUpdate_def c using 1 [of t] 2 assms m by (simp split: sum.split prod.split)
qed

lemma start_installer_cases:
  assumes "startGuiUpdateInstaller ia before t w fs = (w', fs', r)"
  obtains (early) e where "r = Inl e" "fs' = fs"
    | (systemd) s where "fs' = fst (installSystemdUpdate (ia_faults ia) t s (ia_uid ia) fs)"
        "r = bindE (snd (installSystemdUpdate (ia_faults ia) t s (ia_uid ia) fs)) (\<lambda>plan. Inr (RestartSystemd plan))"
    | (script) "fs' = fst (launch_installer ia t fs)" "r = snd (launch_installer ia t fs)"
proof -
  define c where "c = bindE (ia_service ia) (\<lambda>service. case service of None \<Rightarrow> Inr None
     | Some s \<Rightarrow> bindE (systemdRestartPlan s (ia_uid ia)) (\<lambda>_. Inr (Some s)))"
  note st = assms [unfolded startGuiUpdateInstaller_def, folded c_def]
  obtain w1 b where b: "before w = (w1, b)" by fastforce
  show ?thesis
  proof (cases c)
    case (Inl e)
    then show ?thesis using st early [of e] by simp
  next
    case (Inr s)
    show ?thesis
    proof (cases b)
      case (Inl e)
      then show ?thesis using st \<open>c = Inr s\<close> b early [of e] by simp
    next
      case u: (Inr u)
      show ?thesis
      proof (cases s)
        case None
        show ?thesis by (rule script) (use st Inr u b None in simp_all)
      next
        case (Some x)
        show ?thesis by (rule systemd [of x]) (use st Inr u b Some in \<open>simp_all add: case_prod_beta\<close>)
      qed
    qed
  qed
qed

lemma start_installer_target:
  assumes "map_of fs t = Some old" and "startGuiUpdateInstaller ia before t w fs = (w', fs', r)"
  shows "case r of
      Inl e \<Rightarrow> map_of fs' t = Some old
    | Inr (RestartSystemd plan) \<Rightarrow> map_of fs' t = map_of fs (t @ ''.new'')
    | Inr RestartExit \<Rightarrow> map_of fs' t = Some old \<and> map_of fs' (t @ ''.new'') = map_of fs (t @ ''.new'')"
  using assms(2)
proof (cases rule: start_installer_cases)
  case early
  then show ?thesis using assms(1) by simp
next
  case (systemd s)
  then show ?thesis using install_systemd_target [OF assms(1), of "ia_faults ia" s "ia_uid ia"]
    by (cases "snd (installSystemdUpdate (ia_faults ia) t s (ia_uid ia) fs)") (simp_all add: bindE_def)
next
  case script
  have "snd (launch_installer ia t fs) = Inr x \<Longrightarrow> x = RestartExit" for x
    by (auto simp: launch_installer_def split: sum.splits prod.splits)
  then show ?thesis using script launch_keeps_target [of ia t fs] launch_keeps_new [of ia t fs] assms(1)
    by (cases "snd (launch_installer ia t fs)") auto
qed

lemma start_installer_before:
  assumes "startGuiUpdateInstaller ia before t w fs = (w', fs', r)"
  shows "w' = w \<or> w' = fst (before w) \<and> (\<exists>s. ia_service ia = Inr s \<and>
     (\<forall>x. s = Some x \<longrightarrow> (\<exists>plan. systemdRestartPlan x (ia_uid ia) = Inr plan)))"
  using assms by (auto simp: startGuiUpdateInstaller_def bindE_def split: sum.splits option.splits prod.splits)

lemma perform_cases:
  assumes "performGuiSelfUpdate u before w fs = (w', fs', r)"
  obtains (early) "w' = w" "fs' = fs" | (fetch) "w' = w" "fs' = rm_file (su_rm1 u) (new_path u) fs"
    | (stop) sz d cs where "w' = w" "fs' = fst (transfer u sz d cs (rm_file (su_rm1 u) (new_path u) fs))"
    | (go) version url sz d cs where "find_update u = Inr (Inr (version, url, sz))" "su_fetch u url = Inr d" "dl_chunks d = Some cs"
        "snd (transfer u sz d cs (rm_file (su_rm1 u) (new_path u) fs)) = Inr ()"
        "(w', fs', r) = (\<lambda>(w1, fs2, r). (w1, fs2, Inr r))
           (install_update u before version w (fst (transfer u sz d cs (rm_file (su_rm1 u) (new_path u) fs))))"
proof -
  let ?fs0 = "rm_file (su_rm1 u) (new_path u) fs"
  note p = assms [unfolded performGuiSelfUpdate_def Let_def]
  show ?thesis
  proof (cases "\<exists>x. find_update u = Inr (Inr x)")
    case False
    then show ?thesis using p early by (auto split: sum.splits)
  next
    case True
    then obtain version url sz where f: "find_update u = Inr (Inr (version, url, sz))" by (metis prod_cases3)
    show ?thesis
    proof (cases "su_fetch u url")
      case (Inl e)
      then show ?thesis using p f fetch by simp
    next
      case (Inr d)
      show ?thesis
      proof (cases "if ok_status (dl_status d) then dl_chunks d else None")
        case None
        then show ?thesis using p f Inr fetch by simp
      next
        case (Some cs)
        then have cs: "dl_chunks d = Some cs" by (simp split: if_splits)
        show ?thesis
          using p f Inr Some stop [of sz d cs] go [OF f Inr cs]
          by (cases "transfer u sz d cs ?fs0"; cases "snd (transfer u sz d cs ?fs0)") (auto split: prod.splits)
      qed
    qed
  qed
qed

text \<open>C13: An update stops the managed proxies only when it can go on. The callback that stops them runs at most
  once, and only after the asset was transferred whole, so that the new file holds exactly the bytes
  received and the expected number of them, and, under systemd, after the policy of the unit was found
  to bring the GUI back. Whatever fails, the executable keeps its old content; it changes only when
  the update succeeds under systemd, and then to the bytes received.\<close>

theorem self_update_order:
  assumes "map_of fs (su_target u) = Some old"
    and "performGuiSelfUpdate u before w fs = (w', fs', r)"
  shows "map_of fs' (su_target u) = Some old \<and> w' = w \<or>
    (\<exists>version url sz d cs. find_update u = Inr (Inr (version, url, sz)) \<and> su_fetch u url = Inr d \<and> dl_chunks d = Some cs \<and>
       concat cs \<noteq> [] \<and> (\<forall>n. sz = JNum (Fin n) \<longrightarrow> 0 < n \<longrightarrow> n = of_nat (length (concat cs))) \<and>
       (\<forall>s. ia_service (su_installer u) = Inr (Some s) \<longrightarrow> systemdRestartPlan s (ia_uid (su_installer u)) \<notin> range Inl) \<and>
       w' \<in> {w, fst (before w)} \<and>
       map_of fs' (su_target u) = Some (if \<exists>plan. r = Inr (Updated version (RestartSystemd plan)) then concat cs else old))"
proof -
  let ?t = "su_target u"
  have new: "new_path u \<noteq> ?t" by (simp add: new_path_def)
  have rm: "map_of (rm_file f (new_path u) x) ?t = map_of x ?t" for f x using new by (simp add: map_of_rm_file)
  let ?fs0 = "rm_file (su_rm1 u) (new_path u) fs"
  consider (early) "w' = w" "fs' = fs" | (fetch) "w' = w" "fs' = ?fs0"
    | (stop) sz d cs where "w' = w" "fs' = fst (transfer u sz d cs ?fs0)"
    | (go) version url sz d cs where "find_update u = Inr (Inr (version, url, sz))" "su_fetch u url = Inr d" "dl_chunks d = Some cs"
        "snd (transfer u sz d cs ?fs0) = Inr ()"
        "(w', fs', r) = (\<lambda>(w1, fs2, r). (w1, fs2, Inr r)) (install_update u before version w (fst (transfer u sz d cs ?fs0)))"
    using assms(2) by (rule perform_cases)
  then show ?thesis
  proof cases
    case (go version url sz d cs)
    let ?fs1 = "fst (transfer u sz d cs ?fs0)"
    have tr: "?fs1 = AList.update (new_path u) (concat cs) ?fs0"
      "\<not> incomplete (length (concat cs)) (or_else sz (transfer_size (dl_contentLength d) sz))"
      using go(4) by (auto simp: transfer_def Let_def split: option.splits if_splits)
    have old: "map_of ?fs1 ?t = Some old" "map_of ?fs1 (?t @ ''.new'') = Some (concat cs)"
      using assms(1) rm new unfolding tr(1) by (simp_all add: update_conv' new_path_def)
    obtain w1 fs2 x where i: "startGuiUpdateInstaller (su_installer u) before ?t w ?fs1 = (w1, fs2, x)"
      by (metis prod_cases3)
    have res: "w' = w1" "fs' = (case x of Inl e \<Rightarrow> rm_file (su_rm2 u) (new_path u) fs2 | Inr y \<Rightarrow> fs2)"
      "r = Inr (case x of Inl e \<Rightarrow> Failed ''Failed to prepare GUI restart: '' e | Inr y \<Rightarrow> Updated version y)"
      using go(5) i by (auto simp: install_update_def split: sum.splits)
    have t: "map_of fs' ?t = Some (if \<exists>plan. r = Inr (Updated version (RestartSystemd plan)) then concat cs else old)"
      using start_installer_target [OF old(1) i] rm old(2) unfolding res
      by (auto split: sum.splits GuiUpdateRestart.splits)
    have n: "\<forall>n. sz = JNum (Fin n) \<longrightarrow> 0 < n \<longrightarrow> n = of_nat (length (concat cs))" "concat cs \<noteq> []"
      using tr(2) by (auto simp: incomplete_def or_else_def)
    have plan: "systemdRestartPlan s (ia_uid (su_installer u)) \<notin> range Inl \<or> w' = w \<and> map_of fs' ?t = Some old"
      if "ia_service (su_installer u) = Inr (Some s)" for s
      using i that old(1) rm unfolding res
      by (auto simp: startGuiUpdateInstaller_def bindE_def split: sum.splits)
    have "w' \<in> {w, fst (before w)}" using start_installer_before [OF i] unfolding res by auto
    then show ?thesis using go(1-3) n plan t by blast
  qed (use assms(1) rm new in \<open>auto simp: transfer_def Let_def update_conv' split: option.splits\<close>)
qed

definition plain_download :: "string \<Rightarrow> download" where
  "plain_download c = \<lparr>dl_mkdir = None, dl_status = 200, dl_statusText = ''OK'', dl_contentLength = None, dl_chunks = Some [c],
     dl_readError = None, dl_writeError = None\<rparr>"

definition plain_installer :: installer_env where
  "plain_installer = \<lparr>ia_service = Inr (Some user_service), ia_uid = 1000,
     ia_faults = \<lparr>if_stat = None, if_chmod = None, if_copy = None, if_rename = None\<rparr>, ia_windows = False, ia_pid = 7, ia_cwd = ''/'',
     ia_argv = [], ia_script = [], ia_write = Inr (), ia_meta = Inr (), ia_open = Inr (), ia_launch = Inr (), ia_close = Inr (),
     ia_rm = None\<rparr>"

definition plain_update :: "string \<Rightarrow> update_env" where
  "plain_update c = \<lparr>su_compiled = True, su_version = ''1'',
     su_manifest = Fetched 200 ''OK'' (Inr (JObj [(''version'', JStr ''2''), (''assets'', JArr [JObj [(''platform'', JStr ''linux-x64''),
        (''downloadUrl'', JStr ''u''), (''size'', JNum (Fin 3))]])])),
     su_platform = ''linux'', su_arch = ''x64'', su_fetch = (\<lambda>_. Inr (plain_download c)), su_rm1 = None, su_rm2 = None,
     su_partial = None, su_target = ''/g'', su_installer = plain_installer\<rparr>"

theorem self_update_order_witness:
  "\<exists>fs' r. performGuiSelfUpdate (plain_update ''new'') (\<lambda>w. (w + 1, Inr ())) (0::nat) [(''/g'', ''old'')] = (1, fs', Inr r) \<and>
     map_of fs' ''/g'' = Some ''new''"
proof -
  let ?p = "performGuiSelfUpdate (plain_update ''new'') (\<lambda>w. (w + 1, Inr ())) (0::nat) [(''/g'', ''old'')]"
  let ?r = "Updated ''2'' (RestartSystemd \<lparr>rp_managerRestart = True, rp_exitCode = 0, rp_restartTimeoutMs = 90000\<rparr>)"
  have e: "map_of [(''/g'', ''old'')] (su_target (plain_update ''new'')) = Some ''old''" by (simp add: plain_update_def)
  have "fst ?p = 1" "snd (snd ?p) = Inr ?r" by code_simp+
  then have p: "?p = (1, fst (snd ?p), Inr ?r)" by (metis prod.collapse)
  have v: "x = ''2''" if "find_update (plain_update ''new'') = Inr (Inr (x, url, sz))" for x url sz
  proof -
    have "find_update (plain_update ''new'') = Inr (Inr (''2'', JStr ''u'', JNum (Fin 3)))" by code_simp
    then show ?thesis using that by simp
  qed
  have d: "dl_chunks d = Some [''new'']" if "su_fetch (plain_update ''new'') url = Inr d" for url d
    using that by (auto simp: plain_update_def plain_download_def)
  have "map_of (fst (snd ?p)) (su_target (plain_update ''new'')) = Some ''new''"
    using self_update_order [OF e p] v d by fastforce
  then show ?thesis using p by (intro exI [of _ "fst (snd ?p)"] exI [of _ ?r]) (simp add: plain_update_def)
qed

section \<open>The scripts keep a program\<close>

text \<open>The installer of Unix ends with a program in place. It gives up after sixty checks. When the moves
  that undo a failed step succeed, the path of the executable holds the old program or the new one,
  whatever else fails; what is started is what the path holds; and the new program is started exactly
  when the old GUI ended, the directory was entered, both moves succeeded and the mode was set.\<close>

lemma unix_installer_keeps_program:
  assumes "map_of fs t = Some old" and "map_of fs (t @ ''.new'') = Some new" and "us_mv3 a = None"
    and "unixInstallerScript a t fs = (fs', started)"
  shows "map_of fs' t = Some (if unix_wait 0 (us_alive a) \<and> us_cd a \<and> us_mv1 a = None \<and> us_mv2 a = None then new else old) \<and>
    (unix_wait 0 (us_alive a) \<longleftrightarrow> \<not> list_all id (take 60 (us_alive a @ [False]))) \<and>
    (started = None \<or> started = map_of fs' t) \<and>
    (started \<noteq> None \<longleftrightarrow> unix_wait 0 (us_alive a) \<and> us_cd a \<and> us_mv1 a = None \<and> (us_mv2 a = None \<longrightarrow> us_chmod a = None))"
proof -
  have w: "n < 60 \<Longrightarrow> unix_wait n as \<longleftrightarrow> \<not> list_all id (take (60 - n) (as @ [False]))" for n as
  proof (induction n as rule: unix_wait.induct)
    case (2 n alive as)
    then show ?case by (cases "n = 59") (auto simp: take_Cons' Suc_diff_Suc)
  qed simp
  have ne: "t @ ''.old'' \<noteq> t" "t @ ''.new'' \<noteq> t" "t @ ''.old'' \<noteq> t @ ''.new''" "t @ ''.update.log'' \<noteq> t" by simp_all
  have b: "unix_wait 0 (us_alive a) \<longleftrightarrow> \<not> list_all id (take 60 (us_alive a @ [False]))" using w [of 0] by simp
  show ?thesis unfolding b [symmetric]
    using assms ne
    by (auto simp: unixInstallerScript_def update_log_def rm_file_def rename_def update_conv' delete_conv' Let_def
        split: if_splits option.splits) metis+
qed

definition unix_ok :: unix_answers where
  "unix_ok = \<lparr>us_alive = [True, True, False], us_cd = True, us_rm = None, us_mv1 = None, us_mv2 = Some (SysError ''EIO''),
     us_mv3 = None, us_chmod = None\<rparr>"

lemma Move_Item_ok:
  assumes "map_of fs src = Some c" and "map_of fs dst = None"
  shows "Move_Item None src dst fs = (AList.update dst c (AList.delete src fs), Inr ())"
  using assms by (simp add: Move_Item_def rename_def)

lemma Move_Item_fault: "Move_Item (Some e) src dst fs = (fs, Inl (if map_of fs dst = None then e else SysError ''EEXIST''))"
  by (simp add: Move_Item_def rename_def)

lemma windows_restore_target:
  assumes "map_of fs (t @ ''.old'') = Some old" and "if installed then map_of fs t = Some new else map_of fs t = None"
    and "wn_mv3 a = None" and "wn_mv4 a = None"
  shows "map_of (fst (windows_restore a t installed fs)) t = Some old \<and>
     snd (windows_restore a t installed fs) = (if wn_start2 a = None then Some old else None)"
proof (cases installed)
  case True
  let ?fs1 = "AList.update (t @ ''.new'') new (AList.delete t fs)"
  have "rename (wn_mv3 a) t (t @ ''.new'') fs = (?fs1, Inr ())" using assms True by (simp add: rename_def)
  moreover have "Move_Item (wn_mv4 a) (t @ ''.old'') t ?fs1 = (AList.update t old (AList.delete (t @ ''.old'') ?fs1), Inr ())"
    unfolding assms(4) by (rule Move_Item_ok) (simp_all add: update_conv' delete_conv' assms(1))
  ultimately show ?thesis using True
    by (auto simp: windows_restore_def start_process_def update_conv' split: option.splits)
next
  case False
  have "Move_Item (wn_mv4 a) (t @ ''.old'') t fs = (AList.update t old (AList.delete (t @ ''.old'') fs), Inr ())"
    unfolding assms(4) by (rule Move_Item_ok) (use assms False in simp_all)
  then show ?thesis using False
    by (auto simp: windows_restore_def start_process_def update_conv' split: option.splits)
qed

text \<open>The installer of Windows ends with a program in place: when the moves back succeed, the path of the
  executable holds the new program exactly when the old GUI ended, the backup was cleared, both moves
  succeeded and the new program started, and the old program otherwise; what runs is what the path
  holds.\<close>

lemma windows_installer_keeps_program:
  assumes "map_of fs t = Some old" and "map_of fs (t @ ''.new'') = Some new" and "wn_mv3 a = None" and "wn_mv4 a = None"
    and "windowsInstallerScript a t fs = (fs', started)"
  shows "map_of fs' t = Some (if wn_exited a \<and> (map_of fs (t @ ''.old'') = None \<or> wn_rm a = None) \<and> wn_mv1 a = None \<and>
      wn_mv2 a = None \<and> wn_start1 a = None then new else old) \<and> (started = None \<or> started = map_of fs' t)"
proof -
  define fs0 where "fs0 = rm_file (wn_rm a) (t @ ''.old'') fs"
  define fs1 where "fs1 = AList.update (t @ ''.old'') old (AList.delete t fs0)"
  define fs2 where "fs2 = AList.update t new (AList.delete (t @ ''.new'') fs1)"
  have lg: "map_of (update_log t x f) t = map_of f t" for x f by (simp add: update_log_def update_conv')
  show ?thesis
  proof (cases "wn_exited a \<and> (map_of fs (t @ ''.old'') = None \<or> wn_rm a = None) \<and> wn_mv1 a = None")
    case False
    then show ?thesis using assms
      by (auto simp: windowsInstallerScript_def lg map_of_rm_file Move_Item_fault Let_def split: if_splits)
  next
    case True
    have 1: "Move_Item (wn_mv1 a) t (t @ ''.old'') fs0 = (fs1, Inr ())"
      using True assms(1) by (auto intro!: Move_Item_ok simp: map_of_rm_file fs1_def fs0_def)
    have 2: "Move_Item None (t @ ''.new'') t fs1 = (fs2, Inr ())"
      unfolding fs2_def by (rule Move_Item_ok) (simp_all add: fs0_def fs1_def update_conv' delete_conv' map_of_rm_file assms(2))
    have r1: "map_of (fst (windows_restore a t False fs1)) t = Some old \<and>
       snd (windows_restore a t False fs1) = (if wn_start2 a = None then Some old else None)"
      by (rule windows_restore_target) (simp_all add: fs1_def fs2_def update_conv' delete_conv' assms)
    have r2: "map_of (fst (windows_restore a t True fs2)) t = Some old \<and>
       snd (windows_restore a t True fs2) = (if wn_start2 a = None then Some old else None)"
      by (rule windows_restore_target) (simp_all add: fs1_def fs2_def update_conv' delete_conv' assms)
    have new: "map_of fs2 t = Some new" by (simp add: fs2_def update_conv')
    show ?thesis
      using assms(5) True assms(2) r1 r2 new unfolding windowsInstallerScript_def Let_def fs0_def [symmetric] 1
      by (cases "wn_mv2 a"; cases "wn_start1 a")
        (auto simp: 2 Move_Item_fault start_process_def lg case_prod_beta split: if_splits)
  qed
qed

definition windows_ok :: windows_answers where
  "windows_ok = \<lparr>wn_exited = True, wn_rm = None, wn_mv1 = None, wn_mv2 = None, wn_start1 = Some (SysError ''EACCES''),
     wn_mv3 = None, wn_mv4 = None, wn_start2 = None, wn_text = ''start failed''\<rparr>"

section \<open>Quoted arguments\<close>

text \<open>How a Windows program splits its command line: a quote after an even number of backslashes opens or
  closes, after an odd number it is a character; backslashes elsewhere stand for themselves, and two
  quotes inside a quoted part are one.\<close>

fun argv :: "bool \<Rightarrow> bool \<Rightarrow> string \<Rightarrow> nat \<Rightarrow> string \<Rightarrow> string list" where
  "argv q st cur n [] = (if st then [cur @ replicate n (CHR 0x5C)] else [])"
| "argv q st cur n (c # cs) =
     (if c = CHR 0x5C then argv q True cur (n + 1) cs
      else if c = CHR 0x22 then
        (if odd n then argv q True (cur @ replicate (n div 2) (CHR 0x5C) @ [c]) 0 cs
         else if q \<and> take 1 cs = [CHR 0x22] then argv q True (cur @ replicate (n div 2) (CHR 0x5C) @ [c]) 0 (drop 1 cs)
         else argv (\<not> q) True (cur @ replicate (n div 2) (CHR 0x5C)) 0 cs)
      else if \<not> q \<and> (c = CHR 0x20 \<or> c = CHR 0x09)
      then (if st then [cur @ replicate n (CHR 0x5C)] else []) @ argv False False [] 0 cs
      else argv q True (cur @ replicate n (CHR 0x5C) @ [c]) 0 cs)"

lemma argv_backslashes: "argv q True cur n (replicate m (CHR 0x5C) @ s) = argv q True cur (n + m) s"
  by (induction m arbitrary: n) auto

lemma double_tail_cut: "c \<noteq> CHR 0x5C \<Longrightarrow> double_tail (xs @ c # ys) = xs @ c # double_tail ys"
proof -
  assume c: "c \<noteq> CHR 0x5C"
  have "takeWhile (\<lambda>c. c = CHR 0x5C) (zs @ c # us) = takeWhile (\<lambda>c. c = CHR 0x5C) zs" for zs us
    using c by (induction zs) auto
  then show ?thesis by (simp add: double_tail_def)
qed

lemma double_tail_backslashes: "double_tail (replicate n (CHR 0x5C)) = replicate (n + n) (CHR 0x5C)"
  by (simp add: double_tail_def replicate_add)

lemma argv_quoted:
  assumes "take 1 r \<noteq> [CHR 0x22]"
  shows "argv True True cur 0 (double_tail (replace_quotes n v) @ CHR 0x22 # r) = argv False True (cur @ replicate n (CHR 0x5C) @ v) 0 r"
proof (induction n v arbitrary: cur rule: replace_quotes.induct)
  case (1 n)
  then show ?case using assms by (simp add: double_tail_backslashes argv_backslashes mult_2 [symmetric])
next
  case (2 n c cs)
  consider "c = CHR 0x5C" | "c = CHR 0x22" | "c \<noteq> CHR 0x5C" "c \<noteq> CHR 0x22" by blast
  then show ?case
  proof cases
    case 1
    then show ?thesis using "2.IH"(1) by (simp add: replicate_app_Cons_same)
  next
    case 2
    have "double_tail (replicate (2 * n) (CHR 0x5C) @ [CHR 0x5C, CHR 0x22] @ replace_quotes 0 cs) =
        replicate (2 * n + 1) (CHR 0x5C) @ CHR 0x22 # double_tail (replace_quotes 0 cs)"
      using double_tail_cut [of "CHR 0x22" "replicate (2 * n) (CHR 0x5C) @ [CHR 0x5C]"] by (simp add: replicate_app_Cons_same)
    then show ?thesis using "2.IH"(2) 2 by (simp add: argv_backslashes del: replicate_Suc)
  next
    case 3
    then show ?thesis using "2.IH"(3) by (simp add: double_tail_cut argv_backslashes)
  qed
qed

text \<open>C17: A command line of quoted arguments is split into the same arguments, whatever spaces, quotes and
  runs of backslashes they contain, the empty argument included.\<close>

theorem quoted_arguments_roundtrip:
  "argv False False [] 0 (join_with '' '' (map quoteWindowsArgument args)) = args"
proof (induction args)
  case (Cons a as)
  have q: "argv False False [] 0 (quoteWindowsArgument a @ r) = argv False True a 0 r" if "take 1 r \<noteq> [CHR 0x22]" for r
    using argv_quoted [OF that, of "[]" 0 a] by (simp add: quoteWindowsArgument_def)
  show ?case
  proof (cases as)
    case Nil
    then show ?thesis using q [of "[]"] by simp
  next
    case (Cons b bs)
    have "argv False False [] 0 (quoteWindowsArgument a @ '' '' @ join_with '' '' (map quoteWindowsArgument as)) =
        a # argv False False [] 0 (join_with '' '' (map quoteWindowsArgument as))" by (subst q) simp_all
    then show ?thesis using Cons.IH Cons by simp
  qed
qed simp

end
