(* ===== verification/Supervisor.thy ===== *)
theory Supervisor
  imports ProcessManager ConfigManager ManagerProxy SelfUpdate
begin

text \<open>
  The server of the GUI as a whole, \<open>FerrumGUI/src/index.ts\<close>: the instance store, the process
  manager, the configuration files and their watchers, the release cache and the state of the restart
  policy in one record, the listeners of the process manager, the timers they set, and the handlers of
  \<open>/api/instances\<close>. A handler runs as one step; where it waits for a process or for a delay, the
  events of the children that arrive meanwhile are an argument. What the system answers in a step
  (the clock, outcomes of writes, the pid of a new child, whether a file can be watched) is the record \<open>sup_env\<close>. Of the messages
  about the progress of a download only the number of bytes is kept, and the one about the download of
  the GUI itself is left out.
\<close>

section \<open>State\<close>

record world =
  w_sm :: ServiceManager
  w_pm :: ProcessManager
  w_watch :: watch_state
  w_disk :: disk
  w_binaries :: files
  w_cache :: ReleaseCache
  w_attempts :: "(string \<times> nat \<times> ms) list"
  w_intentional :: "string list"
  w_updating :: bool
  w_timers :: "(ms \<times> string) list"
  w_msgs :: "ws_msg list"

record sup_env =
  se_now :: ms
  se_text :: string
  se_platform :: string
  se_api :: api_env
  se_pid :: "int option"
  se_read :: "js_error option"
  se_save :: "js_error option"
  se_watch :: "js_error option"

datatype reply =
    Success
  | Started int
  | Instance FerrumProxyInstance
  | Instances "FerrumProxyInstance list"
  | Redacted "(string \<times> string \<times> int option) list"
  | ConfigIs jsval
  | Logs "LogEntry list"
  | UpdatedTo string
  | Invalid "string list"
  | Fail nat string
  | Crash js_error

definition broadcast :: "ws_msg list \<Rightarrow> world \<Rightarrow> world" where
  "broadcast ms w = w\<lparr>w_msgs := w_msgs w @ ms\<rparr>"

definition broadcast_instances :: "world \<Rightarrow> world" where
  "broadcast_instances w = broadcast [MsgInstances (getAll (w_sm w))] w"

text \<open>What a browser is sent when its WebSocket connects.\<close>

definition ws_connection :: "world \<Rightarrow> ws_msg" where
  "ws_connection w = MsgInstances (getAll (w_sm w))"

section \<open>Starting an instance\<close>

definition isPrivilegedPort :: "jsval \<Rightarrow> bool" where
  "isPrivilegedPort p = (case p of JNum n \<Rightarrow> js_less (Fin 0) n \<and> js_less n (Fin 1024) | _ \<Rightarrow> False)"

fun privileged_listener :: "jsval list \<Rightarrow> bool res" where
  "privileged_listener [] = Inr False"
| "privileged_listener (l # ls) =
     bindE (js_prop l ''tcp'') (\<lambda>t. bindE (js_prop l ''udp'') (\<lambda>u.
       if isPrivilegedPort t \<or> isPrivilegedPort u then Inr True else privileged_listener ls))"

definition config_privileged :: "jsval \<Rightarrow> bool res" where
  "config_privileged config =
     bindE (js_prop config ''endpoint'') (\<lambda>p.
       if isPrivilegedPort p then Inr True
       else bindE (js_prop config ''listeners'') (\<lambda>ls.
         if \<not> js_truthy ls then Inr False
         else case ls of JArr xs \<Rightarrow> privileged_listener xs | _ \<Rightarrow> Inl TypeError))"

definition shouldStartWithSudo :: "sup_env \<Rightarrow> FerrumProxyInstance \<Rightarrow> disk \<Rightarrow> bool" where
  "shouldStartWithSudo e x d =
     (if se_platform e \<noteq> ''linux'' \<and> se_platform e \<noteq> ''darwin'' then False
      else case bindE (config_read (se_read e) (configPath x) d) config_privileged of Inl _ \<Rightarrow> False | Inr b \<Rightarrow> b)"

definition start_options :: "FerrumProxyInstance \<Rightarrow> bool \<Rightarrow> ProcessOptions" where
  "start_options y sudo =
     \<lparr>po_workingDirectory = dataDir y, po_binaryPath = binaryPath y, po_args = Some (getManagerApiArgs y), po_useSudo = sudo\<rparr>"

definition ensure_api :: "sup_env \<Rightarrow> FerrumProxyInstance \<Rightarrow> world \<Rightarrow> world \<times> FerrumProxyInstance res" where
  "ensure_api e x w =
     (case ensureManagerApi (se_api e) x (w_sm w) of (s, ms, r) \<Rightarrow> (broadcast ms (w\<lparr>w_sm := s\<rparr>), r))"

definition spawn :: "sup_env \<Rightarrow> string \<Rightarrow> FerrumProxyInstance \<Rightarrow> world \<Rightarrow> world \<times> int res" where
  "spawn e i y w =
     (case start (se_now e) (se_platform e = ''win32'') (se_pid e) i (start_options y (shouldStartWithSudo e y (w_disk w))) (w_pm w) of
        (pm, r) \<Rightarrow> (w\<lparr>w_pm := pm\<rparr>, r))"

text \<open>What the start handler, the restart timer and the start of the server have in common: the process,
  its pid in the store, and the watcher of its configuration.\<close>

definition set_pid :: "sup_env \<Rightarrow> string \<Rightarrow> int option \<Rightarrow> world \<Rightarrow> world \<times> unit res" where
  "set_pid e i p w = (case setPid (se_save e) (se_text e) i p (w_sm w) of (s, r) \<Rightarrow> (w\<lparr>w_sm := s\<rparr>, r))"

definition run_instance :: "sup_env \<Rightarrow> string \<Rightarrow> FerrumProxyInstance \<Rightarrow> world \<Rightarrow> world \<times> int res" where
  "run_instance e i x w =
     (case ensure_api e x w of
        (w1, Inl er) \<Rightarrow> (w1, Inl er)
      | (w1, Inr y) \<Rightarrow>
          (case spawn e i y w1 of
             (w2, Inl er) \<Rightarrow> (w2, Inl er)
           | (w2, Inr pid) \<Rightarrow>
               (case set_pid e i (Some pid) w2 of
                  (w3, Inl er) \<Rightarrow> (w3, Inl er)
                | (w3, Inr _) \<Rightarrow>
                    (case watch (se_watch e) i (configPath y) (w_watch w3) of
                       (wa, Inl er) \<Rightarrow> (w3\<lparr>w_watch := wa\<rparr>, Inl er)
                     | (wa, Inr _) \<Rightarrow> (w3\<lparr>w_watch := wa\<rparr>, Inr pid)))))"

section \<open>The restart policy\<close>

definition markIntentionalStop :: "string \<Rightarrow> world \<Rightarrow> world" where
  "markIntentionalStop i w =
     w\<lparr>w_intentional := List.insert i (w_intentional w), w_attempts := AList.delete i (w_attempts w)\<rparr>"

definition schedule_restart :: "ms \<Rightarrow> string \<Rightarrow> world \<Rightarrow> world" where
  "schedule_restart now i w =
     (let info = (case map_of (w_attempts w) i of None \<Rightarrow> (0, now) | Some x \<Rightarrow> x);
          (count, first) = (if now - snd info > 60000 then (0, now) else info) in
      if count \<ge> 5 then broadcast [MsgAutoRestartFailed i count] w
      else w\<lparr>w_attempts := AList.update i (count + 1, first) (w_attempts w),
             w_timers := w_timers w @ [(now + 1000 * int (count + 1), i)]\<rparr>)"

text \<open>The listener on \<open>exit\<close>. A failed write of the store rejects the listener before it goes on.\<close>

definition exit_listener :: "sup_env \<Rightarrow> string \<Rightarrow> int option \<Rightarrow> string option \<Rightarrow> world \<Rightarrow> world" where
  "exit_listener e i code sig w =
     (let inst = getById i (w_sm w) in
      case (if inst = None then (w, Inr ()) else set_pid e i None w) of
        (w1, Inl _) \<Rightarrow> w1
      | (w1, Inr _) \<Rightarrow>
          let w2 = broadcast_instances (broadcast [MsgProcessExit i code sig] w1) in
          if i \<in> set (w_intentional w2) then w2\<lparr>w_intentional := removeAll i (w_intentional w2)\<rparr>
          else (case inst of
                  Some x \<Rightarrow> if \<not> w_updating w2 \<and> autoRestart x = Some True then schedule_restart (se_now e) i w2 else w2
                | None \<Rightarrow> w2))"

text \<open>The callback of the timer.\<close>

definition restart_timer :: "sup_env \<Rightarrow> string \<Rightarrow> world \<Rightarrow> world" where
  "restart_timer e i w =
     (if w_updating w then w
      else case getById i (w_sm w) of
        None \<Rightarrow> w
      | Some fresh \<Rightarrow>
          if isRunning i (w_pm w) then w\<lparr>w_attempts := AList.delete i (w_attempts w)\<rparr>
          else (case run_instance e i fresh w of
                  (w1, Inl er) \<Rightarrow> broadcast [MsgAutoRestartError i er] w1
                | (w1, Inr pid) \<Rightarrow>
                    broadcast_instances (broadcast [MsgInstanceStarted i pid] (w1\<lparr>w_attempts := AList.delete i (w_attempts w1)\<rparr>))))"

text \<open>A timer runs when it is due.\<close>

definition fire_timer :: "sup_env \<Rightarrow> nat \<Rightarrow> world \<Rightarrow> world" where
  "fire_timer e k w =
     (if k < length (w_timers w) \<and> fst (w_timers w ! k) \<le> se_now e
      then restart_timer e (snd (w_timers w ! k)) (w\<lparr>w_timers := take k (w_timers w) @ drop (Suc k) (w_timers w)\<rparr>)
      else w)"

text \<open>An event of a child, with what the listeners of the server do on it.\<close>

fun child_event :: "world \<Rightarrow> sup_env \<times> string \<times> child_event \<Rightarrow> world" where
  "child_event w (e, i, ev) =
     (let w1 = w\<lparr>w_pm := child_step (w_pm w) (se_now e, i, ev)\<rparr> in
      case ev of
        ChildData ty chunk \<Rightarrow> w1
      | ChildExit code sig \<Rightarrow> exit_listener e i code sig w1
      | ChildError m \<Rightarrow> broadcast [MsgProcessError i m] w1)"

section \<open>Handlers\<close>

definition stop_process :: "ms \<Rightarrow> bool \<Rightarrow> string \<Rightarrow> world \<Rightarrow> world" where
  "stop_process now force i w = w\<lparr>w_pm := fst (stop now force i (w_pm w))\<rparr>"

definition handle_start :: "sup_env \<Rightarrow> string \<Rightarrow> world \<Rightarrow> world \<times> reply" where
  "handle_start e i w =
     (case getById i (w_sm w) of
        None \<Rightarrow> (w, Fail 404 ''Instance not found'')
      | Some x \<Rightarrow>
          if isRunning i (w_pm w) then (w, Fail 400 ''Instance is already running'')
          else (case run_instance e i x w of
                  (w1, Inl er) \<Rightarrow> (w1, Crash er)
                | (w1, Inr pid) \<Rightarrow> (broadcast_instances (broadcast [MsgInstanceStarted i pid] w1), Started pid)))"

definition unwatch_stopped :: "string \<Rightarrow> world \<Rightarrow> world" where
  "unwatch_stopped i w =
     broadcast_instances (broadcast [MsgInstanceStopped i] (w\<lparr>w_watch := unwatch i (w_watch w)\<rparr>))"

definition handle_stop :: "sup_env \<Rightarrow> string \<Rightarrow> world \<Rightarrow> world \<times> reply" where
  "handle_stop e i w =
     (if \<not> isRunning i (w_pm w) then (w, Fail 400 ''Instance is not running'')
      else case set_pid e i None (stop_process (se_now e) False i (markIntentionalStop i w)) of
             (w1, Inl er) \<Rightarrow> (w1, Crash er)
           | (w1, Inr _) \<Rightarrow> (unwatch_stopped i w1, Success))"

text \<open>The first half of \<open>processManager.restart\<close>: a running process is stopped; \<open>during\<close> is what
  happens until it is gone or the wait is over.\<close>

definition stop_for_restart :: "sup_env \<Rightarrow> (sup_env \<times> string \<times> child_event) list \<Rightarrow> string \<Rightarrow> world \<Rightarrow> world" where
  "stop_for_restart e during i w =
     (if isRunning i (w_pm w) then foldl child_event (stop_process (se_now e) False i (markIntentionalStop i w)) during else w)"

definition handle_restart ::
  "sup_env \<Rightarrow> (sup_env \<times> string \<times> child_event) list \<Rightarrow> string \<Rightarrow> world \<Rightarrow> world \<times> reply" where
  "handle_restart e during i w =
     (case getById i (w_sm w) of
        None \<Rightarrow> (w, Fail 404 ''Instance not found'')
      | Some x \<Rightarrow>
          (case ensure_api e x w of
             (w1, Inl er) \<Rightarrow> (w1, Crash er)
           | (w1, Inr y) \<Rightarrow>
               let w2 = stop_for_restart e during i w1 in
               (case start (se_now e) (se_platform e = ''win32'') (se_pid e) i
                       (start_options y (shouldStartWithSudo e y (w_disk w1))) (w_pm w2) of
                  (pm, Inl er) \<Rightarrow> (w2\<lparr>w_pm := pm\<rparr>, Crash er)
                | (pm, Inr pid) \<Rightarrow>
                    (case set_pid e i (Some pid) (w2\<lparr>w_pm := pm\<rparr>) of
                       (w3, Inl er) \<Rightarrow> (w3, Crash er)
                     | (w3, Inr _) \<Rightarrow> (broadcast_instances (broadcast [MsgInstanceRestarted i pid] w3), Started pid)))))"

text \<open>The directory of the instance is removed with what it holds; a failure is only logged.\<close>

definition under :: "string \<Rightarrow> string \<Rightarrow> bool" where
  "under dir p \<longleftrightarrow> p = dir \<or> startsWith p (dir @ ''/'')"

definition handle_delete :: "sup_env \<Rightarrow> js_error option \<Rightarrow> string \<Rightarrow> world \<Rightarrow> world \<times> reply" where
  "handle_delete e rm i w =
     (case getById i (w_sm w) of
        None \<Rightarrow> (w, Fail 404 ''Instance not found'')
      | Some x \<Rightarrow>
          let w1 = (if isRunning i (w_pm w) then stop_process (se_now e) True i (markIntentionalStop i w) else w);
              w2 = w1\<lparr>w_watch := unwatch i (w_watch w1)\<rparr> in
          (case Services.remove (se_save e) (se_text e) i (w_sm w2) of
             (s, Inl er) \<Rightarrow> (w2\<lparr>w_sm := s\<rparr>, Crash er)
           | (s, Inr _) \<Rightarrow>
               let w3 = w2\<lparr>w_sm := s\<rparr>;
                   w4 = (if rm = None
                         then w3\<lparr>w_disk := filter (\<lambda>(p, _). \<not> under (dataDir x) p) (w_disk w3),
                                 w_binaries := filter (\<lambda>(p, _). \<not> under (dataDir x) p) (w_binaries w3)\<rparr>
                         else w3) in
               (broadcast [MsgInstanceRemoved i] w4, Success)))"

section \<open>Creating an instance\<close>

text \<open>What a download meets: the answer for the manifest, the transfer of an asset and what it leaves
  when it fails, and the outcomes of setting the mode, making the directory, writing the configuration
  and removing an old binary.\<close>

record net_env =
  ne_tag :: string
  ne_manifest :: fetched
  ne_get :: "jsval \<Rightarrow> download"
  ne_chmod :: "js_error option"
  ne_mkdir :: "js_error option"
  ne_write :: "js_error option"
  ne_partial :: "string option"
  ne_rm :: "js_error option"

record create_request =
  cr_name :: string
  cr_platform :: "FerrumProxyPlatform option"
  cr_version :: string

definition createDefaultConfig :: jsval where
  "createDefaultConfig = JObj
     [(''endpoint'', JNum (Fin 6000)), (''useRestApi'', JBool True), (''savePlayerIP'', JBool True), (''debug'', JBool False),
      (''listeners'', JArr [JObj
         [(''bind'', JStr ''0.0.0.0''), (''tcp'', JNum (Fin 25565)), (''udp'', JNum (Fin 25565)), (''haproxy'', JBool False),
          (''https'', JObj [(''enabled'', JBool False), (''autoDetect'', JBool True), (''letsEncryptDomain'', JStr ''example.com''),
             (''certPath'', JStr ''./certs/fullchain.pem''), (''keyPath'', JStr ''./certs/privkey.pem'')]),
          (''webhook'', JStr []), (''rewriteBedrockPongPorts'', JBool True),
          (''targets'', JArr [JObj [(''host'', JStr ''127.0.0.1''), (''tcp'', JNum (Fin 19132)), (''udp'', JNum (Fin 19132))]])]])]"

definition latest_release :: "bool \<Rightarrow> sup_env \<Rightarrow> net_env \<Rightarrow> world \<Rightarrow> world \<times> Release" where
  "latest_release force e n w =
     (case getLatestRelease force (se_now e) (ne_tag n) (se_text e) (ne_manifest n) (w_cache w) of
        (c, r) \<Rightarrow> (w\<lparr>w_cache := c\<rparr>, r))"

text \<open>The version to install: \<open>latest\<close> stands for that of the release.\<close>

definition requested_version :: "bool \<Rightarrow> sup_env \<Rightarrow> net_env \<Rightarrow> string \<Rightarrow> world \<Rightarrow> world \<times> string" where
  "requested_version force e n version w =
     (if version = ''latest'' then (case latest_release force e n w of (w1, r) \<Rightarrow> (w1, rel_version r)) else (w, version))"

text \<open>The transfer of an asset to a path under a directory; \<open>path.join\<close> refuses a name that is no text.\<close>

definition fetch_binary ::
  "(nat \<Rightarrow> ws_msg) \<Rightarrow> sup_env \<Rightarrow> net_env \<Rightarrow> string \<Rightarrow> ReleaseAsset \<Rightarrow> world \<Rightarrow> world \<times> string res" where
  "fetch_binary msg e n dir asset w =
     (case ra_name asset of
        JStr name \<Rightarrow>
          let path = dir @ ''/'' @ name in
          (case downloadBinary (ne_get n (ra_downloadUrl asset)) of
             (ps, Inl er) \<Rightarrow>
               ((broadcast (map msg ps) w)
                  \<lparr>w_binaries := (case ne_partial n of None \<Rightarrow> w_binaries w | Some c \<Rightarrow> AList.update path c (w_binaries w))\<rparr>, Inl er)
           | (ps, Inr content) \<Rightarrow>
               let w1 = (broadcast (map msg ps) w)\<lparr>w_binaries := AList.update path content (w_binaries w)\<rparr> in
               (w1, bindE (setExecutablePermissions (se_platform e = ''win32'') (ne_chmod n)) (\<lambda>_. Inr path)))
      | _ \<Rightarrow> (w, Inl TypeError))"

definition err_message :: "js_error \<Rightarrow> string" where
  "err_message er = (case er of Error m \<Rightarrow> m | SysError m \<Rightarrow> m | _ \<Rightarrow> [])"

text \<open>The last \<open>catch\<close> of the handlers that download; the text of the reply, which is Japanese, is shortened.\<close>

definition rate_limit_reply :: "string \<Rightarrow> js_error \<Rightarrow> world \<Rightarrow> world \<times> reply" where
  "rate_limit_reply text er w =
     (if str_includes (err_message er) ''rate limit'' then (broadcast [MsgRateLimitError] w, Fail 429 text)
      else (w, Crash er))"

text \<open>The first run of a new instance: it is started, given two seconds, and stopped. \<open>during\<close> is what
  happens in them.\<close>

definition initialize_instance ::
  "sup_env \<Rightarrow> (sup_env \<times> string \<times> child_event) list \<Rightarrow> string \<Rightarrow> FerrumProxyInstance \<Rightarrow> world \<Rightarrow> world" where
  "initialize_instance e during i x w =
     (case ensure_api e x w of
        (w1, Inl er) \<Rightarrow> w1
      | (w1, Inr y) \<Rightarrow>
          (case spawn e i y w1 of
             (w2, Inl er) \<Rightarrow> w2
           | (w2, Inr pid) \<Rightarrow>
               let w3 = foldl child_event w2 during in
               if isRunning i (w_pm w3) then stop_process (se_now e) False i (markIntentionalStop i w3) else w3))"

definition new_instance ::
  "string \<Rightarrow> string \<Rightarrow> create_request \<Rightarrow> FerrumProxyPlatform \<Rightarrow> string \<Rightarrow> string \<Rightarrow> int \<Rightarrow> string \<Rightarrow> ReleaseAsset \<Rightarrow> FerrumProxyInstance" where
  "new_instance i dir rq platform version path port tok asset =
     \<lparr>inst_id = i, inst_name = cr_name rq, inst_version = version, inst_platform = platform, binaryPath = path, dataDir = dir,
      configPath = dir @ ''/config.yml'', inst_pid = None, lastStarted = None, autoStart = Some False, autoRestart = Some False,
      managerPort = Some port, managerToken = Some tok, inst_metadata = None, sourceUrl = str_of (ra_downloadUrl asset)\<rparr>"

text \<open>From the asset to the entry in the store.\<close>

definition register_instance ::
  "sup_env \<Rightarrow> net_env \<Rightarrow> string \<Rightarrow> string \<Rightarrow> create_request \<Rightarrow> FerrumProxyPlatform \<Rightarrow> string \<Rightarrow> ReleaseAsset \<Rightarrow> world
     \<Rightarrow> world \<times> FerrumProxyInstance res" where
  "register_instance e n i dir rq platform version asset w =
     (case fetch_binary (MsgDownloadProgress i) e n (dir @ ''/data'') asset w of
        (w1, Inl er) \<Rightarrow> (w1, Inl er)
      | (w1, Inr path) \<Rightarrow>
          (case allocateManagerPort (env_start (se_api e)) (env_end (se_api e)) (env_bindable (se_api e)) i (w_sm w1) of
             Inl er \<Rightarrow> (w1, Inl er)
           | Inr port \<Rightarrow>
               let x = new_instance i dir rq platform version path port (env_token (se_api e)) asset in
               (case add (se_save e) (se_text e) x (w_sm w1) of
                  (s, Inl er) \<Rightarrow> (w1\<lparr>w_sm := s\<rparr>, Inl er)
                | (s, Inr _) \<Rightarrow> (w1\<lparr>w_sm := s\<rparr>, Inr x))))"

definition handle_create ::
  "sup_env \<Rightarrow> net_env \<Rightarrow> (sup_env \<times> string \<times> child_event) list \<Rightarrow> string \<Rightarrow> string \<Rightarrow> create_request \<Rightarrow> world \<Rightarrow> world \<times> reply" where
  "handle_create e n during appRoot i rq w =
     (case cr_platform rq of
        None \<Rightarrow> (w, Fail 400 ''Missing required fields: name, platform, version'')
      | Some platform \<Rightarrow>
          if cr_name rq = [] \<or> cr_version rq = [] then (w, Fail 400 ''Missing required fields: name, platform, version'')
          else
            let (w1, version) = requested_version False e n (cr_version rq) w;
                dir = appRoot @ ''/instances/'' @ i;
                text = ''GitHub API rate limit'' in
            (case ne_mkdir n of
               Some er \<Rightarrow> rate_limit_reply text er w1
             | None \<Rightarrow>
                 (case config_write (ne_write n) (dir @ ''/config.yml'') createDefaultConfig (w_disk w1) of
                    (d, Inl er) \<Rightarrow> rate_limit_reply text er (w1\<lparr>w_disk := d\<rparr>)
                  | (d, Inr _) \<Rightarrow>
                      (case latest_release False e n (w1\<lparr>w_disk := d\<rparr>) of
                         (w2, release) \<Rightarrow>
                           (case resolveAssetForPlatform release platform of
                              None \<Rightarrow> (w2, Fail 404 (''No asset for platform '' @ platform_name platform @ '' in release '' @ rel_version release))
                            | Some asset \<Rightarrow>
                                (case register_instance e n i dir rq platform version asset w2 of
                                   (w3, Inl er) \<Rightarrow> rate_limit_reply text er w3
                                 | (w3, Inr x) \<Rightarrow>
                                     (broadcast [MsgInstanceInitialized i] (initialize_instance e during i x
                                        (broadcast [MsgInstanceAdded x, MsgInstanceInitializing i] w3)), Instance x)))))))"

section \<open>Updating an instance\<close>

text \<open>The stop before an update: \<open>during\<close> is what happens while the handler waits, at most two seconds.\<close>

definition stop_for_update ::
  "sup_env \<Rightarrow> (sup_env \<times> string \<times> child_event) list \<Rightarrow> string \<Rightarrow> world \<Rightarrow> world \<times> unit res" where
  "stop_for_update e during i w =
     (if \<not> isRunning i (w_pm w) then (w, Inr ())
      else case set_pid e i None (stop_process (se_now e) True i (markIntentionalStop i w)) of
             (w1, Inl er) \<Rightarrow> (w1, Inl er)
           | (w1, Inr _) \<Rightarrow> (foldl child_event (unwatch_stopped i w1) during, Inr ()))"

text \<open>The object \<open>instance\<close> was read from the store before the stop; it is written back whole.\<close>

definition install_version ::
  "sup_env \<Rightarrow> net_env \<Rightarrow> string \<Rightarrow> FerrumProxyInstance \<Rightarrow> string \<Rightarrow> ReleaseAsset \<Rightarrow> world \<Rightarrow> world \<times> unit res" where
  "install_version e n i x version asset w =
     (case ra_name asset of
        JStr name \<Rightarrow>
          let w1 = w\<lparr>w_binaries := rm_file (ne_rm n) (binaryPath x) (w_binaries w)\<rparr> in
          (case fetch_binary (MsgUpdateProgress i) e n (dataDir x @ ''/data'') asset w1 of
             (w2, Inl er) \<Rightarrow> (w2, Inl er)
           | (w2, Inr path) \<Rightarrow>
               let y = x\<lparr>inst_version := version, binaryPath := path, sourceUrl := str_of (ra_downloadUrl asset)\<rparr> in
               (case update (se_save e) (se_text e) i [UAll y] (w_sm w2) of
                  (s, r) \<Rightarrow> (w2\<lparr>w_sm := s\<rparr>, r)))
      | _ \<Rightarrow> (w, Inl TypeError))"

definition handle_update ::
  "sup_env \<Rightarrow> net_env \<Rightarrow> (sup_env \<times> string \<times> child_event) list \<Rightarrow> string \<Rightarrow> string \<Rightarrow> bool \<Rightarrow> world \<Rightarrow> world \<times> reply" where
  "handle_update e n during i version forceReinstall w =
     (case getById i (w_sm w) of
        None \<Rightarrow> (w, Fail 404 ''Instance not found'')
      | Some x \<Rightarrow>
          (case stop_for_update e during i w of
             (w1, Inl er) \<Rightarrow> (w1, Fail 500 ''Failed to stop instance before update'')
           | (w1, Inr _) \<Rightarrow>
               let (w2, targetVersion) = requested_version True e n version w1 in
               if inst_version x = targetVersion \<and> \<not> forceReinstall then (w2, Fail 400 ''Instance is already on this version'')
               else (case latest_release True e n w2 of
                       (w3, release) \<Rightarrow>
                         (case resolveAssetForPlatform release (inst_platform x) of
                            None \<Rightarrow> (w3, Fail 404 (''No asset for platform '' @ platform_name (inst_platform x) @ '' in release '' @ targetVersion))
                          | Some asset \<Rightarrow>
                              (case install_version e n i x targetVersion asset w3 of
                                 (w4, Inl er) \<Rightarrow> rate_limit_reply ''GitHub API rate limit'' er w4
                               | (w4, Inr _) \<Rightarrow>
                                   (broadcast_instances (broadcast [MsgInstanceVersion i targetVersion] w4), UpdatedTo targetVersion))))))"

section \<open>Changing and reading instances\<close>

text \<open>The five fields of the body the handler reads.\<close>

record put_request =
  pr_name :: jsval
  pr_autoStart :: jsval
  pr_autoRestart :: jsval
  pr_managerPort :: jsval
  pr_managerToken :: jsval

definition port_int :: "jsval \<Rightarrow> int option" where
  "port_int v =
     (case v of
        JNum (Fin q) \<Rightarrow> if rat_is_int q \<and> 1 \<le> q \<and> q \<le> 65535 then Some \<lfloor>q\<rfloor> else None
      | _ \<Rightarrow> None)"

definition plain_updates :: "put_request \<Rightarrow> upd list" where
  "plain_updates rq =
     (case pr_name rq of JStr s \<Rightarrow> [UName (trim s)] | _ \<Rightarrow> []) @
     (case pr_autoStart rq of JBool b \<Rightarrow> [UAutoStart b] | _ \<Rightarrow> []) @
     (case pr_autoRestart rq of JBool b \<Rightarrow> [UAutoRestart b] | _ \<Rightarrow> [])"

text \<open>\<open>None\<close>: the field is left alone.\<close>

definition port_update :: "put_request \<Rightarrow> string + int option option" where
  "port_update rq =
     (case pr_managerPort rq of
        JNull \<Rightarrow> Inr (Some None)
      | JUndef \<Rightarrow> Inr None
      | v \<Rightarrow> (case port_int v of None \<Rightarrow> Inl ''managerPort must be a valid port number'' | Some p \<Rightarrow> Inr (Some (Some p))))"

definition token_update :: "string \<Rightarrow> put_request \<Rightarrow> string option" where
  "token_update fresh rq =
     (case pr_managerToken rq of
        JNull \<Rightarrow> Some fresh
      | JStr s \<Rightarrow> Some (if trim s = [] then fresh else trim s)
      | _ \<Rightarrow> None)"

text \<open>The updates of port and token, with those the handler adds so that both are set.\<close>

definition api_settings :: "sup_env \<Rightarrow> FerrumProxyInstance \<Rightarrow> int option option \<Rightarrow> string option \<Rightarrow> world \<Rightarrow> upd list res" where
  "api_settings e x port tok w =
     (let effToken = (case tok of Some t \<Rightarrow> Some t | None \<Rightarrow> managerToken x);
          effPort = (case port of Some p \<Rightarrow> p | None \<Rightarrow> managerPort x);
          given = (case port of Some p \<Rightarrow> [UManagerPort p] | None \<Rightarrow> []) @ (case tok of Some t \<Rightarrow> [UManagerToken t] | None \<Rightarrow> []);
          added = (if truthy_str effToken then [] else [UManagerToken (env_token (se_api e))]) in
      if truthy_num effPort then Inr (given @ added)
      else bindE (allocateManagerPort (env_start (se_api e)) (env_end (se_api e)) (env_bindable (se_api e)) (inst_id x) (w_sm w))
             (\<lambda>p. Inr (given @ added @ [UManagerPort (Some p)])))"

definition handle_put :: "sup_env \<Rightarrow> string \<Rightarrow> put_request \<Rightarrow> world \<Rightarrow> world \<times> reply" where
  "handle_put e i rq w =
     (case getById i (w_sm w) of
        None \<Rightarrow> (w, Fail 404 ''Instance not found'')
      | Some x \<Rightarrow>
          (case port_update rq of
             Inl msg \<Rightarrow> (w, Fail 400 msg)
           | Inr port \<Rightarrow>
               (case api_settings e x port (token_update (env_token (se_api e)) rq) w of
                  Inl er \<Rightarrow> (w, Crash er)
                | Inr us \<Rightarrow>
                    let updates = plain_updates rq @ us in
                    if updates = [] then (w, Fail 400 ''No valid fields to update'')
                    else (case update (se_save e) (se_text e) i updates (w_sm w) of
                            (s, Inl er) \<Rightarrow> (w\<lparr>w_sm := s\<rparr>, Crash er)
                          | (s, Inr _) \<Rightarrow>
                              (broadcast_instances (broadcast [MsgInstanceUpdated i updates] (w\<lparr>w_sm := s\<rparr>)),
                               case getById i s of Some y \<Rightarrow> Instance y | None \<Rightarrow> Success)))))"

definition handle_list :: "ms \<Rightarrow> request \<Rightarrow> AuthManager \<Rightarrow> world \<Rightarrow> AuthManager \<times> reply" where
  "handle_list now r a w =
     (let (a1, gui) = (if \<not> hasAuth (w_sm w) then (a, True) else requestHasValidGuiSession now (w_sm w) r a) in
      if gui then (a1, Instances (getAll (w_sm w)))
      else if \<not> requestHasAnyManagerBearer (w_sm w) r then (a1, Fail 401 ''Unauthorized'')
      else (a1, Redacted (map (\<lambda>x. (inst_id x, inst_name x, managerPort x)) (getAll (w_sm w)))))"

definition handle_get :: "string \<Rightarrow> world \<Rightarrow> reply" where
  "handle_get i w = (case getById i (w_sm w) of None \<Rightarrow> Fail 404 ''Instance not found'' | Some x \<Rightarrow> Instance x)"

text \<open>\<open>parseInt\<close> without a radix: a prefix \<open>0x\<close> makes it sixteen.\<close>

definition parseInt_auto :: "string \<Rightarrow> int option" where
  "parseInt_auto s =
     (let t = dropWhile is_ws s;
          u = (case t of c # r \<Rightarrow> if c = CHR ''-'' \<or> c = CHR ''+'' then r else t | [] \<Rightarrow> []);
          hs = takeWhile is_hex (drop 2 u) in
      if startsWith u ''0x'' \<or> startsWith u ''0X''
      then (if hs = [] then None
            else let v = foldl (\<lambda>a c. 16 * a + int (hex_val c)) 0 hs in Some (if startsWith t ''-'' then - v else v))
      else parseInt s)"

definition handle_logs :: "string option \<Rightarrow> string \<Rightarrow> world \<Rightarrow> reply" where
  "handle_logs limit i w =
     (let n = (case limit of None \<Rightarrow> Some 100 | Some s \<Rightarrow> if s = [] then Some 100 else parseInt_auto s);
          n1 = (case n of None \<Rightarrow> 100 | Some k \<Rightarrow> if k < 1 then 100 else k) in
      Logs (getLogs i (Some n1) (w_pm w)))"

definition handle_config :: "sup_env \<Rightarrow> string \<Rightarrow> world \<Rightarrow> reply" where
  "handle_config e i w =
     (case getById i (w_sm w) of
        None \<Rightarrow> Fail 404 ''Instance not found''
      | Some x \<Rightarrow> (case config_read (se_read e) (configPath x) (w_disk w) of Inl er \<Rightarrow> Crash er | Inr c \<Rightarrow> ConfigIs c))"

section \<open>Updating the GUI\<close>

text \<open>The callback of the update: everything is stopped on purpose. \<open>w1\<close> and \<open>w2\<close> are the waits of
  \<open>stopAllAndWait\<close>.\<close>

definition mark_running :: "world \<Rightarrow> world" where
  "mark_running w =
     foldl (\<lambda>v x. if isRunning (inst_id x) (w_pm v) then markIntentionalStop (inst_id x) v else v) w (getAll (w_sm w))"

definition stop_every :: "ms \<Rightarrow> bool \<Rightarrow> world \<Rightarrow> world" where
  "stop_every now force w = foldl (\<lambda>v i. stop_process now force i v) w (map fst (pm_processes (w_pm w)))"

definition stop_and_wait ::
  "ms \<Rightarrow> (sup_env \<times> string \<times> child_event) list \<Rightarrow> (sup_env \<times> string \<times> child_event) list \<Rightarrow> world \<Rightarrow> world \<times> unit res" where
  "stop_and_wait now d1 d2 w =
     (let v1 = foldl child_event (stop_every now False (w\<lparr>w_pm := (w_pm w)\<lparr>pm_startsBlocked := True\<rparr>\<rparr>)) d1;
          v2 = (if pm_processes (w_pm v1) \<noteq> [] then foldl child_event (stop_every now True v1) d2 else v1) in
      (v2, if pm_processes (w_pm v2) \<noteq> [] then Inl (Error ''Managed processes did not stop before GUI update'') else Inr ()))"

definition before_install ::
  "sup_env \<Rightarrow> (sup_env \<times> string \<times> child_event) list \<Rightarrow> (sup_env \<times> string \<times> child_event) list \<Rightarrow> world \<Rightarrow> world \<times> unit res" where
  "before_install e d1 d2 w =
     (case stop_and_wait (se_now e) d1 d2 (mark_running w) of
        (v, Inl er) \<Rightarrow> (v, Inl er)
      | (v, Inr _) \<Rightarrow>
          (case save (se_save e) (se_text e) (w_sm v) of
             (s, r) \<Rightarrow> (v\<lparr>w_watch := unwatchAll (w_watch v), w_sm := s\<rparr>, r)))"

definition resume :: "world \<Rightarrow> world" where
  "resume w = w\<lparr>w_updating := False, w_pm := resumeStarts (w_pm w)\<rparr>"

datatype self_reply = UpdateStarted string GuiUpdateRestart | UpdateFailed nat SelfUpdateResult | UpdateCrashed js_error

definition handle_self_update ::
  "update_env \<Rightarrow> sup_env \<Rightarrow> (sup_env \<times> string \<times> child_event) list \<Rightarrow> (sup_env \<times> string \<times> child_event) list \<Rightarrow> files \<Rightarrow> world
     \<Rightarrow> world \<times> files \<times> self_reply" where
  "handle_self_update u e d1 d2 fs w =
     (if \<not> isSelfUpdateSupported (su_compiled u) (su_version u)
      then (w, fs, UpdateFailed 400 (Refused ''Self-update is only available on compiled binaries (dev mode is unsupported)''))
      else case performGuiSelfUpdate u (before_install e d1 d2) (w\<lparr>w_updating := True\<rparr>) fs of
             (w1, fs1, Inl er) \<Rightarrow> (resume w1, fs1, UpdateCrashed er)
           | (w1, fs1, Inr (Updated version r)) \<Rightarrow> (broadcast [MsgGuiUpdateReady version] w1, fs1, UpdateStarted version r)
           | (w1, fs1, Inr r) \<Rightarrow> (resume w1, fs1, UpdateFailed 500 r))"

text \<open>The callback that restarts the GUI: the exit code, or the server goes on.\<close>

definition restart_gui ::
  "unit res \<Rightarrow> js_error option \<Rightarrow> string \<Rightarrow> GuiUpdateRestart \<Rightarrow> files \<Rightarrow> world \<Rightarrow> world \<times> files \<times> nat option" where
  "restart_gui systemctl fault target r fs w =
     (case r of
        RestartExit \<Rightarrow> (w, fs, Some 0)
      | RestartSystemd plan \<Rightarrow>
          (case restart_systemd systemctl fault target plan fs of
             (fs1, Inr code) \<Rightarrow> (w, fs1, Some code)
           | (fs1, Inl er) \<Rightarrow> (resume w, fs1, None)))"

section \<open>Starting and ending the server\<close>

fun ensure_all :: "(string \<Rightarrow> sup_env) \<Rightarrow> FerrumProxyInstance list \<Rightarrow> world \<Rightarrow> world \<times> unit res" where
  "ensure_all env [] w = (w, Inr ())"
| "ensure_all env (x # xs) w =
     (case ensure_api (env (inst_id x)) x w of
        (w1, Inl er) \<Rightarrow> (w1, Inl er)
      | (w1, Inr _) \<Rightarrow> ensure_all env xs w1)"

fun clear_stale :: "(string \<Rightarrow> sup_env) \<Rightarrow> (int \<Rightarrow> bool) \<Rightarrow> FerrumProxyInstance list \<Rightarrow> world \<Rightarrow> world \<times> unit res" where
  "clear_stale env alive [] w = (w, Inr ())"
| "clear_stale env alive (x # xs) w =
     (if truthy_num (inst_pid x) \<and> \<not> alive (the (inst_pid x))
      then (case set_pid (env (inst_id x)) (inst_id x) None w of
              (w1, Inl er) \<Rightarrow> (w1, Inl er)
            | (w1, Inr _) \<Rightarrow> clear_stale env alive xs w1)
      else clear_stale env alive xs w)"

definition auto_start :: "(string \<Rightarrow> sup_env) \<Rightarrow> world \<Rightarrow> FerrumProxyInstance \<Rightarrow> world" where
  "auto_start env w x =
     (let i = inst_id x in
      if autoStart x = Some True \<and> \<not> isRunning i (w_pm w) \<and> map_of (w_binaries w) (binaryPath x) \<noteq> None
      then (case run_instance (env i) i x w of
              (w1, Inl er) \<Rightarrow> w1
            | (w1, Inr pid) \<Rightarrow> broadcast_instances (broadcast [MsgInstanceStarted i pid] w1))
      else w)"

text \<open>The start of the server; an error ends the process. The list of instances is read once the manager
  settings are in place, and the array the store keeps is walked while its entries change.\<close>

definition init_server ::
  "js_error option \<Rightarrow> (string \<Rightarrow> sup_env) \<Rightarrow> (int \<Rightarrow> bool) \<Rightarrow> sup_env \<Rightarrow> world \<Rightarrow> world \<times> unit res" where
  "init_server rd env alive e w =
     (case load rd (se_save e) (se_text e) (w_sm w) of
        (s, Inl er) \<Rightarrow> (w\<lparr>w_sm := s\<rparr>, Inl er)
      | (s, Inr _) \<Rightarrow>
          (case ensure_all env (getAll s) (w\<lparr>w_sm := s\<rparr>) of
             (w1, Inl er) \<Rightarrow> (w1, Inl er)
           | (w1, Inr _) \<Rightarrow>
               (case clear_stale env alive (getAll (w_sm w1)) w1 of
                  (w2, Inl er) \<Rightarrow> (w2, Inl er)
                | (w2, Inr _) \<Rightarrow> (foldl (auto_start env) w2 (getAll (w_sm w2)), Inr ()))))"

definition shutdown :: "sup_env \<Rightarrow> world \<Rightarrow> world" where
  "shutdown e w =
     (let w1 = w\<lparr>w_pm := stopAll (se_now e) (w_pm w), w_watch := unwatchAll (w_watch w)\<rparr> in
      w1\<lparr>w_sm := fst (save (se_save e) (se_text e) (w_sm w1))\<rparr>)"

end
