(* ===== verification/Supervision.thy ===== *)
theory Supervision
  imports Supervisor
begin

text \<open>
  Runs of the server of \<open>Supervisor\<close>: every handler, timer and child event is a step, and steps
  come in any order. The locale \<open>world_inv\<close> states what an invariant of the server must stand; its
  lemmas show that it then stands every step. It is interpreted for the consistency of the parts with
  each other and for the mark of an intentional stop.
\<close>

section \<open>Steps\<close>

type_synonym waits = "(sup_env \<times> string \<times> child_event) list"

datatype sup_event =
    EvStart sup_env string
  | EvStop sup_env string
  | EvRestart sup_env waits string
  | EvDelete sup_env "js_error option" string
  | EvCreate sup_env net_env waits string string create_request
  | EvUpdate sup_env net_env waits string string bool
  | EvPut sup_env string put_request
  | EvChild sup_env string child_event
  | EvTimer sup_env nat
  | EvSelfUpdate update_env sup_env waits waits files
  | EvRestartGui "unit res" "js_error option" string GuiUpdateRestart files

fun sup_step :: "world \<Rightarrow> sup_event \<Rightarrow> world" where
  "sup_step w (EvStart e i) = fst (handle_start e i w)"
| "sup_step w (EvStop e i) = fst (handle_stop e i w)"
| "sup_step w (EvRestart e d i) = fst (handle_restart e d i w)"
| "sup_step w (EvDelete e rm i) = fst (handle_delete e rm i w)"
| "sup_step w (EvCreate e n d appRoot i rq) = fst (handle_create e n d appRoot i rq w)"
| "sup_step w (EvUpdate e n d i v f) = fst (handle_update e n d i v f w)"
| "sup_step w (EvPut e i rq) = fst (handle_put e i rq w)"
| "sup_step w (EvChild e i ev) = child_event w (e, i, ev)"
| "sup_step w (EvTimer e k) = fire_timer e k w"
| "sup_step w (EvSelfUpdate u e d1 d2 fs) = fst (handle_self_update u e d1 d2 fs w)"
| "sup_step w (EvRestartGui ctl fault t r fs) = fst (restart_gui ctl fault t r fs w)"

text \<open>The exits among the child events of a step all satisfy a condition.\<close>

fun exit_ok :: "(string \<Rightarrow> bool) \<Rightarrow> sup_env \<times> string \<times> child_event \<Rightarrow> bool" where
  "exit_ok P (e, i, ChildExit c s) = P i" | "exit_ok P _ = True"

fun exits_ok :: "(string \<Rightarrow> bool) \<Rightarrow> sup_event \<Rightarrow> bool" where
  "exits_ok P (EvRestart e d i) = list_all (exit_ok P) d"
| "exits_ok P (EvCreate e n d appRoot i rq) = list_all (exit_ok P) d"
| "exits_ok P (EvUpdate e n d i v f) = list_all (exit_ok P) d"
| "exits_ok P (EvChild e i ev) = exit_ok P (e, i, ev)"
| "exits_ok P (EvSelfUpdate u e d1 d2 fs) = (list_all (exit_ok P) d1 \<and> list_all (exit_ok P) d2)"
| "exits_ok P _ = True"

section \<open>What the parts keep\<close>

text \<open>The instances of the store only grow, except for a removal.\<close>

definition ids_kept :: "ServiceManager \<Rightarrow> ServiceManager \<Rightarrow> bool" where
  "ids_kept s s' \<longleftrightarrow> (\<forall>i. getById i s \<noteq> None \<longrightarrow> getById i s' \<noteq> None)"

lemma update_kept:
  assumes "\<And>x. getById i s = Some x \<Longrightarrow> inst_id (apply_upds us x) = inst_id x"
  shows "ids_kept s (fst (update io now i us s))"
  using getById_update [where us = us and io = io and now = now and i = i and s = s, OF assms] by (simp add: ids_kept_def)

lemma update_ok:
  assumes "\<And>x. getById i s = Some x \<Longrightarrow> inst_id (apply_upds us x) = inst_id x"
    and "update io now i us s = (s', Inr u)"
  shows "getById i s' \<noteq> None"
proof -
  have "findIndex (\<lambda>x. inst_id x = i) (getAll s) \<noteq> None" using assms(2) by (auto simp: update_def split: option.splits)
  then have "getById i s \<noteq> None" using findIndex_None [of "\<lambda>x. inst_id x = i" "getAll s"] by (simp add: getById_def)
  then show ?thesis using getById_update [where us = us and io = io and now = now and j = i and i = i and s = s, OF assms(1)] assms(2) by simp
qed

text \<open>Updates of single fields leave the id alone.\<close>

fun field_update :: "upd \<Rightarrow> bool" where
  "field_update (UAll x) = False" | "field_update _ = True"

lemma field_updates_id: "list_all field_update us \<Longrightarrow> inst_id (apply_upds us y) = inst_id y"
proof (induction us arbitrary: y)
  case (Cons u us)
  then show ?case by (cases u) (simp_all add: apply_upds_def)
qed (simp add: apply_upds_def)

lemma plain_updates_fields: "list_all field_update (plain_updates rq)"
  by (simp add: plain_updates_def split: jsval.split)

lemma api_settings_fields: "api_settings e x port tok w = Inr us \<Longrightarrow> list_all field_update us"
  unfolding api_settings_def Let_def bindE_def
  by (cases port; cases tok) (auto split: if_splits sum.splits)

lemma setPid_kept: "ids_kept s (fst (setPid io now i p s))"
  unfolding setPid_def by (rule update_kept) (simp add: apply_upds_def)

lemma setPid_ok: "setPid io now i p s = (s', Inr u) \<Longrightarrow> getById i s' \<noteq> None"
  unfolding setPid_def by (rule update_ok) (auto simp: apply_upds_def)

lemma api_updates_id: "api_updates env x s = Inr us \<Longrightarrow> inst_id (apply_upds us y) = inst_id y"
  by (auto simp: api_updates_def bindE_def apply_upds_def Let_def split: if_splits sum.splits)

lemma ensureManagerApi_kept: "ids_kept s (fst (ensureManagerApi env x s))"
proof -
  have "ids_kept s s" by (simp add: ids_kept_def)
  moreover have "ids_kept s (fst (update io now (inst_id x) us s))" if "api_updates env x s = Inr us" for io now us
    by (rule update_kept) (rule api_updates_id [OF that])
  ultimately show ?thesis
    by (cases "api_updates env x s") (simp_all add: ensureManagerApi_def case_prod_beta split: sum.split)
qed

lemma add_kept: "ids_kept s (fst (add io now x s))"
  by (auto simp: ids_kept_def add_def getById_def find_None_iff)

lemma find_take_drop:
  assumes "\<not> P (xs ! k)" and "find P xs \<noteq> None"
  shows "find P (take k xs @ drop (Suc k) xs) \<noteq> None"
proof -
  obtain n where n: "n < length xs" "P (xs ! n)" using assms(2) unfolding find_None_iff by (metis in_set_conv_nth)
  have "n < k \<or> k < n" using n(2) assms(1) by (metis linorder_neqE_nat)
  then have "xs ! n \<in> set (take k xs) \<union> set (drop (Suc k) xs)"
  proof
    assume "n < k"
    then show ?thesis using n(1) by (auto simp: in_set_conv_nth)
  next
    assume "k < n"
    then have "drop (Suc k) xs ! (n - Suc k) = xs ! n" "n - Suc k < length (drop (Suc k) xs)" using n(1) by simp_all
    then show ?thesis by (metis UnI2 nth_mem)
  qed
  then show ?thesis using n(2) unfolding find_None_iff by auto
qed

lemma remove_other:
  assumes "j \<noteq> i" and "getById j s \<noteq> None"
  shows "getById j (fst (Services.remove io now i s)) \<noteq> None"
proof (cases "findIndex (\<lambda>x. inst_id x = i) (getAll s)")
  case None
  then show ?thesis using assms by (simp add: remove_def)
next
  case (Some k)
  then have "inst_id (getAll s ! k) \<noteq> j" using findIndex_Some [OF Some] assms(1) by auto
  then show ?thesis using find_take_drop [of "\<lambda>x. inst_id x = j" "getAll s" k] assms(2) Some
    by (simp add: remove_def getById_def)
qed

lemma start_blocked: "pm_startsBlocked (fst (start now win pid i opts st)) = pm_startsBlocked st"
  unfolding fst_start spawned_def by (simp add: log_fields emit_def)

lemma perform_world:
  assumes "performGuiSelfUpdate u before w fs = (w', fs', r)"
  shows "w' = w \<or> w' = fst (before w)"
  using assms
proof (cases rule: perform_cases)
  case (go version url sz d cs)
  obtain w1 fs2 x where i: "startGuiUpdateInstaller (su_installer u) before (su_target u) w
      (fst (transfer u sz d cs (rm_file (su_rm1 u) (new_path u) fs))) = (w1, fs2, x)" by (metis prod_cases3)
  then show ?thesis using go(5) start_installer_before [OF i] by (auto simp: install_update_def split: sum.splits)
qed auto

section \<open>What an invariant must stand\<close>

locale world_inv =
  fixes I :: "world \<Rightarrow> bool" and allowed :: "string \<Rightarrow> bool"
  assumes keep_msgs: "I w \<Longrightarrow> I (w\<lparr>w_msgs := ms\<rparr>)"
    and keep_sm: "I w \<Longrightarrow> ids_kept (w_sm w) s \<Longrightarrow> I (w\<lparr>w_sm := s\<rparr>)"
    and keep_pm: "I w \<Longrightarrow> (pm_startsBlocked pm \<Longrightarrow> pm_startsBlocked (w_pm w) \<or> w_updating w) \<Longrightarrow> I (w\<lparr>w_pm := pm\<rparr>)"
    and keep_watch: "I w \<Longrightarrow> getById i (w_sm w) \<noteq> None \<Longrightarrow> I (w\<lparr>w_watch := fst (watch io i p (w_watch w))\<rparr>)"
    and keep_unwatch: "I w \<Longrightarrow> I (w\<lparr>w_watch := unwatch i (w_watch w)\<rparr>)"
    and keep_mark: "I w \<Longrightarrow> I (markIntentionalStop i w)"
    and keep_consume: "I w \<Longrightarrow> allowed i \<Longrightarrow> I (w\<lparr>w_intentional := removeAll i (w_intentional w)\<rparr>)"
    and keep_schedule: "I w \<Longrightarrow> allowed i \<Longrightarrow> I (schedule_restart now i w)"
    and keep_forget: "I w \<Longrightarrow> I (w\<lparr>w_attempts := AList.delete i (w_attempts w)\<rparr>)"
    and keep_timers: "I w \<Longrightarrow> set ts \<subseteq> set (w_timers w) \<Longrightarrow> I (w\<lparr>w_timers := ts\<rparr>)"
    and keep_disk: "I w \<Longrightarrow> I (w\<lparr>w_disk := d\<rparr>)"
    and keep_binaries: "I w \<Longrightarrow> I (w\<lparr>w_binaries := b\<rparr>)"
    and keep_cache: "I w \<Longrightarrow> I (w\<lparr>w_cache := c\<rparr>)"
    and keep_remove: "I w \<Longrightarrow> map_of (w_watchers (w_watch w)) i = None \<Longrightarrow>
      I (w\<lparr>w_sm := fst (Services.remove io tx i (w_sm w))\<rparr>)"
    and keep_updating: "I w \<Longrightarrow> I (w\<lparr>w_updating := True\<rparr>)"
    and keep_resume: "I w \<Longrightarrow> I (resume w)"
begin

lemma keep_broadcast: "I w \<Longrightarrow> I (broadcast ms w)"
  by (simp add: broadcast_def keep_msgs)

lemma keep_broadcast_instances: "I w \<Longrightarrow> I (broadcast_instances w)"
  by (simp add: broadcast_instances_def keep_broadcast)

lemma keep_ensure_api: "I w \<Longrightarrow> I (fst (ensure_api e x w))"
  using ensureManagerApi_kept [of "w_sm w" "se_api e" x]
  by (auto simp: ensure_api_def case_prod_beta intro!: keep_broadcast keep_sm)

lemma keep_set_pid: "I w \<Longrightarrow> I (fst (set_pid e i p w))"
  using setPid_kept [of "w_sm w"] by (simp add: set_pid_def case_prod_beta keep_sm)

lemma keep_spawn: "I w \<Longrightarrow> I (fst (spawn e i y w))"
  by (auto simp: spawn_def case_prod_beta start_blocked intro!: keep_pm)

lemma keep_stop_process: "I w \<Longrightarrow> I (stop_process now f i w)"
  by (auto simp: stop_process_def stop_fields intro!: keep_pm)

lemma keep_run_instance: "I w \<Longrightarrow> I (fst (run_instance e i x w))"
proof -
  assume w: "I w"
  obtain w1 r1 where 1: "ensure_api e x w = (w1, r1)" by fastforce
  obtain w2 r2 where 2: "spawn e i (projr r1) w1 = (w2, r2)" by fastforce
  obtain w3 r3 where 3: "set_pid e i (Some (projr r2)) w2 = (w3, r3)" by fastforce
  have I1: "I w1" using keep_ensure_api [OF w, of e x] 1 by simp
  have I2: "I w2" using keep_spawn [OF I1, of e i "projr r1"] 2 by simp
  have I3: "I w3" using keep_set_pid [OF I2, of e i "Some (projr r2)"] 3 by simp
  have "r3 = Inr () \<Longrightarrow> getById i (w_sm w3) \<noteq> None"
    using 3 setPid_ok [of "se_save e" "se_text e" i "Some (projr r2)" "w_sm w2" "w_sm w3" "()"]
    by (auto simp: set_pid_def split: prod.splits)
  then have "r3 = Inr () \<Longrightarrow> I (w3\<lparr>w_watch := fst (watch (se_watch e) i (configPath (projr r1)) (w_watch w3))\<rparr>)"
    using keep_watch [OF I3] by simp
  then show ?thesis using I1 I2 I3 1 2 3
    by (cases r1; cases r2; cases r3) (auto simp: run_instance_def split: prod.splits sum.splits)
qed

lemma keep_exit_listener: "I w \<Longrightarrow> allowed i \<Longrightarrow> I (exit_listener e i code sig w)"
proof -
  assume w: "I w" and a: "allowed i"
  obtain w1 r where 1: "(if getById i (w_sm w) = None then (w, Inr ()) else set_pid e i None w) = (w1, r)" by fastforce
  then have I1: "I w1" using w keep_set_pid [OF w, of e i None] by (auto split: if_splits)
  then have I2: "I (broadcast_instances (broadcast [MsgProcessExit i code sig] w1))"
    by (simp add: keep_broadcast keep_broadcast_instances)
  then show ?thesis using I1 keep_consume [OF I2 a] keep_schedule [OF I2 a]
    by (simp add: exit_listener_def 1 Let_def split: sum.split option.split)
qed

lemma keep_child: "I w \<Longrightarrow> exit_ok allowed ev \<Longrightarrow> I (child_event w ev)"
proof -
  assume w: "I w" and a: "exit_ok allowed ev"
  obtain e i c where ev: "ev = (e, i, c)" by (cases ev) auto
  have "I (w\<lparr>w_pm := child_step (w_pm w) (se_now e, i, c)\<rparr>)"
    by (rule keep_pm [OF w]) (simp add: child_step_fields)
  then show ?thesis using a by (cases c) (simp_all add: ev keep_broadcast keep_exit_listener)
qed

lemma keep_children: "I w \<Longrightarrow> list_all (exit_ok allowed) evs \<Longrightarrow> I (foldl child_event w evs)"
  by (induction evs arbitrary: w) (simp_all add: keep_child)

lemma keep_restart_timer: "I w \<Longrightarrow> I (restart_timer e i w)"
proof -
  assume w: "I w"
  have "I (fst (run_instance e i x w))" for x by (rule keep_run_instance [OF w])
  then show ?thesis using w
    by (auto simp: restart_timer_def keep_forget case_prod_beta keep_broadcast keep_broadcast_instances split: option.split sum.split)
qed

lemma keep_fire_timer: "I w \<Longrightarrow> I (fire_timer e k w)"
proof -
  assume w: "I w"
  have "set (take k (w_timers w) @ drop (Suc k) (w_timers w)) \<subseteq> set (w_timers w)"
    using set_take_subset [of k "w_timers w"] set_drop_subset [of "Suc k" "w_timers w"] by auto
  then show ?thesis using keep_timers [OF w] w by (simp add: fire_timer_def keep_restart_timer)
qed

lemma keep_start: "I w \<Longrightarrow> I (fst (handle_start e i w))"
  using keep_run_instance [of w e i]
  by (auto simp: handle_start_def case_prod_beta keep_broadcast keep_broadcast_instances split: option.split sum.split)

lemma keep_marked_stop: "I w \<Longrightarrow> I (stop_process now f i (markIntentionalStop i w))"
  by (rule keep_stop_process) (rule keep_mark)

lemma keep_unwatch_stopped: "I w \<Longrightarrow> I (unwatch_stopped i w)"
  by (simp add: unwatch_stopped_def keep_unwatch keep_broadcast keep_broadcast_instances)

lemma keep_stop: "I w \<Longrightarrow> I (fst (handle_stop e i w))"
  using keep_set_pid [OF keep_marked_stop [of w "se_now e" False i], of e i None]
  by (auto simp: handle_stop_def case_prod_beta keep_unwatch_stopped split: sum.split)

lemma keep_restart: "I w \<Longrightarrow> list_all (exit_ok allowed) d \<Longrightarrow> I (fst (handle_restart e d i w))"
proof -
  assume w: "I w" and d: "list_all (exit_ok allowed) d"
  show ?thesis
  proof (cases "getById i (w_sm w)")
    case (Some x)
    obtain w1 r1 where 1: "ensure_api e x w = (w1, r1)" by fastforce
    have I1: "I w1" using keep_ensure_api [OF w, of e x] 1 by simp
    define w2 where "w2 = stop_for_restart e d i w1"
    have I2: "I w2" using I1 keep_children [OF keep_marked_stop [OF I1] d] by (simp add: w2_def stop_for_restart_def)
    have I3: "I (w2\<lparr>w_pm := fst (start now win pid i opts (w_pm w2))\<rparr>)" for now win pid opts
      by (rule keep_pm [OF I2]) (simp add: start_blocked)
    show ?thesis using Some I1 I3 keep_set_pid [OF I3] unfolding handle_restart_def
      by (cases r1) (simp_all add: 1 w2_def [symmetric] Let_def case_prod_beta keep_broadcast keep_broadcast_instances
          del: fun_upd_apply split: sum.split)
  qed (simp add: handle_restart_def w)
qed

lemma keep_delete: "I w \<Longrightarrow> I (fst (handle_delete e rm i w))"
proof -
  assume w: "I w"
  define w2 where "w2 = (let w1 = (if isRunning i (w_pm w) then stop_process (se_now e) True i (markIntentionalStop i w) else w) in
     w1\<lparr>w_watch := unwatch i (w_watch w1)\<rparr>)"
  have I2: "I w2" using w keep_marked_stop [OF w] by (simp add: w2_def Let_def keep_unwatch)
  have "map_of (w_watchers (w_watch w2)) i = None"
    by (auto simp: w2_def Let_def unwatch_def delete_conv' split: option.split)
  then have I3: "I (w2\<lparr>w_sm := fst (Services.remove (se_save e) (se_text e) i (w_sm w2))\<rparr>)" by (rule keep_remove [OF I2])
  show ?thesis
  proof (cases "getById i (w_sm w)")
    case (Some x)
    let ?w3 = "w2\<lparr>w_sm := fst (Services.remove (se_save e) (se_text e) i (w_sm w2))\<rparr>"
    have "I (broadcast ms (?w3\<lparr>w_disk := d, w_binaries := b\<rparr>))" "I (broadcast ms ?w3)" for ms d b
      by (intro keep_broadcast keep_binaries keep_disk I3)+
    then show ?thesis using Some I3 unfolding handle_delete_def Let_def w2_def [unfolded Let_def, symmetric]
      by (simp add: case_prod_beta split: sum.split if_split)
  qed (simp add: handle_delete_def w)
qed

lemma keep_latest: "I w \<Longrightarrow> I (fst (latest_release f e n w))"
  by (simp add: latest_release_def case_prod_beta keep_cache)

lemma keep_requested: "I w \<Longrightarrow> I (fst (requested_version f e n v w))"
  by (simp add: requested_version_def case_prod_beta keep_latest)

lemma keep_fetch_binary: "I w \<Longrightarrow> I (fst (fetch_binary msg e n dir asset w))"
  by (auto simp: fetch_binary_def Let_def keep_binaries keep_broadcast split: jsval.split prod.split sum.split)

lemma keep_rate_limit: "I w \<Longrightarrow> I (fst (rate_limit_reply t er w))"
  by (simp add: rate_limit_reply_def keep_broadcast)

lemma keep_initialize: "I w \<Longrightarrow> list_all (exit_ok allowed) d \<Longrightarrow> I (initialize_instance e d i x w)"
proof -
  assume w: "I w" and d: "list_all (exit_ok allowed) d"
  obtain w1 r1 where 1: "ensure_api e x w = (w1, r1)" by fastforce
  obtain w2 r2 where 2: "spawn e i (projr r1) w1 = (w2, r2)" by fastforce
  have I1: "I w1" using keep_ensure_api [OF w, of e x] 1 by simp
  have I2: "I w2" using keep_spawn [OF I1, of e i "projr r1"] 2 by simp
  note I3 = keep_children [OF I2 d]
  show ?thesis using I1 I2 I3 keep_marked_stop [OF I3] 1 2
    by (cases r1; cases r2) (simp_all add: initialize_instance_def Let_def)
qed

lemma keep_register: "I w \<Longrightarrow> I (fst (register_instance e n i dir rq platform version asset w))"
proof -
  assume w: "I w"
  obtain w1 r1 where 1: "fetch_binary (MsgDownloadProgress i) e n (dir @ ''/data'') asset w = (w1, r1)" by fastforce
  have I1: "I w1" using keep_fetch_binary [OF w, of "MsgDownloadProgress i" e n "dir @ ''/data''" asset] 1 by simp
  have "I (w1\<lparr>w_sm := fst (add io now x (w_sm w1))\<rparr>)" for io now x by (rule keep_sm [OF I1 add_kept])
  then show ?thesis using I1 unfolding register_instance_def 1
    by (simp add: Let_def case_prod_beta split: sum.split)
qed

lemma keep_create: "I w \<Longrightarrow> list_all (exit_ok allowed) d \<Longrightarrow> I (fst (handle_create e n d appRoot i rq w))"
proof -
  assume w: "I w" and d: "list_all (exit_ok allowed) d"
  define v where "v = requested_version False e n (cr_version rq) w"
  have I1: "I (fst v)" by (simp add: v_def keep_requested w)
  let ?lr = "\<lambda>x. latest_release False e n ((fst v)\<lparr>w_disk := x\<rparr>)"
  have I2: "I (fst (?lr x))" for x by (rule keep_latest) (rule keep_disk [OF I1])
  have I3: "I (fst (register_instance e n i dir rq pl ver asset (fst (?lr x))))" for dir pl ver asset x
    by (rule keep_register [OF I2])
  have I4: "I (broadcast ms (initialize_instance e d i y (broadcast ms' (fst (register_instance e n i dir rq pl ver asset (fst (?lr x)))))))"
    for ms ms' y dir pl ver asset x
    by (intro keep_broadcast keep_initialize d) (simp_all add: keep_broadcast I3)
  note parts = I1 I2 I3 I4 keep_disk [OF I1]
  show ?thesis unfolding handle_create_def v_def [symmetric] Let_def
    by (auto simp: case_prod_beta w parts keep_rate_limit split: option.split sum.split)
qed

lemma keep_install_version:
  assumes w: "I w" and x: "inst_id x = i"
  shows "I (fst (install_version e n i x version asset w))"
proof -
  let ?w1 = "w\<lparr>w_binaries := rm_file (ne_rm n) (binaryPath x) (w_binaries w)\<rparr>"
  obtain w2 r2 where 2: "fetch_binary (MsgUpdateProgress i) e n (dataDir x @ ''/data'') asset ?w1 = (w2, r2)" by fastforce
  have I2: "I w2" using keep_fetch_binary [OF keep_binaries [OF w], of "MsgUpdateProgress i" e n "dataDir x @ ''/data''" asset] 2 by (metis fst_conv)
  have "ids_kept s (fst (update io now i [UAll y] s))" if "inst_id y = i" for io now y s
    using that getById_id [of i s] by (intro update_kept) (simp add: apply_upds_def)
  then have "I (w2\<lparr>w_sm := fst (update io now i [UAll (x\<lparr>inst_version := v, binaryPath := p, sourceUrl := u\<rparr>)] (w_sm w2))\<rparr>)" for io now v p u
    using x by (intro keep_sm [OF I2]) simp
  then show ?thesis using I2 w unfolding install_version_def Let_def
    by (cases "ra_name asset") (simp_all add: 2 case_prod_beta split: sum.split)
qed

lemma keep_stop_for_update: "I w \<Longrightarrow> list_all (exit_ok allowed) d \<Longrightarrow> I (fst (stop_for_update e d i w))"
proof -
  assume w: "I w" and d: "list_all (exit_ok allowed) d"
  note I1 = keep_set_pid [OF keep_marked_stop [OF w], of e i None "se_now e" True]
  show ?thesis using w I1 keep_children [OF keep_unwatch_stopped [OF I1] d]
    by (simp add: stop_for_update_def case_prod_beta split: sum.split)
qed

lemma keep_update: "I w \<Longrightarrow> list_all (exit_ok allowed) d \<Longrightarrow> I (fst (handle_update e n d i v f w))"
proof -
  assume w: "I w" and d: "list_all (exit_ok allowed) d"
  obtain w1 r1 where 1: "stop_for_update e d i w = (w1, r1)" by fastforce
  have I1: "I w1" using keep_stop_for_update [OF w d, of e i] 1 by simp
  obtain w2 tv where 2: "requested_version True e n v w1 = (w2, tv)" by fastforce
  have I2: "I w2" using keep_requested [OF I1, of True e n v] 2 by simp
  obtain w3 rel where 3: "latest_release True e n w2 = (w3, rel)" by fastforce
  have I3: "I w3" using keep_latest [OF I2, of True e n] 3 by simp
  show ?thesis
  proof (cases "getById i (w_sm w)")
    case (Some x)
    have I4: "I (fst (install_version e n i x tv asset w3))" for asset
      by (rule keep_install_version [OF I3 getById_id [OF Some]])
    show ?thesis using I1 I2 I3 I4 unfolding handle_update_def
      by (simp add: Some 1 2 3 case_prod_beta keep_rate_limit keep_broadcast keep_broadcast_instances split: sum.split option.split)
  qed (simp add: handle_update_def w)
qed

lemma keep_put: "I w \<Longrightarrow> I (fst (handle_put e i rq w))"
proof -
  assume w: "I w"
  have "inst_id (apply_upds (plain_updates rq @ us) y) = inst_id y" if "api_settings e x port tok w = Inr us" for x port tok us y
    using field_updates_id [of "plain_updates rq @ us"] plain_updates_fields api_settings_fields [OF that] by simp
  then have "I (w\<lparr>w_sm := fst (update (se_save e) (se_text e) i (plain_updates rq @ us) (w_sm w))\<rparr>)"
    if "api_settings e x port tok w = Inr us" for x port tok us
    using that by (intro keep_sm [OF w] update_kept) blast
  then show ?thesis using w unfolding handle_put_def Let_def
    by (simp add: case_prod_beta keep_broadcast keep_broadcast_instances split: option.split sum.split)
qed

lemma keep_mark_running: "I w \<Longrightarrow> I (mark_running w) \<and> w_updating (mark_running w) = w_updating w"
proof -
  have "I v \<Longrightarrow> I (foldl (\<lambda>v x. if isRunning (inst_id x) (w_pm v) then markIntentionalStop (inst_id x) v else v) v xs) \<and>
    w_updating (foldl (\<lambda>v x. if isRunning (inst_id x) (w_pm v) then markIntentionalStop (inst_id x) v else v) v xs) = w_updating v" for v xs
    by (induction xs arbitrary: v) (simp_all add: keep_mark, simp add: markIntentionalStop_def)
  then show "I w \<Longrightarrow> ?thesis" by (simp add: mark_running_def)
qed

lemma keep_stop_every: "I w \<Longrightarrow> I (stop_every now f w)"
proof -
  have "I v \<Longrightarrow> I (foldl (\<lambda>v i. stop_process now f i v) v xs)" for v xs
    by (induction xs arbitrary: v) (simp_all add: keep_stop_process)
  then show "I w \<Longrightarrow> ?thesis" by (simp add: stop_every_def)
qed

lemma keep_stop_and_wait:
  assumes "I w" and "w_updating w" and d: "list_all (exit_ok allowed) d1" "list_all (exit_ok allowed) d2"
  shows "I (fst (stop_and_wait now d1 d2 w))"
proof -
  have "I (w\<lparr>w_pm := (w_pm w)\<lparr>pm_startsBlocked := True\<rparr>\<rparr>)" by (rule keep_pm) (use assms in simp_all)
  note I1 = keep_children [OF keep_stop_every [OF this, of now False] d(1)]
  show ?thesis using I1 keep_children [OF keep_stop_every [OF I1, of now True] d(2)] by (simp add: stop_and_wait_def Let_def)
qed

lemma keep_unwatchAll: "I w \<Longrightarrow> I (w\<lparr>w_watch := unwatchAll (w_watch w)\<rparr>)"
proof -
  have "I v \<Longrightarrow> I (v\<lparr>w_watch := foldl (\<lambda>s i. unwatch i s) (w_watch v) xs\<rparr>)" for v xs
    by (induction xs rule: rev_induct) (use keep_unwatch in fastforce)+
  then show "I w \<Longrightarrow> ?thesis" by (simp add: unwatchAll_def)
qed

lemma keep_before_install:
  assumes "I w" and "w_updating w" and "list_all (exit_ok allowed) d1" "list_all (exit_ok allowed) d2"
  shows "I (fst (before_install e d1 d2 w))"
proof -
  have I1: "I (fst (stop_and_wait (se_now e) d1 d2 (mark_running w)))"
    using keep_mark_running [OF assms(1)] assms(2-) by (intro keep_stop_and_wait) simp_all
  have "ids_kept s (fst (save io now s))" for io now s by (simp add: ids_kept_def)
  then have "I (v\<lparr>w_watch := unwatchAll (w_watch v), w_sm := fst (save io now (w_sm v))\<rparr>)" if "I v" for v io now
    using keep_sm [OF keep_unwatchAll [OF that], of "fst (save io now (w_sm v))"] by simp
  then show ?thesis using I1 by (simp add: before_install_def case_prod_beta split: sum.split)
qed

lemma keep_self_update:
  assumes "I w" and "list_all (exit_ok allowed) d1" "list_all (exit_ok allowed) d2"
  shows "I (fst (handle_self_update u e d1 d2 fs w))"
proof -
  let ?w = "w\<lparr>w_updating := True\<rparr>"
  obtain w1 fs1 r where p: "performGuiSelfUpdate u (before_install e d1 d2) ?w fs = (w1, fs1, r)" by (metis prod_cases3)
  have "I ?w" by (rule keep_updating [OF assms(1)])
  then have "I w1" using perform_world [OF p] keep_before_install [of ?w d1 d2 e] assms(2,3) by auto
  then show ?thesis using assms(1)
    by (simp add: handle_self_update_def p keep_resume keep_broadcast split: sum.split SelfUpdateResult.split)
qed

lemma keep_restart_gui: "I w \<Longrightarrow> I (fst (restart_gui ctl fault t r fs w))"
  by (simp add: restart_gui_def keep_resume split: GuiUpdateRestart.split prod.split sum.split)

lemma keep_step: "I w \<Longrightarrow> exits_ok allowed ev \<Longrightarrow> I (sup_step w ev)"
  by (cases ev) (simp_all add: keep_start keep_stop keep_restart keep_delete keep_create keep_update keep_put keep_child
      keep_fire_timer keep_self_update keep_restart_gui del: child_event.simps)

lemma keep_run: "I w \<Longrightarrow> list_all (exits_ok allowed) evs \<Longrightarrow> I (foldl sup_step w evs)"
  by (induction evs arbitrary: w) (simp_all add: keep_step)

end

section \<open>The parts agree with each other\<close>

text \<open>What is watched is registered, starts are blocked only during an update of the GUI, and a restart
  count is between one and five.\<close>

definition consistent :: "world \<Rightarrow> bool" where
  "consistent w \<longleftrightarrow>
     (\<forall>i. map_of (w_watchers (w_watch w)) i \<noteq> None \<longrightarrow> getById i (w_sm w) \<noteq> None) \<and>
     (pm_startsBlocked (w_pm w) \<longrightarrow> w_updating w) \<and>
     (\<forall>i n t. map_of (w_attempts w) i = Some (n, t) \<longrightarrow> 1 \<le> n \<and> n \<le> 5)"

lemma consistent_remove:
  assumes "consistent w" and "map_of (w_watchers (w_watch w)) i = None"
  shows "consistent (w\<lparr>w_sm := fst (Services.remove io tx i (w_sm w))\<rparr>)"
proof -
  have "getById j (fst (Services.remove io tx i (w_sm w))) \<noteq> None" if "map_of (w_watchers (w_watch w)) j \<noteq> None" for j
    using assms that by (intro remove_other) (auto simp: consistent_def)
  then show ?thesis using assms(1) by (simp add: consistent_def)
qed

lemma consistent_schedule: "consistent w \<Longrightarrow> consistent (schedule_restart now i w)"
  by (auto simp: consistent_def schedule_restart_def broadcast_def Let_def update_conv' case_prod_beta split: option.splits if_splits)

interpretation cw: world_inv consistent "\<lambda>_. True"
proof unfold_locales
  show "consistent (schedule_restart now i w)" if "consistent w" for w now i by (rule consistent_schedule [OF that])
  show "consistent (w\<lparr>w_sm := fst (Services.remove io tx i (w_sm w))\<rparr>)"
    if "consistent w" "map_of (w_watchers (w_watch w)) i = None" for w io tx i by (rule consistent_remove [OF that])
qed (auto simp: consistent_def ids_kept_def watch_def unwatch_def update_conv' delete_conv' markIntentionalStop_def resume_def
    resumeStarts_def split: option.splits if_splits)

text \<open>The state in which the server starts, before it loads the store.\<close>

definition new_world :: "ServiceManager \<Rightarrow> disk \<Rightarrow> files \<Rightarrow> world" where
  "new_world s d b = \<lparr>w_sm = s, w_pm = new_ProcessManager, w_watch = \<lparr>w_watchers = [], w_closed = []\<rparr>, w_disk = d, w_binaries = b,
     w_cache = new_ReleaseCache, w_attempts = [], w_intentional = [], w_updating = False, w_timers = [], w_msgs = []\<rparr>"

lemma exits_ok_any: "exits_ok (\<lambda>_. True) ev"
proof -
  have "exit_ok (\<lambda>_. True) x" for x
  proof -
    obtain e i c where "x = (e, i, c)" by (cases x) auto
    then show ?thesis by (cases c) simp_all
  qed
  then show ?thesis by (cases ev) (simp_all add: list_all_iff)
qed

text \<open>C7: The parts of the server agree with each other after any requests, timers and events of children in any
  order. A configuration is watched only for a registered instance; starts are refused only while the
  GUI is being updated; and a restart policy never counts more than five attempts.\<close>

theorem server_consistent:
  assumes "w = foldl sup_step (new_world s d b) evs"
  shows "(map_of (w_watchers (w_watch w)) i \<noteq> None \<longrightarrow> i \<in> inst_id ` set (getAll (w_sm w))) \<and>
     (pm_startsBlocked (w_pm w) \<longrightarrow> w_updating w) \<and>
     (case map_of (w_attempts w) i of None \<Rightarrow> True | Some (n, t) \<Rightarrow> 1 \<le> n \<and> n \<le> 5)"
proof -
  have "consistent (new_world s d b)" by (simp add: consistent_def new_world_def new_ProcessManager_def)
  then have "consistent w" unfolding assms by (rule cw.keep_run) (simp add: exits_ok_any list_all_iff)
  then show ?thesis
    by (auto simp: consistent_def getById_def find_None_iff image_iff split: option.split)
qed

section \<open>An intentional stop\<close>

definition stop_marked :: "string \<Rightarrow> (ms \<times> string) set \<Rightarrow> world \<Rightarrow> bool" where
  "stop_marked i ts w \<longleftrightarrow> i \<in> set (w_intentional w) \<and> set (filter (\<lambda>t. snd t = i) (w_timers w)) \<subseteq> ts"

interpretation im: world_inv "stop_marked i ts" "\<lambda>j. j \<noteq> i" for i ts
  by unfold_locales (auto simp: stop_marked_def markIntentionalStop_def schedule_restart_def broadcast_def resume_def Let_def
      case_prod_beta split: if_splits)

lemma stop_marks:
  assumes "isRunning i (w_pm w)"
  shows "stop_marked i (set (w_timers w)) (fst (handle_stop e i w))"
proof -
  have "stop_marked i (set (w_timers w)) (markIntentionalStop i w)" by (auto simp: stop_marked_def markIntentionalStop_def)
  note m = im.keep_set_pid [OF im.keep_stop_process [OF this, of "se_now e" False i], of e i None]
  show ?thesis using assms m im.keep_unwatch_stopped [OF m] by (simp add: handle_stop_def case_prod_beta split: sum.split)
qed

lemma marked_exit_timers:
  assumes "i \<in> set (w_intentional w)"
  shows "w_timers (child_event w (e, i, ChildExit code sig)) = w_timers w"
  using assms
  by (auto simp: exit_listener_def set_pid_def broadcast_instances_def broadcast_def Let_def case_prod_beta split: sum.split)

text \<open>C10: A process stopped on request is never restarted by the policy. From the stop to the exit of the process,
  whatever other requests, timers and exits happen in between, no restart of this instance is
  scheduled, and its exit schedules none: every timer for it that is left was set before the stop.\<close>

theorem intentional_stop_not_restarted:
  assumes "isRunning i (w_pm w)" and "list_all (exits_ok (\<lambda>j. j \<noteq> i)) evs"
    and "w1 = foldl sup_step (fst (handle_stop e i w)) evs"
  shows "set (filter (\<lambda>t. snd t = i) (w_timers (child_event w1 (e1, i, ChildExit code sig)))) \<subseteq> set (w_timers w)"
proof -
  have "stop_marked i (set (w_timers w)) w1" unfolding assms(3) by (rule im.keep_run [OF stop_marks [OF assms(1)] assms(2)])
  then show ?thesis using marked_exit_timers by (simp add: stop_marked_def)
qed

section \<open>A crash loop\<close>

lemma set_pid_ok:
  assumes "se_save e = None" and "getById i (w_sm w) = Some x"
  obtains s where "set_pid e i p w = (w\<lparr>w_sm := s\<rparr>, Inr ())"
    and "getById i s = Some (x\<lparr>inst_pid := p, lastStarted := (if truthy_num p then Some (se_text e) else None)\<rparr>)"
proof -
  let ?us = "[UPid p, ULastStarted (if truthy_num p then Some (se_text e) else None)]"
  obtain s r where u: "update None (se_text e) i ?us (w_sm w) = (s, r)" by fastforce
  have "findIndex (\<lambda>x. inst_id x = i) (getAll (w_sm w)) \<noteq> None"
    using assms(2) findIndex_None [of "\<lambda>x. inst_id x = i" "getAll (w_sm w)"] by (simp add: getById_def)
  then have "r = Inr ()" using u by (auto simp: update_def save_def Let_def split: option.splits)
  moreover have "getById i s = Some (apply_upds ?us x)"
    using getById_update [of i "w_sm w" ?us i None "se_text e"] u assms(2) by (simp add: apply_upds_def)
  ultimately show ?thesis using u assms(1) by (intro that [of s]) (simp_all add: set_pid_def setPid_def apply_upds_def)
qed

text \<open>An instance that runs under the policy, as a successful start leaves it: with its manager settings
  in place, its configuration watched and no restart pending.\<close>

definition supervised :: "string \<Rightarrow> world \<Rightarrow> bool" where
  "supervised i w \<longleftrightarrow>
     (case getById i (w_sm w) of
        None \<Rightarrow> False
      | Some x \<Rightarrow> autoRestart x = Some True \<and> truthy_num (managerPort x) \<and> truthy_str (managerToken x)) \<and>
     isRunning i (w_pm w) \<and> \<not> pm_startsBlocked (w_pm w) \<and> i \<notin> set (w_intentional w) \<and> \<not> w_updating w \<and>
     map_of (w_watchers (w_watch w)) i \<noteq> None \<and> map_of (w_attempts w) i = None \<and> w_timers w = []"

text \<open>The process exits, and the timer this sets fires.\<close>

definition crash_cycle :: "string \<Rightarrow> world \<Rightarrow> sup_env \<times> sup_env \<Rightarrow> world" where
  "crash_cycle i w es = fire_timer (snd es) 0 (child_event w (fst es, i, ChildExit (Some 1) None))"

definition good_cycle :: "sup_env \<times> sup_env \<Rightarrow> bool" where
  "good_cycle es \<longleftrightarrow> se_save (fst es) = None \<and> se_save (snd es) = None \<and> se_now (fst es) + 1000 \<le> se_now (snd es) \<and>
     se_pid (snd es) \<noteq> None \<and> se_pid (snd es) \<noteq> Some 0"

fun gives_up :: "ws_msg \<Rightarrow> bool" where
  "gives_up (MsgAutoRestartFailed i n) = True" | "gives_up _ = False"

text \<open>Between the exit and the timer.\<close>

definition waiting :: "string \<Rightarrow> ms \<Rightarrow> world \<Rightarrow> bool" where
  "waiting i t w \<longleftrightarrow>
     (case getById i (w_sm w) of
        None \<Rightarrow> False
      | Some x \<Rightarrow> autoRestart x = Some True \<and> truthy_num (managerPort x) \<and> truthy_str (managerToken x)) \<and>
     \<not> isRunning i (w_pm w) \<and> \<not> pm_startsBlocked (w_pm w) \<and> i \<notin> set (w_intentional w) \<and> \<not> w_updating w \<and>
     map_of (w_watchers (w_watch w)) i \<noteq> None \<and> w_timers w = [(t, i)]"

lemma crash_exit:
  assumes "supervised i w" and "se_save e = None" and "w1 = child_event w (e, i, ChildExit (Some 1) None)"
  shows "waiting i (se_now e + 1000) w1 \<and> filter gives_up (w_msgs w1) = filter gives_up (w_msgs w)"
proof -
  obtain x where x: "getById i (w_sm w) = Some x" "autoRestart x = Some True" "truthy_num (managerPort x)" "truthy_str (managerToken x)"
    using assms(1) by (auto simp: supervised_def split: option.splits)
  let ?w = "w\<lparr>w_pm := on_exit (se_now e) i (Some 1) None (w_pm w)\<rparr>"
  obtain s where s: "set_pid e i None ?w = (?w\<lparr>w_sm := s\<rparr>, Inr ())" "getById i s = Some (x\<lparr>inst_pid := None, lastStarted := None\<rparr>)"
    using set_pid_ok [OF assms(2), of i ?w x None] x(1) by (auto simp: truthy_num_def)
  show ?thesis using assms(1) x s unfolding assms(3)
    by (simp add: supervised_def waiting_def exit_listener_def schedule_restart_def broadcast_instances_def broadcast_def Let_def
        isRunning_def exit_fields delete_conv')
qed

lemma start_ok:
  assumes "\<not> isRunning i st" and "\<not> pm_startsBlocked st" and "pid = Some p" and "p \<noteq> 0"
  shows "snd (start now win pid i opts st) = Inr p \<and> isRunning i (fst (start now win pid i opts st))"
proof -
  have "isRunning i (spawned now win pid i opts st)" by (simp add: isRunning_def spawned_def emit_def update_conv')
  then have "isRunning i (log_and_emit now i System m (spawned now win pid i opts st))" for m
    using log_fields by (simp add: isRunning_def)
  then have "isRunning i (fst (start now win pid i opts st))" using assms(1,2) by (simp add: fst_start)
  moreover have "snd (start now win pid i opts st) = Inr p" using assms by (simp add: start_def Let_def case_prod_beta)
  ultimately show ?thesis by simp
qed

lemma run_instance_ok:
  assumes "getById i (w_sm w) = Some x" and "truthy_num (managerPort x)" and "truthy_str (managerToken x)"
    and "\<not> isRunning i (w_pm w)" and "\<not> pm_startsBlocked (w_pm w)" and "se_save e = None" and "se_pid e = Some p" and "p \<noteq> 0"
    and "map_of (w_watchers (w_watch w)) i \<noteq> None \<or> se_watch e = None"
  obtains s pm wa where "run_instance e i x w = (w\<lparr>w_pm := pm, w_sm := s, w_watch := wa\<rparr>, Inr p)"
    and "map_of (w_watchers wa) i \<noteq> None"
    and "isRunning i pm" and "\<not> pm_startsBlocked pm"
    and "getById i s = Some (x\<lparr>inst_pid := Some p, lastStarted := (if truthy_num (Some p) then Some (se_text e) else None)\<rparr>)"
proof -
  let ?st = "start (se_now e) (se_platform e = ''win32'') (se_pid e) i (start_options x (shouldStartWithSudo e x (w_disk w))) (w_pm w)"
  have st: "snd ?st = Inr p" "isRunning i (fst ?st)" "\<not> pm_startsBlocked (fst ?st)"
    using start_ok [OF assms(4,5,7,8)] assms(5) by (simp_all add: start_blocked)
  have a: "ensure_api e x w = (w, Inr x)" using assms(2,3) by (simp add: ensure_api_def ensureManagerApi_def broadcast_def)
  have b: "spawn e i x w = (w\<lparr>w_pm := fst ?st\<rparr>, Inr p)" using st(1) by (simp add: spawn_def case_prod_beta)
  obtain s where s: "set_pid e i (Some p) (w\<lparr>w_pm := fst ?st\<rparr>) = (w\<lparr>w_pm := fst ?st, w_sm := s\<rparr>, Inr ())"
    "getById i s = Some (x\<lparr>inst_pid := Some p, lastStarted := (if truthy_num (Some p) then Some (se_text e) else None)\<rparr>)"
    using set_pid_ok [OF assms(6), of i "w\<lparr>w_pm := fst ?st\<rparr>" x "Some p"] assms(1) by auto
  obtain wa where wa: "watch (se_watch e) i (configPath x) (w_watch w) = (wa, Inr ())" "map_of (w_watchers wa) i \<noteq> None"
    using assms(9) by (cases "map_of (w_watchers (w_watch w)) i") (auto simp: watch_def update_conv')
  show ?thesis by (rule that [OF _ wa(2) st(2,3) s(2)]) (simp add: run_instance_def a b s(1) wa(1))
qed

lemma crash_timer:
  assumes "waiting i t w" and "se_save e = None" and "se_pid e \<noteq> None" and "se_pid e \<noteq> Some 0" and "t \<le> se_now e"
  shows "supervised i (fire_timer e 0 w) \<and> filter gives_up (w_msgs (fire_timer e 0 w)) = filter gives_up (w_msgs w)"
proof -
  obtain p where p: "se_pid e = Some p" "p \<noteq> 0" using assms(3,4) by auto
  let ?w = "w\<lparr>w_timers := []\<rparr>"
  obtain x where x: "getById i (w_sm ?w) = Some x" "autoRestart x = Some True" "truthy_num (managerPort x)" "truthy_str (managerToken x)"
    using assms(1) by (auto simp: waiting_def split: option.splits)
  have wd: "map_of (w_watchers (w_watch ?w)) i \<noteq> None" using assms(1) by (simp add: waiting_def)
  have n: "\<not> isRunning i (w_pm ?w)" "\<not> pm_startsBlocked (w_pm ?w)" "w_timers w = [(t, i)]" "i \<notin> set (w_intentional w)" "\<not> w_updating w"
    using assms(1) by (simp_all add: waiting_def)
  obtain s pm wa where r: "run_instance e i x ?w = (?w\<lparr>w_pm := pm, w_sm := s, w_watch := wa\<rparr>, Inr p)"
      "map_of (w_watchers wa) i \<noteq> None" "isRunning i pm"
      "\<not> pm_startsBlocked pm"
      "getById i s = Some (x\<lparr>inst_pid := Some p, lastStarted := (if truthy_num (Some p) then Some (se_text e) else None)\<rparr>)"
    by (rule run_instance_ok [OF x(1,3,4) n(1,2) assms(2) p disjI1 [OF wd]])
  show ?thesis using n x r assms(5)
    by (simp add: fire_timer_def restart_timer_def supervised_def broadcast_instances_def broadcast_def delete_conv')
qed

text \<open>C40: A crash loop never ends. The policy means to give up after five attempts within a minute, but
  a restart that succeeds forgets the attempts: an instance that starts and exits again is restarted
  every time, after any number of crashes however close together, and the policy never gives up.\<close>

theorem crash_loop_never_gives_up:
  assumes "supervised i w" and "list_all good_cycle cycles"
  shows "isRunning i (w_pm (foldl (crash_cycle i) w cycles)) \<and>
     filter gives_up (w_msgs (foldl (crash_cycle i) w cycles)) = filter gives_up (w_msgs w)"
proof -
  have "supervised i (foldl (crash_cycle i) w cycles) \<and>
     filter gives_up (w_msgs (foldl (crash_cycle i) w cycles)) = filter gives_up (w_msgs w)"
    using assms
  proof (induction cycles arbitrary: w)
    case (Cons c cs)
    let ?w1 = "child_event w (fst c, i, ChildExit (Some 1) None)"
    have g: "se_save (fst c) = None" "se_save (snd c) = None" "se_now (fst c) + 1000 \<le> se_now (snd c)" "se_pid (snd c) \<noteq> None"
      "se_pid (snd c) \<noteq> Some 0" using Cons.prems(2) by (simp_all add: good_cycle_def)
    have 1: "waiting i (se_now (fst c) + 1000) ?w1" "filter gives_up (w_msgs ?w1) = filter gives_up (w_msgs w)"
      using crash_exit [OF Cons.prems(1) g(1) refl] by simp_all
    have "supervised i (crash_cycle i w c) \<and> filter gives_up (w_msgs (crash_cycle i w c)) = filter gives_up (w_msgs w)"
      using crash_timer [OF 1(1) g(2,4,5,3)] 1(2) by (simp add: crash_cycle_def)
    then show ?case using Cons.IH [of "crash_cycle i w c"] Cons.prems(2) by simp
  qed simp
  then show ?thesis by (simp add: supervised_def)
qed

section \<open>Updating a running instance\<close>

lemma pm_exit_listener [simp]: "w_pm (exit_listener e i code sig w) = w_pm w"
  by (simp add: exit_listener_def schedule_restart_def set_pid_def broadcast_instances_def broadcast_def Let_def case_prod_beta
      split: sum.split option.split)

lemma pm_children: "w_pm (foldl child_event w d) = foldl child_step (w_pm w) (map (\<lambda>(e, i, ev). (se_now e, i, ev)) d)"
proof (induction d arbitrary: w)
  case (Cons x d)
  obtain e i c where "x = (e, i, c)" by (cases x) auto
  then have "w_pm (child_event w x) = child_step (w_pm w) ((\<lambda>(e, i, ev). (se_now e, i, ev)) x)"
    by (cases c) (simp_all add: broadcast_def)
  then show ?case using Cons by simp
qed simp

lemma pm_latest [simp]: "w_pm (fst (latest_release f e n w)) = w_pm w"
  by (simp add: latest_release_def case_prod_beta)

lemma pm_requested [simp]: "w_pm (fst (requested_version f e n v w)) = w_pm w"
  by (simp add: requested_version_def case_prod_beta)

lemma pm_fetch_binary [simp]: "w_pm (fst (fetch_binary msg e n dir asset w)) = w_pm w"
  by (simp add: fetch_binary_def broadcast_def Let_def split: jsval.split prod.split sum.split)

lemma pm_install_version [simp]: "w_pm (fst (install_version e n i x v asset w)) = w_pm w"
  by (cases "ra_name asset")
    (simp_all add: install_version_def Let_def case_prod_beta split: sum.split)

lemma install_version_stores:
  assumes "install_version e n i x v asset w = (w', Inr u)" and "inst_id x = i"
  shows "\<exists>p. getById i (w_sm w') = Some (x\<lparr>inst_version := v, binaryPath := p, sourceUrl := str_of (ra_downloadUrl asset)\<rparr>)"
proof -
  obtain name where nm: "ra_name asset = JStr name" using assms(1) by (cases "ra_name asset") (auto simp: install_version_def)
  let ?w1 = "w\<lparr>w_binaries := rm_file (ne_rm n) (binaryPath x) (w_binaries w)\<rparr>"
  obtain w2 r2 where f: "fetch_binary (MsgUpdateProgress i) e n (dataDir x @ ''/data'') asset ?w1 = (w2, r2)" by fastforce
  obtain path where r2: "r2 = Inr path" using assms(1) nm f by (cases r2) (simp_all add: install_version_def)
  let ?y = "x\<lparr>inst_version := v, binaryPath := path, sourceUrl := str_of (ra_downloadUrl asset)\<rparr>"
  obtain s where u: "update (se_save e) (se_text e) i [UAll ?y] (w_sm w2) = (s, Inr u)" "w' = w2\<lparr>w_sm := s\<rparr>"
    using assms(1) nm f r2 by (auto simp: install_version_def split: prod.splits)
  have keep: "inst_id (apply_upds [UAll ?y] z) = inst_id z" if "getById i (w_sm w2) = Some z" for z
    using getById_id [OF that] assms(2) by (simp add: apply_upds_def)
  have "getById i s \<noteq> None" using update_ok [OF keep u(1)] by blast
  moreover have "getById i s = map_option (apply_upds [UAll ?y]) (getById i (w_sm w2))"
    using getById_update [where us = "[UAll ?y]" and i = i and j = i and s = "w_sm w2" and io = "se_save e" and now = "se_text e", OF keep] u(1) by simp
  ultimately have "getById i s = Some ?y" by (auto simp: apply_upds_def)
  then show ?thesis using u(2) by auto
qed

text \<open>Updating a running instance brings back the pid of the process it stopped. The handler clears the
  pid in the store, but then writes the whole instance back as it was read before the stop: when the
  update succeeds, the stored pid is the old one, although the process has exited.\<close>

lemma update_restores_stale_pid:
  assumes "getById i (w_sm w) = Some x" and "handle_update e n d i v f w = (w', UpdatedTo tv)"
    and "list_ex (exits i) (map (\<lambda>(e, j, ev). (se_now e, j, ev)) d)" and "isRunning i (w_pm w)"
  shows "\<exists>y. getById i (w_sm w') = Some y \<and> inst_version y = tv \<and> inst_pid y = inst_pid x \<and> \<not> isRunning i (w_pm w')"
proof -
  obtain w1 r1 where 1: "stop_for_update e d i w = (w1, r1)" by fastforce
  then obtain u where r1: "r1 = Inr u" using assms(1,2) by (cases r1) (auto simp: handle_update_def)
  obtain w2 t where 2: "requested_version True e n v w1 = (w2, t)" by fastforce
  obtain w3 rel where 3: "latest_release True e n w2 = (w3, rel)" by fastforce
  have pm: "w_pm w3 = w_pm w1" using pm_requested [of True e n v w1] pm_latest [of True e n w2] 2 3 by simp
  obtain asset w4 u' where 4: "install_version e n i x tv asset w3 = (w4, Inr u')"
    and w': "w' = broadcast_instances (broadcast [MsgInstanceVersion i tv] w4)"
    using assms(2) unfolding handle_update_def
    by (auto simp: assms(1) 1 r1 2 3 rate_limit_reply_def split: if_splits option.splits prod.splits sum.splits)
  have "w1 = foldl child_event (unwatch_stopped i (fst (set_pid e i None (stop_process (se_now e) True i (markIntentionalStop i w))))) d"
    using 1 r1 assms(4) by (auto simp: stop_for_update_def split: prod.splits sum.splits)
  then have "\<not> isRunning i (w_pm w1)" using child_run_fields assms(3) by (simp add: pm_children)
  moreover have "w_pm w' = w_pm w4" by (simp add: w' broadcast_instances_def broadcast_def)
  moreover have "w_pm w4 = w_pm w3" using pm_install_version [of e n i x tv asset w3] 4 by simp
  moreover have "w_sm w' = w_sm w4" by (simp add: w' broadcast_instances_def broadcast_def)
  ultimately show ?thesis using install_version_stores [OF 4 getById_id [OF assms(1)]] pm by auto
qed

section \<open>What an unauthenticated browser learns\<close>

text \<open>C39: The WebSocket gives away what the API keeps back. With authentication on, a request for the list of
  instances that carries no session and no bearer token is answered 401, in every state, but every
  WebSocket that connects is sent the whole list, the manager tokens included; and a token read there
  is a bearer token the list then accepts.\<close>

theorem websocket_discloses_tokens:
  assumes "hasAuth (w_sm w)" and "x \<in> set (getAll (w_sm w))" and "managerToken x = Some tok" and "trim tok = tok" and "tok \<noteq> []"
    and "sessionTokenFromRequest r = None" and "req_authorization r = None"
  shows "handle_list now r a w = (a, Fail 401 ''Unauthorized'') \<and>
     (\<exists>xs. ws_connection w = MsgInstances xs \<and> Some tok \<in> managerToken ` set xs) \<and>
     handle_list now (r\<lparr>req_authorization := Some (''Bearer '' @ tok)\<rparr>) a w =
       (a, Redacted (map (\<lambda>x. (inst_id x, inst_name x, managerPort x)) (getAll (w_sm w))))"
proof -
  have "handle_list now r a w = (a, Fail 401 ''Unauthorized'')"
    using assms by (simp add: handle_list_def requestHasValidGuiSession_def requestHasAnyManagerBearer_def managerTokenFromRequest_def)
  moreover have "Some tok \<in> managerToken ` set (getAll (w_sm w))" using assms(2,3) by force
  moreover have "requestHasAnyManagerBearer (w_sm w) (r\<lparr>req_authorization := Some (''Bearer '' @ tok)\<rparr>)"
    using assms(2-5) by (auto simp: requestHasAnyManagerBearer_def managerTokenFromRequest_def startsWith_def list_ex_iff)
  moreover have "sessionTokenFromRequest (r\<lparr>req_authorization := Some (''Bearer '' @ tok)\<rparr>) = None"
    using assms(6) by (simp add: sessionTokenFromRequest_def)
  ultimately show ?thesis using assms(1) by (simp add: handle_list_def requestHasValidGuiSession_def ws_connection_def)
qed

section \<open>Concrete runs\<close>

definition web_instance :: FerrumProxyInstance where
  "web_instance = sample_instance\<lparr>inst_pid := Some 7, managerPort := Some 5, managerToken := Some ''t''\<rparr>"

definition web_world :: world where
  "web_world = (new_world \<lparr>sm_data = \<lparr>instances = [web_instance], lastUpdated = [], auth = None\<rparr>, sm_file = None\<rparr> [] [])
     \<lparr>w_pm := new_ProcessManager\<lparr>pm_processes := [(''a'', Some 7)], pm_startedAt := [(''a'', 0)]\<rparr>,
      w_watch := \<lparr>w_watchers = [(''a'', ''c'')], w_closed = []\<rparr>\<rparr>"

definition web_env :: "ms \<Rightarrow> sup_env" where
  "web_env t = \<lparr>se_now = t, se_text = ''t'', se_platform = ''linux'', se_api = sample_env, se_pid = Some 8, se_read = None, se_save = None, se_watch = None\<rparr>"

definition web_net :: net_env where
  "web_net = \<lparr>ne_tag = ''g'',
     ne_manifest = Fetched 200 ''OK'' (Inr (JObj [(''version'', JStr ''2''), (''assets'', JArr [JObj [(''name'', JStr ''f''),
       (''platform'', JStr ''linux-x64''), (''downloadUrl'', JStr ''u''), (''size'', JNum (Fin 3))]])])),
     ne_get = (\<lambda>_. plain_download ''new''), ne_chmod = None, ne_mkdir = None, ne_write = None, ne_partial = None, ne_rm = None\<rparr>"

lemma web_getById: "getById ''a'' (w_sm web_world) = Some web_instance"
  by (simp add: getById_def getAll_def web_world_def new_world_def web_instance_def sample_instance_def)

lemma web_supervised: "supervised ''a'' web_world"
  by (simp add: supervised_def web_getById) (simp add: web_world_def web_instance_def new_world_def sample_instance_def isRunning_def
      new_ProcessManager_def truthy_num_def truthy_str_def)

theorem server_consistent_witness:
  "''a'' \<in> inst_id ` set (getAll (w_sm (foldl sup_step (new_world (w_sm web_world) [] []) [EvStart (web_env 0) ''a''])))"
proof -
  let ?w = "foldl sup_step (new_world (w_sm web_world) [] []) [EvStart (web_env 0) ''a'']"
  let ?v = "new_world (w_sm web_world) [] []"
  have v: "getById ''a'' (w_sm ?v) = Some web_instance" "truthy_num (managerPort web_instance)" "truthy_str (managerToken web_instance)"
      "\<not> isRunning ''a'' (w_pm ?v)" "\<not> pm_startsBlocked (w_pm ?v)" "se_save (web_env 0) = None" "se_pid (web_env 0) = Some 8"
      "(8::int) \<noteq> 0" "map_of (w_watchers (w_watch ?v)) ''a'' \<noteq> None \<or> se_watch (web_env 0) = None"
    using web_getById web_supervised
    by (simp_all add: new_world_def new_ProcessManager_def isRunning_def web_env_def supervised_def)
  have "map_of (w_watchers (w_watch ?w)) ''a'' \<noteq> None"
    by (rule run_instance_ok [OF v]) (simp add: handle_start_def v(1,4) broadcast_def broadcast_instances_def)
  then show ?thesis using server_consistent [OF refl, of "w_sm web_world" "[]" "[]" "[EvStart (web_env 0) ''a'']" "''a''"] by auto
qed

theorem intentional_stop_not_restarted_witness:
  "filter (\<lambda>t. snd t = ''a'') (w_timers (child_event (foldl sup_step (fst (handle_stop (web_env 0) ''a'' web_world))
     [EvPut (web_env 1) ''a'' \<lparr>pr_name = JStr ''m'', pr_autoStart = JUndef, pr_autoRestart = JBool True, pr_managerPort = JUndef, pr_managerToken = JUndef\<rparr>])
     (web_env 2, ''a'', ChildExit (Some 0) None))) = []"
proof -
  let ?ev = "[EvPut (web_env 1) ''a'' \<lparr>pr_name = JStr ''m'', pr_autoStart = JUndef, pr_autoRestart = JBool True, pr_managerPort = JUndef, pr_managerToken = JUndef\<rparr>]"
  have "isRunning ''a'' (w_pm web_world)" using web_supervised by (simp add: supervised_def)
  moreover have "list_all (exits_ok (\<lambda>j. j \<noteq> ''a'')) ?ev" by simp
  ultimately have "set (filter (\<lambda>t. snd t = ''a'') (w_timers (child_event (foldl sup_step (fst (handle_stop (web_env 0) ''a'' web_world)) ?ev)
     (web_env 2, ''a'', ChildExit (Some 0) None)))) \<subseteq> set (w_timers web_world)"
    by (rule intentional_stop_not_restarted) (rule refl)
  moreover have "set (w_timers web_world) = {}" by (simp add: web_world_def new_world_def)
  ultimately show ?thesis by (simp only: subset_empty set_empty)
qed

theorem crash_loop_never_gives_up_witness:
  "filter gives_up (w_msgs (foldl (crash_cycle ''a'') web_world (replicate 1000 (web_env 0, web_env 1000)))) = []"
proof -
  have "list_all good_cycle (replicate 1000 (web_env 0, web_env 1000))" by (simp add: list_all_iff good_cycle_def web_env_def)
  moreover have "w_msgs web_world = []" by (simp add: web_world_def new_world_def)
  ultimately show ?thesis using crash_loop_never_gives_up [OF web_supervised] by simp
qed

definition locked_world :: world where
  "locked_world = web_world\<lparr>w_sm := fst (setAuth None ''t'' ''admin'' ''pw'' (w_sm web_world))\<rparr>"

theorem websocket_discloses_tokens_witness:
  "handle_list 0 \<lparr>req_path = ''/api/instances'', req_cookie = HAbsent, req_xtoken = HAbsent, req_authorization = None\<rparr> new_AuthManager locked_world =
     (new_AuthManager, Fail 401 ''Unauthorized'') \<and> (\<exists>xs. ws_connection locked_world = MsgInstances xs \<and> Some ''t'' \<in> managerToken ` set xs)"
proof -
  let ?r = "\<lparr>req_path = ''/api/instances'', req_cookie = HAbsent, req_xtoken = HAbsent, req_authorization = None\<rparr>"
  have "hasAuth (w_sm locked_world)" "web_instance \<in> set (getAll (w_sm locked_world))" "managerToken web_instance = Some ''t''"
    by (simp_all add: locked_world_def web_world_def new_world_def setAuth_def save_def hasAuth_def getAuth_def getAll_def web_instance_def Let_def)
  moreover have "trim ''t'' = ''t''" "''t'' \<noteq> []" "sessionTokenFromRequest ?r = None" "req_authorization ?r = None" by code_simp+
  ultimately show ?thesis using websocket_discloses_tokens by blast
qed

end
