(* ===== verification/Certificates.thy ===== *)
theory Certificates
  imports Supervisor ConfigValidate
begin

text \<open>
  Certificates from Let's Encrypt, of \<open>FerrumGUI/src/index.ts\<close> and \<open>certificateDomains.ts\<close>: running
  commands with privileges, opening port 80 in the firewall for the challenge, requesting a
  certificate, and the handlers that save a configuration or the files of a listener. The commands run
  so far are the state; what a command answers may depend on all that ran before it. The parser of
  certificates is an argument.
\<close>

section \<open>Commands\<close>

type_synonym cmd = "string \<times> string list"

text \<open>A child process fails to start, or closes with its code (none when a signal killed it), its output and
  its error output.\<close>

datatype child = Spawn_error js_error | Closed "nat option" string string

text \<open>What the children do; what the file system and the certificate library say.\<close>

record cert_env =
  ce_linux :: bool
  ce_root :: bool
  ce_shell :: "cmd list \<Rightarrow> cmd \<Rightarrow> child"
  ce_isFile :: "cmd list \<Rightarrow> string \<Rightarrow> bool"
  ce_readFile :: "cmd list \<Rightarrow> string \<Rightarrow> string res"
  ce_x509 :: "string \<Rightarrow> (ms option \<times> ms option \<times> (string \<Rightarrow> bool)) option"
  ce_now :: ms

definition child_result :: "string \<Rightarrow> child \<Rightarrow> string res" where
  "child_result command r =
     (case r of
        Spawn_error e \<Rightarrow> Inl e
      | Closed code out err \<Rightarrow>
          if code = Some 0 then Inr out
          else let details = join_with [CHR 0x0A] (filter (\<lambda>s. s \<noteq> []) [trim out, trim err]) in
               Inl (Error (command @ '' exited with code '' @ (case code of None \<Rightarrow> ''null'' | Some n \<Rightarrow> show_nat n) @
                 (if details \<noteq> [] then '':'' @ [CHR 0x0A] @ details else []))))"

definition runChildProcess :: "cert_env \<Rightarrow> cmd \<Rightarrow> cmd list \<Rightarrow> cmd list \<times> string res" where
  "runChildProcess ce c h = (h @ [c], child_result (fst c) (ce_shell ce h c))"

definition commandExists :: "cert_env \<Rightarrow> string \<Rightarrow> cmd list \<Rightarrow> cmd list \<times> bool" where
  "commandExists ce c h =
     (case runChildProcess ce (''which'', [c]) h of (h1, r) \<Rightarrow> (h1, case r of Inl e \<Rightarrow> False | Inr out \<Rightarrow> True))"

definition needs_password :: "js_error \<Rightarrow> bool" where
  "needs_password e \<longleftrightarrow> str_includes (err_message e) ''password is required'' \<or>
     str_includes (err_message e) ''a password is required'' \<or> str_includes (err_message e) ''not allowed to execute''"

definition runPrivileged :: "cert_env \<Rightarrow> cmd \<Rightarrow> cmd list \<Rightarrow> cmd list \<times> string res" where
  "runPrivileged ce c h =
     (if ce_root ce then runChildProcess ce c h
      else case runChildProcess ce (''sudo'', ''-n'' # fst c # snd c) h of
             (h1, Inr out) \<Rightarrow> (h1, Inr out)
           | (h1, Inl e) \<Rightarrow>
               (h1, Inl (if needs_password e
                         then Error (''Root permission is required to run '' @ fst c @ ''. '' @
                                ''Run FerrumProxyGUI as root or configure passwordless sudo for certbot and firewall commands.'')
                         else e)))"

section \<open>The firewall\<close>

text \<open>\<open>/Status:\s+active/i\<close>\<close>

fun ufw_active :: "string \<Rightarrow> bool" where
  "ufw_active [] = False"
| "ufw_active (c # cs) \<longleftrightarrow>
     (let s = toLowerCase (c # cs); r = drop 7 s in
      startsWith s ''status:'' \<and> r \<noteq> [] \<and> is_ws (hd r) \<and> startsWith (dropWhile is_ws r) ''active'') \<or> ufw_active cs"

text \<open>\<open>/(^|\n)\s*X\s+ALLOW\b/im\<close> at the start of a line, for \<open>X\<close> in lower case.\<close>

definition allow_at :: "string \<Rightarrow> string \<Rightarrow> bool" where
  "allow_at x s =
     (let t = dropWhile is_ws (toLowerCase s); r = drop (length x) t; u = dropWhile is_ws r in
      startsWith t x \<and> r \<noteq> [] \<and> is_ws (hd r) \<and> startsWith u ''allow'' \<and>
      (case drop 5 u of [] \<Rightarrow> True | c # _ \<Rightarrow> \<not> word_char c))"

fun allow_rule :: "string \<Rightarrow> bool \<Rightarrow> string \<Rightarrow> bool" where
  "allow_rule x bol [] = False"
| "allow_rule x bol (c # cs) \<longleftrightarrow> bol \<and> allow_at x (c # cs) \<or> allow_rule x (c = CHR 0x0A \<or> c = CHR 0x0D) cs"

record FirewallPreparation =
  fw_provider :: string
  fw_cleanup :: "cmd option"

definition fw_changed :: "FirewallPreparation \<Rightarrow> bool" where
  "fw_changed f \<longleftrightarrow> fw_cleanup f \<noteq> None"

definition unchanged :: "string \<Rightarrow> FirewallPreparation" where
  "unchanged p = \<lparr>fw_provider = p, fw_cleanup = None\<rparr>"

definition acceptArgs :: "string list" where
  "acceptArgs = [''INPUT'', ''-p'', ''tcp'', ''--dport'', ''80'', ''-m'', ''conntrack'', ''--ctstate'', ''NEW'', ''-j'', ''ACCEPT'']"

text \<open>One provider: \<open>None\<close> when the next one is tried.\<close>

definition try_ufw :: "cert_env \<Rightarrow> cmd list \<Rightarrow> cmd list \<times> FirewallPreparation option" where
  "try_ufw ce h =
     (case runPrivileged ce (''ufw'', [''status'']) h of
        (h1, Inl e) \<Rightarrow> (h1, None)
      | (h1, Inr out) \<Rightarrow>
          if \<not> ufw_active out then (h1, None)
          else if allow_rule ''80/tcp'' True out \<or> allow_rule ''80'' True out then (h1, Some (unchanged ''ufw''))
          else (case runPrivileged ce (''ufw'', [''allow'', ''80/tcp'']) h1 of
                  (h2, Inl e) \<Rightarrow> (h2, None)
                | (h2, Inr _) \<Rightarrow>
                    (h2, Some \<lparr>fw_provider = ''ufw'', fw_cleanup = Some (''ufw'', [''--force'', ''delete'', ''allow'', ''80/tcp''])\<rparr>)))"

definition try_firewalld :: "cert_env \<Rightarrow> cmd list \<Rightarrow> cmd list \<times> FirewallPreparation option" where
  "try_firewalld ce h =
     (case runPrivileged ce (''firewall-cmd'', [''--state'']) h of
        (h1, Inl e) \<Rightarrow> (h1, None)
      | (h1, Inr _) \<Rightarrow>
          (case runPrivileged ce (''firewall-cmd'', [''--query-port=80/tcp'']) h1 of
             (h2, Inr _) \<Rightarrow> (h2, Some (unchanged ''firewalld''))
           | (h2, Inl e) \<Rightarrow>
               (case runPrivileged ce (''firewall-cmd'', [''--add-port=80/tcp'']) h2 of
                  (h3, Inl e) \<Rightarrow> (h3, None)
                | (h3, Inr _) \<Rightarrow>
                    (h3, Some \<lparr>fw_provider = ''firewalld'', fw_cleanup = Some (''firewall-cmd'', [''--remove-port=80/tcp''])\<rparr>))))"

definition try_iptables :: "cert_env \<Rightarrow> cmd list \<Rightarrow> cmd list \<times> FirewallPreparation res" where
  "try_iptables ce h =
     (case runPrivileged ce (''iptables'', ''-C'' # acceptArgs) h of
        (h1, Inr _) \<Rightarrow> (h1, Inr (unchanged ''iptables''))
      | (h1, Inl e) \<Rightarrow>
          (case runPrivileged ce (''iptables'', ''-I'' # acceptArgs) h1 of
             (h2, Inl e) \<Rightarrow> (h2, Inl e)
           | (h2, Inr _) \<Rightarrow>
               (h2, Inr \<lparr>fw_provider = ''iptables'', fw_cleanup = Some (''iptables'', ''-D'' # acceptArgs)\<rparr>)))"

definition if_installed ::
  "cert_env \<Rightarrow> string \<Rightarrow> (cmd list \<Rightarrow> cmd list \<times> FirewallPreparation option) \<Rightarrow> cmd list \<Rightarrow> cmd list \<times> FirewallPreparation option" where
  "if_installed ce c f h = (case commandExists ce c h of (h1, b) \<Rightarrow> if b then f h1 else (h1, None))"

definition prepareHttp01Firewall :: "cert_env \<Rightarrow> cmd list \<Rightarrow> cmd list \<times> FirewallPreparation res" where
  "prepareHttp01Firewall ce h =
     (case if_installed ce ''ufw'' (try_ufw ce) h of
        (h1, Some f) \<Rightarrow> (h1, Inr f)
      | (h1, None) \<Rightarrow>
          (case if_installed ce ''firewall-cmd'' (try_firewalld ce) h1 of
             (h2, Some f) \<Rightarrow> (h2, Inr f)
           | (h2, None) \<Rightarrow>
               (case commandExists ce ''iptables'' h2 of
                  (h3, b) \<Rightarrow> if b then try_iptables ce h3 else (h3, Inr (unchanged ''none'')))))"

section \<open>The certificate\<close>

text \<open>\<open>certificateCoversDomains\<close>; a date that does not parse compares as false.\<close>

definition certificateCoversDomains :: "cert_env \<Rightarrow> string \<Rightarrow> string list \<Rightarrow> bool" where
  "certificateCoversDomains ce pem domains =
     (case ce_x509 ce pem of
        None \<Rightarrow> False
      | Some (validFrom, validTo, checkHost) \<Rightarrow>
          (case validFrom of None \<Rightarrow> False | Some t \<Rightarrow> t \<le> ce_now ce) \<and>
          (case validTo of None \<Rightarrow> False | Some t \<Rightarrow> t > ce_now ce) \<and> domains \<noteq> [] \<and> list_all checkHost domains)"

record certificate =
  ct_certPath :: string
  ct_keyPath :: string
  ct_domains :: "string list"
  ct_alreadyPresent :: bool

definition certbot_args :: "bool \<Rightarrow> string list \<Rightarrow> string option \<Rightarrow> string list" where
  "certbot_args existing domains email =
     [''certonly'', ''--standalone'', ''--preferred-challenges'', ''http-01'', ''--http-01-port'', ''80'', ''--non-interactive'',
      ''--agree-tos'', ''--keep-until-expiring''] @ (if existing then [''--expand''] else []) @
     [''--verbose'', ''--cert-name'', hd domains] @
     (let m = (case email of None \<Rightarrow> [] | Some s \<Rightarrow> trim s) in
      if m \<noteq> [] then [''--email'', m] else [''--register-unsafely-without-email'']) @
     concat (map (\<lambda>d. [''--domain'', d]) domains)"

text \<open>The block with the request: the firewall is prepared, certbot runs, and the rule that was added is
  removed whatever happened.\<close>

definition request_error :: "js_error \<Rightarrow> js_error" where
  "request_error e =
     (if e = SysError ''ENOENT'' then Error ''certbot is not installed or is not available in PATH''
      else Error (''Standalone HTTP-01 certificate request failed. '' @
             ''Confirm that every configured domain resolves to this server, '' @
             ''TCP port 80 is reachable from the Internet, and no other process is using port 80.'' @ [CHR 0x0A] @ err_message e))"

definition request_certificate :: "cert_env \<Rightarrow> string list \<Rightarrow> cmd list \<Rightarrow> cmd list \<times> unit res" where
  "request_certificate ce args h =
     (case prepareHttp01Firewall ce h of
        (h1, Inl e) \<Rightarrow> (h1, Inl (request_error e))
      | (h1, Inr f) \<Rightarrow>
          (case runPrivileged ce (''certbot'', args) h1 of
             (h2, r) \<Rightarrow>
               ((case fw_cleanup f of None \<Rightarrow> h2 | Some c \<Rightarrow> fst (runPrivileged ce c h2)),
                (case r of Inl e \<Rightarrow> Inl (request_error e) | Inr _ \<Rightarrow> Inr ()))))"

definition cert_paths :: "string \<Rightarrow> string \<times> string" where
  "cert_paths name = (''/etc/letsencrypt/live/'' @ name @ ''/fullchain.pem'', ''/etc/letsencrypt/live/'' @ name @ ''/privkey.pem'')"

definition ensureLetsEncryptCertificate ::
  "cert_env \<Rightarrow> jsval \<Rightarrow> string option \<Rightarrow> cmd list \<Rightarrow> cmd list \<times> certificate res" where
  "ensureLetsEncryptCertificate ce domains email h =
     (if \<not> ce_linux ce then (h, Inl (Error ''Automatic Let's Encrypt provisioning is supported only on Linux''))
      else
        let ds = normalizeLetsEncryptDomains domains in
        case validateLetsEncryptDomains ds of
          Inl e \<Rightarrow> (h, Inl e)
        | Inr _ \<Rightarrow>
            let (cert, key) = cert_paths (hd ds);
                result = (\<lambda>b. \<lparr>ct_certPath = cert, ct_keyPath = key, ct_domains = ds, ct_alreadyPresent = b\<rparr>);
                existing = ce_isFile ce h cert \<and> ce_isFile ce h key in
            (case (if existing then bindE (ce_readFile ce h cert) (\<lambda>pem. Inr (certificateCoversDomains ce pem ds)) else Inr False) of
               Inl e \<Rightarrow> (h, Inl e)
             | Inr True \<Rightarrow> (h, Inr (result True))
             | Inr False \<Rightarrow>
                 (case request_certificate ce (certbot_args existing ds email) h of
                    (h1, Inl e) \<Rightarrow> (h1, Inl e)
                  | (h1, Inr _) \<Rightarrow>
                      if ce_isFile ce h1 cert \<and> ce_isFile ce h1 key then (h1, Inr (result False))
                      else (h1, Inl (Error (''certbot completed but certificate files were not found in /etc/letsencrypt/live/'' @ hd ds))))))"

section \<open>Configurations\<close>

definition js_text :: "jsval \<Rightarrow> string option" where
  "js_text v = (case v of JStr s \<Rightarrow> Some s | _ \<Rightarrow> None)"

text \<open>\<open>https.letsEncryptDomains?.length ? https.letsEncryptDomains : [https.letsEncryptDomain]\<close>\<close>

definition wanted_domains :: "fields \<Rightarrow> jsval res" where
  "wanted_domains https =
     bindE (opt_prop (own https ''letsEncryptDomains'') ''length'') (\<lambda>n.
       Inr (if js_truthy n then own https ''letsEncryptDomains'' else JArr [own https ''letsEncryptDomain'']))"

definition with_certificate :: "certificate \<Rightarrow> fields \<Rightarrow> fields" where
  "with_certificate c https =
     AList.update ''keyPath'' (JStr (ct_keyPath c)) (AList.update ''certPath'' (JStr (ct_certPath c))
       (AList.update ''letsEncryptDomains'' (JArr (map JStr (ct_domains c)))
         (AList.update ''letsEncryptDomain'' (JStr (hd (ct_domains c))) (AList.update ''autoDetect'' (JBool True) https))))"

definition provision_listener :: "cert_env \<Rightarrow> jsval \<Rightarrow> cmd list \<Rightarrow> cmd list \<times> jsval res" where
  "provision_listener ce l h =
     (case js_prop l ''https'' of
        Inl e \<Rightarrow> (h, Inl e)
      | Inr (JObj https) \<Rightarrow>
          if \<not> js_truthy (own https ''enabled'') \<or> \<not> js_truthy (own https ''autoProvision'') then (h, Inr l)
          else (case wanted_domains https of
                  Inl e \<Rightarrow> (h, Inl e)
                | Inr ds \<Rightarrow>
                    (case ensureLetsEncryptCertificate ce (JArr (map JStr (normalizeLetsEncryptDomains ds)))
                            (js_text (own https ''letsEncryptEmail'')) h of
                       (h1, Inl e) \<Rightarrow> (h1, Inl e)
                     | (h1, Inr c) \<Rightarrow> (h1, Inr (JObj (AList.update ''https'' (JObj (with_certificate c https)) (spread l))))))
      | Inr _ \<Rightarrow> (h, Inr l))"

fun provision_listeners :: "cert_env \<Rightarrow> jsval list \<Rightarrow> cmd list \<Rightarrow> cmd list \<times> jsval list res" where
  "provision_listeners ce [] h = (h, Inr [])"
| "provision_listeners ce (l # ls) h =
     (case provision_listener ce l h of
        (h1, Inl e) \<Rightarrow> (h1, Inl e)
      | (h1, Inr l') \<Rightarrow>
          (case provision_listeners ce ls h1 of
             (h2, Inl e) \<Rightarrow> (h2, Inl e)
           | (h2, Inr ls') \<Rightarrow> (h2, Inr (l' # ls'))))"

text \<open>The listeners of a configuration that was validated are an array.\<close>

definition provisionConfiguredCertificates :: "cert_env \<Rightarrow> fields \<Rightarrow> cmd list \<Rightarrow> cmd list \<times> fields res" where
  "provisionConfiguredCertificates ce config h =
     (case own config ''listeners'' of
        JArr ls \<Rightarrow>
          (case provision_listeners ce ls h of
             (h1, Inl e) \<Rightarrow> (h1, Inl e)
           | (h1, Inr ls') \<Rightarrow> (h1, Inr (AList.update ''listeners'' (JArr ls') config)))
      | v \<Rightarrow> (h, if js_truthy v then Inl TypeError else Inr config))"

section \<open>Handlers\<close>

text \<open>The body of a request is an object.\<close>

definition prepare_config :: "fields \<Rightarrow> fields res" where
  "prepare_config config =
     bindE (opt_prop (own config ''sharedService'') ''enabled'') (\<lambda>b.
       let c1 = (if js_truthy b then AList.update ''listeners'' (JArr []) config else config) in
       Inr (if \<not> js_truthy (own c1 ''listeners'') then AList.update ''listeners'' (JArr []) c1 else c1))"

definition handle_put_config ::
  "(string \<Rightarrow> string option) \<Rightarrow> cert_env \<Rightarrow> js_error option \<Rightarrow> string \<Rightarrow> fields \<Rightarrow> cmd list \<Rightarrow> world \<Rightarrow> cmd list \<times> world \<times> reply" where
  "handle_put_config url_protocol ce io i body h w =
     (case getById i (w_sm w) of
        None \<Rightarrow> (h, w, Fail 404 ''Instance not found'')
      | Some x \<Rightarrow>
          (case prepare_config body of
             Inl e \<Rightarrow> (h, w, Crash e)
           | Inr config \<Rightarrow>
               (case validate url_protocol (JObj config) of
                  Inl e \<Rightarrow> (h, w, Crash e)
                | Inr errors \<Rightarrow>
                    if errors \<noteq> [] then (h, w, Invalid errors)
                    else (case provisionConfiguredCertificates ce config h of
                            (h1, Inl e) \<Rightarrow> (h1, w, Crash e)
                          | (h1, Inr c) \<Rightarrow>
                              (case config_write io (configPath x) (JObj c) (w_disk w) of
                                 (d, Inl e) \<Rightarrow> (h1, w\<lparr>w_disk := d\<rparr>, Crash e)
                               | (d, Inr _) \<Rightarrow> (h1, broadcast [MsgConfigUpdated i] (w\<lparr>w_disk := d\<rparr>), Success))))))"

definition listener_index :: "string \<Rightarrow> nat option" where
  "listener_index s = (case parseInt s of Some n \<Rightarrow> if n < 0 then None else Some (nat n) | None \<Rightarrow> None)"

record tls_faults =
  tf_mkdir :: "js_error option"
  tf_cert :: "js_error option"
  tf_key :: "js_error option"

definition handle_tls_assets :: "tls_faults \<Rightarrow> string \<Rightarrow> string \<Rightarrow> jsval \<Rightarrow> jsval \<Rightarrow> world \<Rightarrow> world \<times> reply" where
  "handle_tls_assets tf i index certPem keyPem w =
     (case getById i (w_sm w) of
        None \<Rightarrow> (w, Fail 404 ''Instance not found'')
      | Some x \<Rightarrow>
          (case listener_index index of
             None \<Rightarrow> (w, Fail 400 ''Invalid listener index'')
           | Some n \<Rightarrow>
               (case (js_text certPem, js_text keyPem) of
                  (Some c, k) \<Rightarrow>
                    if trim c = [] then (w, Fail 400 ''certPem is required'')
                    else (case k of
                            None \<Rightarrow> (w, Fail 400 ''keyPem is required'')
                          | Some key \<Rightarrow>
                              if trim key = [] then (w, Fail 400 ''keyPem is required'')
                              else
                                let dir = dataDir x @ ''/certs/listener-'' @ show_nat (n + 1);
                                    w1 = w\<lparr>w_binaries := AList.update (dir @ ''/fullchain.pem'') c (w_binaries w)\<rparr> in
                                (case (tf_mkdir tf, tf_cert tf, tf_key tf) of
                                   (Some e, _, _) \<Rightarrow> (w, Crash e)
                                 | (None, Some e, _) \<Rightarrow> (w, Crash e)
                                 | (None, None, Some e) \<Rightarrow> (w1, Crash e)
                                 | (None, None, None) \<Rightarrow>
                                     (w1\<lparr>w_binaries := AList.update (dir @ ''/privkey.pem'') key (w_binaries w1)\<rparr>, Success)))
                | (None, _) \<Rightarrow> (w, Fail 400 ''certPem is required''))))"

text \<open>\<open>config.listeners?.[index]\<close>; the listener then gets the certificate.\<close>

definition listener_at :: "jsval \<Rightarrow> nat \<Rightarrow> jsval" where
  "listener_at v n = (case v of JArr ls \<Rightarrow> if n < length ls then ls ! n else JUndef | JObj fs \<Rightarrow> own fs (show_nat n) | _ \<Rightarrow> JUndef)"

definition certified_https :: "certificate \<Rightarrow> string option \<Rightarrow> jsval \<Rightarrow> fields" where
  "certified_https c email https =
     AList.update ''keyPath'' (JStr (ct_keyPath c)) (AList.update ''certPath'' (JStr (ct_certPath c))
     (AList.update ''letsEncryptEmail'' (case email of None \<Rightarrow> JUndef | Some s \<Rightarrow> or_undef (JStr (trim s)))
     (AList.update ''letsEncryptDomains'' (JArr (map JStr (ct_domains c)))
     (AList.update ''letsEncryptDomain'' (JStr (hd (ct_domains c))) (AList.update ''autoProvision'' (JBool True)
     (AList.update ''autoDetect'' (JBool True) (AList.update ''enabled'' (JBool True) (spread https))))))))"

definition set_listener :: "certificate \<Rightarrow> string option \<Rightarrow> nat \<Rightarrow> fields \<Rightarrow> fields res" where
  "set_listener c email n config =
     (case (own config ''listeners'', listener_at (own config ''listeners'') n) of
        (JArr ls, JObj l) \<Rightarrow>
          Inr (AList.update ''listeners'' (JArr (ls[n := JObj (AList.update ''https''
                 (JObj (certified_https c email (own l ''https''))) l)])) config)
      | _ \<Rightarrow> Inl TypeError)"

definition handle_letsencrypt ::
  "cert_env \<Rightarrow> js_error option \<Rightarrow> js_error option \<Rightarrow> string \<Rightarrow> string \<Rightarrow> jsval \<Rightarrow> jsval \<Rightarrow> cmd list \<Rightarrow> world \<Rightarrow> cmd list \<times> world \<times> reply" where
  "handle_letsencrypt ce rd io i index domains email h w =
     (case getById i (w_sm w) of
        None \<Rightarrow> (h, w, Fail 404 ''Instance not found'')
      | Some x \<Rightarrow>
          (case listener_index index of
             None \<Rightarrow> (h, w, Fail 400 ''Invalid listener index'')
           | Some n \<Rightarrow>
               let ds = normalizeLetsEncryptDomains domains in
               (case validateLetsEncryptDomains ds of
                  Inl e \<Rightarrow> (h, w, Crash e)
                | Inr _ \<Rightarrow>
                    (case ensureLetsEncryptCertificate ce (JArr (map JStr ds)) (js_text email) h of
                       (h1, Inl e) \<Rightarrow> (h1, w, Crash e)
                     | (h1, Inr c) \<Rightarrow>
                         (case bindE (config_read rd (configPath x) (w_disk w)) (\<lambda>v. case v of JObj fs \<Rightarrow> Inr fs | _ \<Rightarrow> Inl TypeError) of
                            Inl e \<Rightarrow> (h1, w, Crash e)
                          | Inr config \<Rightarrow>
                              if \<not> js_truthy (listener_at (own config ''listeners'') n) then (h1, w, Fail 404 ''Listener not found'')
                              else (case set_listener c (js_text email) n config of
                                      Inl e \<Rightarrow> (h1, w, Crash e)
                                    | Inr c' \<Rightarrow>
                                        (case config_write io (configPath x) (JObj c') (w_disk w) of
                                           (d, Inl e) \<Rightarrow> (h1, w\<lparr>w_disk := d\<rparr>, Crash e)
                                         | (d, Inr _) \<Rightarrow> (h1, broadcast [MsgConfigUpdated i] (w\<lparr>w_disk := d\<rparr>), Success))))))))"

section \<open>The port is closed again\<close>

text \<open>A command without the prefix of sudo, the provider whose rule it adds, and the one whose rule it
  removes.\<close>

fun plain_cmd :: "cmd \<Rightarrow> cmd" where
  "plain_cmd (c, n # x # as) = (if c = ''sudo'' then (x, as) else (c, n # x # as))"
| "plain_cmd c = c"

definition opens :: "cmd \<Rightarrow> string option" where
  "opens c = map_of [((''ufw'', [''allow'', ''80/tcp'']), ''ufw''), ((''firewall-cmd'', [''--add-port=80/tcp'']), ''firewalld''),
     ((''iptables'', ''-I'' # acceptArgs), ''iptables'')] (plain_cmd c)"

definition closes :: "cmd \<Rightarrow> string option" where
  "closes c = map_of [((''ufw'', [''--force'', ''delete'', ''allow'', ''80/tcp'']), ''ufw''),
     ((''firewall-cmd'', [''--remove-port=80/tcp'']), ''firewalld''), ((''iptables'', ''-D'' # acceptArgs), ''iptables'')] (plain_cmd c)"

text \<open>The providers with a rule that was added and whose removal was not yet asked for, after the commands
  \<open>cs\<close> that follow \<open>h\<close>.\<close>

fun open_rules :: "cert_env \<Rightarrow> cmd list \<Rightarrow> string list \<Rightarrow> cmd list \<Rightarrow> string list" where
  "open_rules ce h rs [] = rs"
| "open_rules ce h rs (c # cs) =
     open_rules ce (h @ [c])
       (case opens c of
          Some p \<Rightarrow> (case child_result (fst c) (ce_shell ce h c) of Inl e \<Rightarrow> rs | Inr out \<Rightarrow> List.insert p rs)
        | None \<Rightarrow> (case closes c of Some p \<Rightarrow> removeAll p rs | None \<Rightarrow> rs)) cs"

lemma open_rules_append: "open_rules ce h rs (cs @ ds) = open_rules ce (h @ cs) (open_rules ce h rs cs) ds"
  by (induction cs arbitrary: h rs) simp_all

text \<open>The commands since \<open>h0\<close> leave the rules \<open>rs\<close> open.\<close>

definition leaves :: "cert_env \<Rightarrow> cmd list \<Rightarrow> string list \<Rightarrow> cmd list \<Rightarrow> bool" where
  "leaves ce h0 rs h \<longleftrightarrow> (\<exists>cs. h = h0 @ cs \<and> open_rules ce h0 [] cs = rs)"

lemma leaves_refl: "leaves ce h [] h"
  by (simp add: leaves_def)

lemma leaves_trans: "leaves ce h0 [] h1 \<Longrightarrow> leaves ce h1 rs h2 \<Longrightarrow> leaves ce h0 rs h2"
  by (auto simp: leaves_def open_rules_append)

lemma leaves_snoc:
  assumes "leaves ce h0 rs h"
  shows "leaves ce h0 (open_rules ce h rs [c]) (h @ [c])"
proof -
  obtain cs where "h = h0 @ cs" "open_rules ce h0 [] cs = rs" using assms by (auto simp: leaves_def)
  then show ?thesis by (intro exI [of _ "cs @ [c]"] leaves_def [THEN iffD2]) (simp add: open_rules_append)
qed

definition real_cmd :: "cert_env \<Rightarrow> cmd \<Rightarrow> cmd" where
  "real_cmd ce c = (if ce_root ce then c else (''sudo'', ''-n'' # fst c # snd c))"

lemma fst_runPrivileged: "fst (runPrivileged ce c h) = h @ [real_cmd ce c]"
  by (auto simp: runPrivileged_def runChildProcess_def real_cmd_def split: sum.split)

lemma snd_runPrivileged: "(\<exists>out. snd (runPrivileged ce c h) = Inr out) \<longleftrightarrow> (\<exists>out. child_result (fst (real_cmd ce c)) (ce_shell ce h (real_cmd ce c)) = Inr out)"
  by (auto simp: runPrivileged_def runChildProcess_def real_cmd_def split: sum.split)

lemma plain_real: "fst c \<noteq> ''sudo'' \<Longrightarrow> plain_cmd (real_cmd ce c) = c"
  by (cases c rule: plain_cmd.cases) (auto simp: real_cmd_def)

lemma opens_real: "fst c \<noteq> ''sudo'' \<Longrightarrow> opens (real_cmd ce c) = opens c \<and> closes (real_cmd ce c) = closes c"
  using plain_real [of c ce] plain_real [of c "ce\<lparr>ce_root := True\<rparr>"] by (simp add: opens_def closes_def real_cmd_def)

lemma leaves_quiet:
  assumes "leaves ce h0 rs h" and "fst c \<noteq> ''sudo''" and "opens c = None" and "closes c = None"
  shows "leaves ce h0 rs (fst (runPrivileged ce c h))"
  using leaves_snoc [OF assms(1), of "real_cmd ce c"] opens_real [OF assms(2), of ce] assms(3,4) by (simp add: fst_runPrivileged)

lemma leaves_open:
  assumes "leaves ce h0 [] h" and "fst c \<noteq> ''sudo''" and "opens c = Some p"
  shows "leaves ce h0 (if \<exists>out. snd (runPrivileged ce c h) = Inr out then [p] else []) (fst (runPrivileged ce c h))"
  using leaves_snoc [OF assms(1), of "real_cmd ce c"] opens_real [OF assms(2), of ce] assms(3)
  by (simp add: fst_runPrivileged snd_runPrivileged split: sum.splits)

lemma leaves_close:
  assumes "leaves ce h0 rs h" and "fst c \<noteq> ''sudo''" and "opens c = None" and "closes c = Some p"
  shows "leaves ce h0 (removeAll p rs) (fst (runPrivileged ce c h))"
  using leaves_snoc [OF assms(1), of "real_cmd ce c"] opens_real [OF assms(2), of ce] assms(3,4) by (simp add: fst_runPrivileged)

lemma leaves_which: "leaves ce h0 rs h \<Longrightarrow> leaves ce h0 rs (fst (commandExists ce x h))"
  using leaves_snoc [of ce h0 rs h "(''which'', [x])"]
  by (simp add: commandExists_def runChildProcess_def opens_def closes_def case_prod_beta)

text \<open>What a preparation leaves open: the rule its clean-up removes.\<close>

definition left_open :: "FirewallPreparation option \<Rightarrow> string list" where
  "left_open f = (case f of None \<Rightarrow> [] | Some g \<Rightarrow> if fw_changed g then [fw_provider g] else [])"

definition cleans_up :: "FirewallPreparation \<Rightarrow> bool" where
  "cleans_up f \<longleftrightarrow> (case fw_cleanup f of None \<Rightarrow> True | Some c \<Rightarrow> fst c \<noteq> ''sudo'' \<and> opens c = None \<and> closes c = Some (fw_provider f))"

definition prepared :: "cert_env \<Rightarrow> cmd list \<Rightarrow> cmd list \<times> FirewallPreparation option \<Rightarrow> bool" where
  "prepared ce h0 r \<longleftrightarrow> leaves ce h0 (left_open (snd r)) (fst r) \<and> (case snd r of None \<Rightarrow> True | Some f \<Rightarrow> cleans_up f)"

lemma command_kinds:
  shows "opens (''ufw'', [''status'']) = None" "closes (''ufw'', [''status'']) = None"
    "opens (''ufw'', [''allow'', ''80/tcp'']) = Some ''ufw''" "closes (''ufw'', [''allow'', ''80/tcp'']) = None"
    "opens (''ufw'', [''--force'', ''delete'', ''allow'', ''80/tcp'']) = None" "closes (''ufw'', [''--force'', ''delete'', ''allow'', ''80/tcp'']) = Some ''ufw''"
    "opens (''firewall-cmd'', [''--state'']) = None" "closes (''firewall-cmd'', [''--state'']) = None"
    "opens (''firewall-cmd'', [''--query-port=80/tcp'']) = None" "closes (''firewall-cmd'', [''--query-port=80/tcp'']) = None"
    "opens (''firewall-cmd'', [''--add-port=80/tcp'']) = Some ''firewalld''" "closes (''firewall-cmd'', [''--add-port=80/tcp'']) = None"
    "opens (''firewall-cmd'', [''--remove-port=80/tcp'']) = None" "closes (''firewall-cmd'', [''--remove-port=80/tcp'']) = Some ''firewalld''"
    "opens (''iptables'', ''-C'' # acceptArgs) = None" "closes (''iptables'', ''-C'' # acceptArgs) = None"
    "opens (''iptables'', ''-I'' # acceptArgs) = Some ''iptables''" "closes (''iptables'', ''-I'' # acceptArgs) = None"
    "opens (''iptables'', ''-D'' # acceptArgs) = None" "closes (''iptables'', ''-D'' # acceptArgs) = Some ''iptables''"
  by (simp_all add: opens_def closes_def acceptArgs_def)

lemma certbot_kind: "opens (''certbot'', as) = None" "closes (''certbot'', as) = None"
  by (cases "(''certbot'', as)" rule: plain_cmd.cases; simp add: opens_def closes_def acceptArgs_def)+

lemma prepared_ufw: "leaves ce h0 [] h \<Longrightarrow> prepared ce h0 (try_ufw ce h)"
proof -
  assume h: "leaves ce h0 [] h"
  obtain h1 r1 where 1: "runPrivileged ce (''ufw'', [''status'']) h = (h1, r1)" by fastforce
  have l1: "leaves ce h0 [] h1" using leaves_quiet [OF h, of "(''ufw'', [''status''])"] 1 by (simp add: command_kinds)
  obtain h2 r2 where 2: "runPrivileged ce (''ufw'', [''allow'', ''80/tcp'']) h1 = (h2, r2)" by fastforce
  have "leaves ce h0 (if \<exists>out. r2 = Inr out then [''ufw''] else []) h2"
    using leaves_open [OF l1, of "(''ufw'', [''allow'', ''80/tcp''])" "''ufw''"] 2 by (simp add: command_kinds)
  then show ?thesis using l1
    by (auto simp: try_ufw_def 1 2 prepared_def left_open_def fw_changed_def unchanged_def cleans_up_def command_kinds
        split: sum.splits if_splits)
qed

lemma prepared_firewalld: "leaves ce h0 [] h \<Longrightarrow> prepared ce h0 (try_firewalld ce h)"
proof -
  assume h: "leaves ce h0 [] h"
  obtain h1 r1 where 1: "runPrivileged ce (''firewall-cmd'', [''--state'']) h = (h1, r1)" by fastforce
  have l1: "leaves ce h0 [] h1" using leaves_quiet [OF h, of "(''firewall-cmd'', [''--state''])"] 1 by (simp add: command_kinds)
  obtain h2 r2 where 2: "runPrivileged ce (''firewall-cmd'', [''--query-port=80/tcp'']) h1 = (h2, r2)" by fastforce
  have l2: "leaves ce h0 [] h2" using leaves_quiet [OF l1, of "(''firewall-cmd'', [''--query-port=80/tcp''])"] 2 by (simp add: command_kinds)
  obtain h3 r3 where 3: "runPrivileged ce (''firewall-cmd'', [''--add-port=80/tcp'']) h2 = (h3, r3)" by fastforce
  have "leaves ce h0 (if \<exists>out. r3 = Inr out then [''firewalld''] else []) h3"
    using leaves_open [OF l2, of "(''firewall-cmd'', [''--add-port=80/tcp''])" "''firewalld''"] 3 by (simp add: command_kinds)
  then show ?thesis using l1 l2
    by (auto simp: try_firewalld_def 1 2 3 prepared_def left_open_def fw_changed_def unchanged_def cleans_up_def command_kinds
        split: sum.splits if_splits)
qed

lemma prepared_installed:
  assumes "\<And>h. leaves ce h0 [] h \<Longrightarrow> prepared ce h0 (f h)" and "leaves ce h0 [] h"
  shows "prepared ce h0 (if_installed ce c f h)"
  using leaves_which [OF assms(2), of c] assms(1)
  by (simp add: if_installed_def case_prod_beta prepared_def left_open_def)

text \<open>The same for a preparation that may fail.\<close>

definition prepared_res :: "cert_env \<Rightarrow> cmd list \<Rightarrow> cmd list \<times> FirewallPreparation res \<Rightarrow> bool" where
  "prepared_res ce h0 r \<longleftrightarrow> prepared ce h0 (fst r, case snd r of Inl e \<Rightarrow> None | Inr f \<Rightarrow> Some f)"

lemma prepared_iptables: "leaves ce h0 [] h \<Longrightarrow> prepared_res ce h0 (try_iptables ce h)"
proof -
  assume h: "leaves ce h0 [] h"
  obtain h1 r1 where 1: "runPrivileged ce (''iptables'', ''-C'' # acceptArgs) h = (h1, r1)" by fastforce
  have l1: "leaves ce h0 [] h1" using leaves_quiet [OF h, of "(''iptables'', ''-C'' # acceptArgs)"] 1 by (simp add: command_kinds)
  obtain h2 r2 where 2: "runPrivileged ce (''iptables'', ''-I'' # acceptArgs) h1 = (h2, r2)" by fastforce
  have "leaves ce h0 (if \<exists>out. r2 = Inr out then [''iptables''] else []) h2"
    using leaves_open [OF l1, of "(''iptables'', ''-I'' # acceptArgs)" "''iptables''"] 2 by (simp add: command_kinds)
  then show ?thesis using l1
    by (cases r1; cases r2)
      (simp_all add: try_iptables_def 1 2 prepared_res_def prepared_def left_open_def fw_changed_def unchanged_def cleans_up_def command_kinds)
qed

lemma prepared_skip: "prepared ce h0 (h, None) \<Longrightarrow> leaves ce h0 [] h"
  by (simp add: prepared_def left_open_def)

lemma prepared_firewall: "prepared_res ce h (prepareHttp01Firewall ce h)"
proof -
  obtain ha ra where a: "if_installed ce ''ufw'' (try_ufw ce) h = (ha, ra)" by fastforce
  have pa: "prepared ce h (ha, ra)"
    unfolding a [symmetric] by (rule prepared_installed) (rule prepared_ufw, assumption, rule leaves_refl)
  obtain hb rb where b: "if_installed ce ''firewall-cmd'' (try_firewalld ce) ha = (hb, rb)" by fastforce
  have pb: "prepared ce h (hb, rb)" if "ra = None"
    unfolding b [symmetric] by (rule prepared_installed) (rule prepared_firewalld, assumption, rule prepared_skip, rule pa [unfolded that])
  obtain hc rc where c: "commandExists ce ''iptables'' hb = (hc, rc)" by fastforce
  have lc: "leaves ce h [] hc" if "ra = None" "rb = None"
    using leaves_which [OF prepared_skip, of ce h hb "''iptables''"] pb c that by simp
  have "prepared_res ce h (if rc then try_iptables ce hc else (hc, Inr (unchanged ''none'')))" if "ra = None" "rb = None"
    using prepared_iptables [OF lc] lc that
    by (simp add: prepared_res_def prepared_def left_open_def fw_changed_def unchanged_def cleans_up_def)
  then show ?thesis using pa pb
    by (cases ra; cases rb) (simp_all add: prepareHttp01Firewall_def a b c prepared_res_def)
qed

lemma request_closes: "leaves ce h [] (fst (request_certificate ce args h))"
proof -
  obtain h1 r1 where 1: "prepareHttp01Firewall ce h = (h1, r1)" by fastforce
  have p: "prepared_res ce h (h1, r1)" using prepared_firewall [of ce h] 1 by simp
  show ?thesis
  proof (cases r1)
    case (Inl e)
    then show ?thesis using p 1 by (simp add: request_certificate_def prepared_res_def prepared_def left_open_def)
  next
    case (Inr f)
    obtain h2 r2 where 2: "runPrivileged ce (''certbot'', args) h1 = (h2, r2)" by fastforce
    have l1: "leaves ce h (if fw_changed f then [fw_provider f] else []) h1" and cl: "cleans_up f"
      using p Inr by (simp_all add: prepared_res_def prepared_def left_open_def)
    have l2: "leaves ce h (if fw_changed f then [fw_provider f] else []) h2"
      using leaves_quiet [OF l1, of "(''certbot'', args)"] 2 by (simp add: certbot_kind)
    show ?thesis
    proof (cases "fw_cleanup f")
      case None
      then show ?thesis using l2 1 2 Inr by (simp add: request_certificate_def fw_changed_def)
    next
      case (Some c)
      then show ?thesis using leaves_close [OF l2, of c "fw_provider f"] cl 1 2 Inr
        by (simp add: request_certificate_def cleans_up_def fw_changed_def)
    qed
  qed
qed

lemma valid_domains:
  "validateLetsEncryptDomains ds = Inr u \<longleftrightarrow> ds \<noteq> [] \<and> list_all LETS_ENCRYPT_DOMAIN_PATTERN ds"
proof -
  have "check_domains ds = Inr u \<longleftrightarrow> list_all LETS_ENCRYPT_DOMAIN_PATTERN ds" by (induction ds) auto
  then show ?thesis by (simp add: validateLetsEncryptDomains_def)
qed

section \<open>What the handlers keep of the commands\<close>

text \<open>A relation between the commands before and after that every request for valid domains establishes is
  established by every handler.\<close>

locale command_log =
  fixes R :: "cert_env \<Rightarrow> cmd list \<Rightarrow> cmd list \<Rightarrow> bool"
  assumes log_refl: "R ce h h"
    and log_trans: "R ce h h1 \<Longrightarrow> R ce h1 h2 \<Longrightarrow> R ce h h2"
    and log_request: "ds \<noteq> [] \<Longrightarrow> list_all LETS_ENCRYPT_DOMAIN_PATTERN ds \<Longrightarrow>
      R ce h (fst (request_certificate ce (certbot_args b ds email) h))"
begin

lemma log_ensure: "R ce h (fst (ensureLetsEncryptCertificate ce v email h))"
proof (cases "validateLetsEncryptDomains (normalizeLetsEncryptDomains v)")
  case (Inl e)
  then show ?thesis by (simp add: ensureLetsEncryptCertificate_def Let_def log_refl)
next
  case (Inr u)
  let ?ds = "normalizeLetsEncryptDomains v"
  have r: "R ce h (fst (request_certificate ce (certbot_args b ?ds email) h))" for b
    using Inr valid_domains [of ?ds] by (intro log_request) simp_all
  then show ?thesis using Inr
    by (simp add: ensureLetsEncryptCertificate_def Let_def case_prod_beta log_refl split: sum.split bool.split)
qed

lemma log_listener: "R ce h (fst (provision_listener ce l h))"
proof (cases "\<exists>https ds. js_prop l ''https'' = Inr (JObj https) \<and> wanted_domains https = Inr ds")
  case True
  then obtain https ds where hd: "js_prop l ''https'' = Inr (JObj https)" "wanted_domains https = Inr ds" by blast
  let ?e = "ensureLetsEncryptCertificate ce (JArr (map JStr (normalizeLetsEncryptDomains ds))) (js_text (own https ''letsEncryptEmail'')) h"
  obtain h1 r1 where 1: "?e = (h1, r1)" by fastforce
  have "R ce h h1" using log_ensure [of ce h] 1 by (metis fst_conv)
  then show ?thesis using hd 1 by (simp add: provision_listener_def log_refl split: sum.split)
next
  case False
  then show ?thesis by (auto simp: provision_listener_def log_refl split: sum.split jsval.split)
qed

lemma log_listeners: "R ce h (fst (provision_listeners ce ls h))"
proof (induction ls arbitrary: h)
  case Nil
  then show ?case by (simp add: log_refl)
next
  case (Cons l ls)
  obtain h1 r1 where 1: "provision_listener ce l h = (h1, r1)" by fastforce
  obtain h2 r2 where 2: "provision_listeners ce ls h1 = (h2, r2)" by fastforce
  have "R ce h h1" "R ce h1 h2" using log_listener [of ce h l] Cons.IH [of h1] 1 2 by simp_all
  then show ?case using 1 2 log_trans [of ce h h1 h2] by (simp split: sum.split)
qed

lemma log_provision: "R ce h (fst (provisionConfiguredCertificates ce config h))"
proof (cases "own config ''listeners''")
  case (JArr ls)
  obtain h1 r1 where 1: "provision_listeners ce ls h = (h1, r1)" by fastforce
  then show ?thesis using JArr log_listeners [of ce h ls] by (simp add: provisionConfiguredCertificates_def split: sum.split)
qed (simp_all add: provisionConfiguredCertificates_def log_refl)

lemma log_put_config: "R ce h (fst (handle_put_config up ce io i body h w))"
proof (cases "\<exists>c. prepare_config body = Inr c")
  case True
  then obtain c where c: "prepare_config body = Inr c" by blast
  obtain h1 r1 where 1: "provisionConfiguredCertificates ce c h = (h1, r1)" by fastforce
  have "R ce h h1" using log_provision [of ce h c] 1 by simp
  then show ?thesis using c 1
    by (auto simp: handle_put_config_def log_refl case_prod_beta split: option.split sum.split)
next
  case False
  then show ?thesis by (auto simp: handle_put_config_def log_refl split: option.split sum.split)
qed

lemma log_letsencrypt: "R ce h (fst (handle_letsencrypt ce rd io i index ds email h w))"
proof -
  obtain h1 r1 where 1: "ensureLetsEncryptCertificate ce (JArr (map JStr (normalizeLetsEncryptDomains ds))) (js_text email) h = (h1, r1)"
    by fastforce
  have "R ce h h1" using log_ensure [of ce h] 1 by (metis fst_conv)
  then show ?thesis using 1
    by (auto simp: handle_letsencrypt_def log_refl Let_def case_prod_beta split: option.split sum.split)
qed

end

interpretation fwl: command_log "\<lambda>ce h h'. leaves ce h [] h'"
  by unfold_locales (rule leaves_refl, rule leaves_trans, assumption+, rule request_closes)

section \<open>What certbot is asked for\<close>

text \<open>The values of the options that name a certificate or a domain.\<close>

fun named_domains :: "string list \<Rightarrow> string list" where
  "named_domains (o1 # v # as) =
     (if o1 = ''--email'' then named_domains as
      else if o1 = ''--cert-name'' \<or> o1 = ''--domain'' then v # named_domains as
      else named_domains (v # as))"
| "named_domains _ = []"

definition certbot_domains :: "cmd \<Rightarrow> string list" where
  "certbot_domains c = (if fst (plain_cmd c) = ''certbot'' then named_domains (snd (plain_cmd c)) else [])"

lemma named_domains_args: "ds \<noteq> [] \<Longrightarrow> named_domains (certbot_args b ds email) = hd ds # ds"
proof -
  have "named_domains (concat (map (\<lambda>d. [''--domain'', d]) ds)) = ds" by (induction ds) simp_all
  then show ?thesis by (cases ds) (simp_all add: certbot_args_def Let_def)
qed

text \<open>The commands that follow \<open>h\<close> name valid domains only.\<close>

definition names_valid :: "cmd list \<Rightarrow> cmd list \<Rightarrow> bool" where
  "names_valid h h' \<longleftrightarrow> (\<exists>cs. h' = h @ cs \<and> list_all (\<lambda>c. list_all LETS_ENCRYPT_DOMAIN_PATTERN (certbot_domains c)) cs)"

lemma names_valid_refl: "names_valid h h"
  by (simp add: names_valid_def)

lemma names_valid_trans: "names_valid h h1 \<Longrightarrow> names_valid h1 h2 \<Longrightarrow> names_valid h h2"
  by (auto simp: names_valid_def)

lemma names_valid_privileged:
  "fst c \<noteq> ''sudo'' \<Longrightarrow> (fst c = ''certbot'' \<Longrightarrow> list_all LETS_ENCRYPT_DOMAIN_PATTERN (named_domains (snd c))) \<Longrightarrow>
   names_valid h (fst (runPrivileged ce c h))"
  by (simp add: names_valid_def fst_runPrivileged certbot_domains_def plain_real)

lemma names_valid_plain: "fst c \<noteq> ''sudo'' \<Longrightarrow> fst c \<noteq> ''certbot'' \<Longrightarrow> names_valid h (fst (runPrivileged ce c h))"
  by (rule names_valid_privileged) simp_all

lemma names_valid_step:
  "names_valid h h1 \<Longrightarrow> fst c \<noteq> ''sudo'' \<Longrightarrow> fst c \<noteq> ''certbot'' \<Longrightarrow> names_valid h (fst (runPrivileged ce c h1))"
  by (rule names_valid_trans, assumption, rule names_valid_plain)

lemma names_valid_which: "names_valid h h1 \<Longrightarrow> names_valid h (fst (commandExists ce x h1))"
  by (rule names_valid_trans, assumption)
    (simp add: names_valid_def commandExists_def runChildProcess_def certbot_domains_def case_prod_beta)

lemma names_valid_ufw: "names_valid h (fst (try_ufw ce h))"
proof -
  obtain h1 r1 where 1: "runPrivileged ce (''ufw'', [''status'']) h = (h1, r1)" by fastforce
  obtain h2 r2 where 2: "runPrivileged ce (''ufw'', [''allow'', ''80/tcp'']) h1 = (h2, r2)" by fastforce
  have "names_valid h h1" "names_valid h h2"
    using names_valid_plain [of "(''ufw'', [''status''])" h ce] names_valid_step [of h h1 "(''ufw'', [''allow'', ''80/tcp''])" ce] 1 2 by simp_all
  then show ?thesis by (simp add: try_ufw_def 1 2 split: sum.split)
qed

lemma names_valid_firewalld: "names_valid h (fst (try_firewalld ce h))"
proof -
  obtain h1 r1 where 1: "runPrivileged ce (''firewall-cmd'', [''--state'']) h = (h1, r1)" by fastforce
  obtain h2 r2 where 2: "runPrivileged ce (''firewall-cmd'', [''--query-port=80/tcp'']) h1 = (h2, r2)" by fastforce
  obtain h3 r3 where 3: "runPrivileged ce (''firewall-cmd'', [''--add-port=80/tcp'']) h2 = (h3, r3)" by fastforce
  have n: "names_valid h h1" "names_valid h h2"
    using names_valid_plain [of "(''firewall-cmd'', [''--state''])" h ce]
      names_valid_step [of h h1 "(''firewall-cmd'', [''--query-port=80/tcp''])" ce] 1 2 by simp_all
  moreover have "names_valid h h3" using names_valid_step [of h h2 "(''firewall-cmd'', [''--add-port=80/tcp''])" ce] n 3 by simp
  ultimately show ?thesis by (simp add: try_firewalld_def 1 2 3 split: sum.split)
qed

lemma names_valid_iptables: "names_valid h (fst (try_iptables ce h))"
proof -
  obtain h1 r1 where 1: "runPrivileged ce (''iptables'', ''-C'' # acceptArgs) h = (h1, r1)" by fastforce
  obtain h2 r2 where 2: "runPrivileged ce (''iptables'', ''-I'' # acceptArgs) h1 = (h2, r2)" by fastforce
  have "names_valid h h1" "names_valid h h2"
    using names_valid_plain [of "(''iptables'', ''-C'' # acceptArgs)" h ce] names_valid_step [of h h1 "(''iptables'', ''-I'' # acceptArgs)" ce] 1 2
    by simp_all
  then show ?thesis by (simp add: try_iptables_def 1 2 split: sum.split)
qed

lemma names_valid_installed: "(\<And>h. names_valid h (fst (f h))) \<Longrightarrow> names_valid h (fst (if_installed ce c f h))"
  using names_valid_which [OF names_valid_refl, of h ce c]
  by (simp add: if_installed_def case_prod_beta) (metis names_valid_trans)

lemma names_valid_firewall: "names_valid h (fst (prepareHttp01Firewall ce h))"
proof -
  obtain h1 r1 where 1: "if_installed ce ''ufw'' (try_ufw ce) h = (h1, r1)" by fastforce
  obtain h2 r2 where 2: "if_installed ce ''firewall-cmd'' (try_firewalld ce) h1 = (h2, r2)" by fastforce
  obtain h3 r3 where 3: "commandExists ce ''iptables'' h2 = (h3, r3)" by fastforce
  have n1: "names_valid h h1" using names_valid_installed [of "try_ufw ce" h ce "''ufw''", OF names_valid_ufw] 1 by simp
  have n2: "names_valid h h2"
    using names_valid_trans [OF n1] names_valid_installed [of "try_firewalld ce" h1 ce "''firewall-cmd''", OF names_valid_firewalld] 2 by simp
  have n3: "names_valid h h3" using names_valid_which [OF n2, of ce "''iptables''"] 3 by simp
  show ?thesis using n1 n2 n3 names_valid_trans [OF n3 names_valid_iptables [of h3 ce]]
    by (simp add: prepareHttp01Firewall_def 1 2 3 split: option.split)
qed

lemma cleanup_plain: "cleans_up f \<Longrightarrow> fw_cleanup f = Some c \<Longrightarrow> fst c \<noteq> ''sudo'' \<and> fst c \<noteq> ''certbot''"
  using certbot_kind(2) [of "snd c"] by (cases c) (auto simp: cleans_up_def)

lemma names_valid_request:
  assumes "ds \<noteq> []" and "list_all LETS_ENCRYPT_DOMAIN_PATTERN ds"
  shows "names_valid h (fst (request_certificate ce (certbot_args b ds email) h))"
proof -
  let ?c = "(''certbot'', certbot_args b ds email)"
  obtain h1 r1 where 1: "prepareHttp01Firewall ce h = (h1, r1)" by fastforce
  have n1: "names_valid h h1" using names_valid_firewall [of h ce] 1 by simp
  have cl: "cleans_up f" if "r1 = Inr f" for f
    using prepared_firewall [of ce h] 1 that by (simp add: prepared_res_def prepared_def)
  obtain h2 r2 where 2: "runPrivileged ce ?c h1 = (h2, r2)" by fastforce
  have v: "list_all LETS_ENCRYPT_DOMAIN_PATTERN (named_domains (snd ?c))"
    using assms by (cases ds) (simp_all add: named_domains_args)
  have n2: "names_valid h h2" using names_valid_trans [OF n1] names_valid_privileged [of ?c h1 ce] v 2 by simp
  have n3: "names_valid h (fst (runPrivileged ce c h2))" if "r1 = Inr f" "fw_cleanup f = Some c" for f c
    using names_valid_step [OF n2] cleanup_plain [OF cl that(2)] that by simp
  show ?thesis using n1 n2 n3 by (auto simp: request_certificate_def 1 2 split: sum.split option.split)
qed

interpretation nvl: command_log "\<lambda>ce h h'. names_valid h h'"
  by unfold_locales (rule names_valid_refl, rule names_valid_trans, assumption+, rule names_valid_request, assumption+)

text \<open>C20: Saving a configuration or asking for a certificate leaves port 80 as it was: for every rule a
  firewall command added during the handler, the removal is asked for before the handler answers,
  whether certbot, the firewall or any other command succeeds or fails.\<close>

theorem firewall_restored:
  "open_rules ce [] [] (fst (handle_put_config up ce io i body [] w)) = [] \<and>
   open_rules ce [] [] (fst (handle_letsencrypt ce rd io i index domains email [] w)) = []"
  using fwl.log_put_config [of ce "[]" up io i body w] fwl.log_letsencrypt [of ce "[]" rd io i index domains email w]
  by (simp add: leaves_def)

lemma split_char_chars: "x \<in> set s \<Longrightarrow> x = c \<or> (\<exists>l \<in> set (split_char c s). x \<in> set l)"
  by (induction s) (auto split: list.splits)

lemma split_char_hd: "s \<noteq> [] \<Longrightarrow> hd (split_char c s) \<noteq> [] \<Longrightarrow> hd (hd (split_char c s)) = hd s"
  by (cases s) (auto split: list.splits)

lemma domain_chars:
  assumes "LETS_ENCRYPT_DOMAIN_PATTERN d"
  shows "hd d \<noteq> CHR ''-'' \<and> CHR ''/'' \<notin> set d"
proof
  have l: "\<forall>l \<in> set (split_char (CHR ''.'') d). host_label l" and d: "d \<noteq> []"
    using assms by (auto simp: LETS_ENCRYPT_DOMAIN_PATTERN_def Let_def list_all_iff)
  have "host_label (hd (split_char (CHR ''.'') d))" using l by simp
  then have "alnum_i (hd d)" using split_char_hd [OF d, of "CHR ''.''"] by (simp add: host_label_def)
  moreover have "\<not> alnum_i (CHR ''-'')" and s: "\<not> alnum_i (CHR ''/'')" by (simp_all add: alnum_i_def is_digit_def)
  ultimately show "hd d \<noteq> CHR ''-''" by metis
  have "CHR ''/'' \<notin> set x" if "host_label x" for x using that s by (auto simp: host_label_def list_all_iff)
  then show "CHR ''/'' \<notin> set d" using split_char_chars [of "CHR ''/''" d "CHR ''.''"] l by auto
qed

text \<open>C22: Every certificate name and every domain the handlers pass to certbot is a host name of at least two
  labels; it does not start with a dash and has no slash, so no domain of a request is read as an
  option or leads out of the directory of certificates.\<close>

theorem certbot_names_valid:
  "list_all (\<lambda>c. list_all (\<lambda>d. LETS_ENCRYPT_DOMAIN_PATTERN d \<and> hd d \<noteq> CHR ''-'' \<and> CHR ''/'' \<notin> set d) (certbot_domains c))
     (fst (handle_put_config up ce io i body [] w) @ fst (handle_letsencrypt ce rd io i index domains email [] w))"
proof -
  have "list_all (\<lambda>c. list_all LETS_ENCRYPT_DOMAIN_PATTERN (certbot_domains c))
     (fst (handle_put_config up ce io i body [] w) @ fst (handle_letsencrypt ce rd io i index domains email [] w))"
    using nvl.log_put_config [of "[]" up ce io i body w] nvl.log_letsencrypt [of "[]" ce rd io i index domains email w]
    by (simp add: names_valid_def)
  then show ?thesis by (rule list.pred_mono_strong) (erule list.pred_mono_strong, simp add: domain_chars)
qed

end
