(* ===== verification/LogView.thy ===== *)
theory LogView
  imports Utf8
begin

text \<open>
  The log lines of the pages, of \<open>FerrumGUI/frontend/src/utils/ansi.ts\<close>: terminal colours become the HTML
  that the consoles set as inner HTML, on lists of UTF-16 code units.
\<close>

section \<open>Escape sequences\<close>

definition ESC :: nat where
  "ESC = 27"

definition code_unit :: "nat \<Rightarrow> bool" where
  "code_unit u \<longleftrightarrow> 48 \<le> u \<and> u \<le> 57 \<or> u = 59"

text \<open>The pattern \<open>ESC \[([0-9;]*)m\<close> at the start: the codes and what follows.\<close>

definition ansi_match :: "units \<Rightarrow> (units \<times> units) option" where
  "ansi_match s =
     (case s of
        e # b # r \<Rightarrow>
          if e = ESC \<and> b = 91 then
            (case dropWhile code_unit r of
               x # rest \<Rightarrow> if x = 109 then Some (takeWhile code_unit r, rest) else None
             | [] \<Rightarrow> None)
          else None
      | _ \<Rightarrow> None)"

lemma ansi_match_length: "ansi_match s = Some (code, rest) \<Longrightarrow> length rest < length s"
proof -
  assume "ansi_match s = Some (code, rest)"
  then obtain e b r x where s: "s = e # b # r" and d: "dropWhile code_unit r = x # rest"
    by (auto simp: ansi_match_def split: list.splits if_splits)
  show ?thesis using length_dropWhile_le [of code_unit r] s d by simp
qed

function stripAnsi :: "units \<Rightarrow> units" where
  "stripAnsi [] = []"
| "stripAnsi (c # cs) = (case ansi_match (c # cs) of Some (code, rest) \<Rightarrow> stripAnsi rest | None \<Rightarrow> c # stripAnsi cs)"
  by pat_completeness auto
termination
  by (relation "measure length") (auto dest: ansi_match_length)

section \<open>Styles\<close>

record AnsiStyle =
  st_color :: "units option"
  st_backgroundColor :: "units option"
  st_bold :: bool
  st_italic :: bool
  st_underline :: bool

definition no_style :: AnsiStyle where
  "no_style = \<lparr>st_color = None, st_backgroundColor = None, st_bold = False, st_italic = False, st_underline = False\<rparr>"

definition ANSI_COLORS :: "(units \<times> units) list" where
  "ANSI_COLORS = map (\<lambda>(k, v). (lit k, lit v))
     [(''30'', ''#000000''), (''31'', ''#e74856''), (''32'', ''#16c60c''), (''33'', ''#f9f1a5''),
      (''34'', ''#3b78ff''), (''35'', ''#b4009e''), (''36'', ''#61d6d6''), (''37'', ''#cccccc''),
      (''90'', ''#767676''), (''91'', ''#e74856''), (''92'', ''#16c60c''), (''93'', ''#f9f1a5''),
      (''94'', ''#3b78ff''), (''95'', ''#b4009e''), (''96'', ''#61d6d6''), (''97'', ''#f2f2f2'')]"

definition ANSI_BG_COLORS :: "(units \<times> units) list" where
  "ANSI_BG_COLORS = map (\<lambda>(k, v). (lit k, lit v))
     [(''40'', ''#000000''), (''41'', ''#e74856''), (''42'', ''#16c60c''), (''43'', ''#f9f1a5''),
      (''44'', ''#3b78ff''), (''45'', ''#b4009e''), (''46'', ''#61d6d6''), (''47'', ''#cccccc''),
      (''100'', ''#767676''), (''101'', ''#e74856''), (''102'', ''#16c60c''), (''103'', ''#f9f1a5''),
      (''104'', ''#3b78ff''), (''105'', ''#b4009e''), (''106'', ''#61d6d6''), (''107'', ''#f2f2f2'')]"

text \<open>\<open>parseInt\<close> of a non-empty code of digits.\<close>

definition code_number :: "units \<Rightarrow> nat" where
  "code_number ds = foldl (\<lambda>n d. 10 * n + (d - 48)) 0 ds"

definition apply_code :: "AnsiStyle \<Rightarrow> units \<Rightarrow> AnsiStyle" where
  "apply_code st code =
     (let num = code_number code in
      if num = 0 then no_style
      else if num = 1 then st\<lparr>st_bold := True\<rparr>
      else if num = 3 then st\<lparr>st_italic := True\<rparr>
      else if num = 4 then st\<lparr>st_underline := True\<rparr>
      else case map_of ANSI_COLORS code of
             Some c \<Rightarrow> st\<lparr>st_color := Some c\<rparr>
           | None \<Rightarrow> (case map_of ANSI_BG_COLORS code of Some c \<Rightarrow> st\<lparr>st_backgroundColor := Some c\<rparr> | None \<Rightarrow> st))"

fun split_unit :: "nat \<Rightarrow> units \<Rightarrow> units list" where
  "split_unit u [] = [[]]"
| "split_unit u (x # xs) =
     (if x = u then [] # split_unit u xs else (case split_unit u xs of [] \<Rightarrow> [[x]] | l # ls \<Rightarrow> (x # l) # ls))"

definition apply_codes :: "AnsiStyle \<Rightarrow> units \<Rightarrow> AnsiStyle" where
  "apply_codes st codes = foldl apply_code st (filter (\<lambda>c. c \<noteq> []) (split_unit 59 codes))"

section \<open>The parts of a line\<close>

text \<open>\<open>regex.exec\<close> from the last index: the text before the next sequence, its codes, and the rest.\<close>

fun next_match :: "units \<Rightarrow> (units \<times> units \<times> units) option" where
  "next_match [] = None"
| "next_match (c # cs) =
     (case ansi_match (c # cs) of
        Some (code, rest) \<Rightarrow> Some ([], code, rest)
      | None \<Rightarrow> (case next_match cs of None \<Rightarrow> None | Some (pre, code, rest) \<Rightarrow> Some (c # pre, code, rest)))"

lemma next_match_length: "next_match s = Some (pre, code, rest) \<Longrightarrow> length rest < length s"
  by (induction s arbitrary: pre) (auto split: option.splits dest: ansi_match_length)

definition add_part :: "units \<Rightarrow> AnsiStyle \<Rightarrow> (units \<times> AnsiStyle) list" where
  "add_part t st = (if t = [] then [] else [(t, st)])"

function ansi_parts :: "AnsiStyle \<Rightarrow> units \<Rightarrow> (units \<times> AnsiStyle) list" where
  "ansi_parts st s =
     (case next_match s of
        None \<Rightarrow> add_part s st
      | Some (pre, code, rest) \<Rightarrow> add_part pre st @ ansi_parts (apply_codes st code) rest)"
  by pat_completeness auto
termination
  by (relation "measure (\<lambda>(st, s). length s)") (auto dest: next_match_length)

declare ansi_parts.simps [simp del]

section \<open>HTML\<close>

definition replace_unit :: "nat \<Rightarrow> string \<Rightarrow> units \<Rightarrow> units" where
  "replace_unit u r t = concat (map (\<lambda>x. if x = u then lit r else [x]) t)"

definition escapeHtml :: "units \<Rightarrow> units" where
  "escapeHtml t =
     replace_unit 39 ''&#039;'' (replace_unit 34 ''&quot;'' (replace_unit 62 ''&gt;'' (replace_unit 60 ''&lt;''
       (replace_unit 38 ''&amp;'' t))))"

definition style_css :: "AnsiStyle \<Rightarrow> units list" where
  "style_css st =
     (case st_color st of None \<Rightarrow> [] | Some c \<Rightarrow> [lit ''color: '' @ c]) @
     (case st_backgroundColor st of None \<Rightarrow> [] | Some c \<Rightarrow> [lit ''background-color: '' @ c]) @
     (if st_bold st then [lit ''font-weight: bold''] else []) @
     (if st_italic st then [lit ''font-style: italic''] else []) @
     (if st_underline st then [lit ''text-decoration: underline''] else [])"

fun join_units :: "units \<Rightarrow> units list \<Rightarrow> units" where
  "join_units sep [] = []"
| "join_units sep [x] = x"
| "join_units sep (x # y # zs) = x @ sep @ join_units sep (y # zs)"

definition part_html :: "units \<times> AnsiStyle \<Rightarrow> units" where
  "part_html p =
     (case p of (t, st) \<Rightarrow>
        if st = no_style then escapeHtml t
        else lit ''<span style='' @ [34] @ join_units (lit ''; '') (style_css st) @ [34] @ lit ''>'' @ escapeHtml t @ lit ''</span>'')"

definition ansiToHtml :: "units \<Rightarrow> units" where
  "ansiToHtml text = concat (map part_html (ansi_parts no_style text))"

text \<open>The corners and crossings, the horizontal and the vertical line of the box-drawing block.\<close>

definition plain_box :: "nat \<Rightarrow> nat" where
  "plain_box u =
     (if u \<in> set [0x250C, 0x2510, 0x2514, 0x2518, 0x251C, 0x2524, 0x252C, 0x2534, 0x253C] then 43
      else if u = 0x2500 then 45 else if u = 0x2502 then 124 else u)"

definition formatLogMessage :: "units \<Rightarrow> units" where
  "formatLogMessage message = ansiToHtml (map plain_box message)"

section \<open>Reading HTML\<close>

text \<open>A reader of HTML text: tags up to their closing angle bracket, the named references the page knows, and
  plain units.\<close>

datatype token = Tag units | Txt nat

definition references :: "(string \<times> nat) list" where
  "references = [(''amp;'', 38), (''lt;'', 60), (''gt;'', 62), (''quot;'', 34), (''#039;'', 39)]"

definition reference :: "units \<Rightarrow> (nat \<times> units) option" where
  "reference s =
     (case filter (\<lambda>(n, u). take (length n) s = lit n) references of
        [] \<Rightarrow> None
      | (n, u) # _ \<Rightarrow> Some (u, drop (length n) s))"

lemma reference_length: "reference s = Some (u, rest) \<Longrightarrow> length rest \<le> length s"
  by (auto simp: reference_def split: list.splits)

function tokens :: "units \<Rightarrow> token list" where
  "tokens [] = []"
| "tokens (c # cs) =
     (if c = 60 then Tag (takeWhile (\<lambda>u. u \<noteq> 62) cs) # tokens (drop 1 (dropWhile (\<lambda>u. u \<noteq> 62) cs))
      else if c = 38 then (case reference cs of Some (u, rest) \<Rightarrow> Txt u # tokens rest | None \<Rightarrow> Txt c # tokens cs)
      else Txt c # tokens cs)"
  by pat_completeness auto
termination
  by (relation "measure length") (auto dest: reference_length simp: le_imp_less_Suc diff_le_self order_trans [OF diff_le_self length_dropWhile_le])

fun token_text :: "token list \<Rightarrow> units" where
  "token_text [] = []"
| "token_text (Txt u # ts) = u # token_text ts"
| "token_text (Tag t # ts) = token_text ts"

fun token_tags :: "token list \<Rightarrow> units list" where
  "token_tags [] = []"
| "token_tags (Txt u # ts) = token_tags ts"
| "token_tags (Tag t # ts) = t # token_tags ts"

definition html_text :: "units \<Rightarrow> units" where
  "html_text s = token_text (tokens s)"

definition html_tags :: "units \<Rightarrow> units list" where
  "html_tags s = token_tags (tokens s)"

lemma token_append [simp]:
  "token_text (xs @ ys) = token_text xs @ token_text ys"
  "token_tags (xs @ ys) = token_tags xs @ token_tags ys"
  by (induction xs rule: token_text.induct) simp_all

lemma token_units [simp]: "token_text (map Txt t) = t" "token_tags (map Txt t) = []"
  by (induction t) simp_all

lemma tokens_of_tags:
  "\<forall>x \<in> set xs. \<exists>y. x = Tag y \<and> P y \<Longrightarrow> token_text xs = [] \<and> list_all P (token_tags xs)"
  by (induction xs rule: token_text.induct) auto

text \<open>The units of a style: letters, digits, and those of a property and a colour.\<close>

definition css_unit :: "nat \<Rightarrow> bool" where
  "css_unit u \<longleftrightarrow> 48 \<le> u \<and> u \<le> 57 \<or> 97 \<le> u \<and> u \<le> 122 \<or> u \<in> set (lit ''# :;-'')"

definition allowed_tag :: "units \<Rightarrow> bool" where
  "allowed_tag t \<longleftrightarrow> t = lit ''/span'' \<or> (\<exists>css. t = lit ''span style='' @ [34] @ css @ [34] \<and> list_all css_unit css)"

lemma replace_unit_append: "replace_unit u r (xs @ ys) = replace_unit u r xs @ replace_unit u r ys"
  by (simp add: replace_unit_def)

lemma escapeHtml_Cons: "escapeHtml (c # t) = escapeHtml [c] @ escapeHtml t"
proof -
  have "escapeHtml ([c] @ t) = escapeHtml [c] @ escapeHtml t" by (simp only: escapeHtml_def replace_unit_append)
  then show ?thesis by simp
qed

lemma tokens_unit: "tokens (escapeHtml [c] @ r) = Txt c # tokens r"
  by (simp add: escapeHtml_def replace_unit_def lit_def reference_def references_def)

lemma tokens_escape: "tokens (escapeHtml t @ r) = map Txt t @ tokens r"
proof (induction t)
  case Nil
  then show ?case by (simp add: escapeHtml_def replace_unit_def)
next
  case (Cons c t)
  then show ?case using tokens_unit [of c "escapeHtml t @ r"] by (simp add: escapeHtml_Cons [of c t])
qed

lemma tokens_tag: "62 \<notin> set t \<Longrightarrow> tokens (60 # t @ 62 # r) = Tag t # tokens r"
proof -
  assume "62 \<notin> set t"
  then have "takeWhile (\<lambda>u. u \<noteq> 62) (t @ 62 # r) = t" "dropWhile (\<lambda>u. u \<noteq> 62) (t @ 62 # r) = 62 # r"
    by (induction t) auto
  then show ?thesis by simp
qed

text \<open>The colours of a style come from the tables.\<close>

definition style_ok :: "AnsiStyle \<Rightarrow> bool" where
  "style_ok st \<longleftrightarrow> pred_option (list_all css_unit) (st_color st) \<and> pred_option (list_all css_unit) (st_backgroundColor st)"

lemma colors_css: "list_all (\<lambda>(k, v). list_all css_unit v) (ANSI_COLORS @ ANSI_BG_COLORS)"
  by (simp add: ANSI_COLORS_def ANSI_BG_COLORS_def lit_def css_unit_def)

lemma color_css: "map_of ANSI_COLORS k = Some v \<or> map_of ANSI_BG_COLORS k = Some v \<Longrightarrow> list_all css_unit v"
  using colors_css by (auto simp: list_all_iff dest!: map_of_SomeD)

lemma no_style_ok: "style_ok no_style"
  by (simp add: style_ok_def no_style_def)

lemma apply_code_ok: "style_ok st \<Longrightarrow> style_ok (apply_code st c)"
  using no_style_ok color_css [of c]
  by (auto simp: apply_code_def Let_def style_ok_def split: option.splits)

lemma apply_codes_ok: "style_ok st \<Longrightarrow> style_ok (apply_codes st c)"
proof -
  have "style_ok st \<Longrightarrow> style_ok (foldl apply_code st cs)" for cs by (induction cs arbitrary: st) (simp_all add: apply_code_ok)
  then show "style_ok st \<Longrightarrow> style_ok (apply_codes st c)" by (simp add: apply_codes_def)
qed

lemma parts_ok: "style_ok st \<Longrightarrow> \<forall>(t, x) \<in> set (ansi_parts st s). style_ok x"
proof (induction st s rule: ansi_parts.induct)
  case (1 st s)
  show ?case
  proof (cases "next_match s")
    case None
    then show ?thesis using 1(2) by (simp add: ansi_parts.simps [of st s] add_part_def)
  next
    case (Some m)
    obtain pre code rest where m: "m = (pre, code, rest)" by (cases m)
    show ?thesis using 1(1) [OF Some m [symmetric] refl] 1(2) Some m apply_codes_ok [of st code]
      by (auto simp: ansi_parts.simps [of st s] add_part_def)
  qed
qed

lemma style_css_ok: "style_ok st \<Longrightarrow> list_all (list_all css_unit) (style_css st)"
  by (auto simp: style_css_def style_ok_def lit_def css_unit_def split: option.splits)

lemma join_units_all: "list_all P sep \<Longrightarrow> list_all (list_all P) xs \<Longrightarrow> list_all P (join_units sep xs)"
  by (induction sep xs rule: join_units.induct) simp_all

lemma tokens_part:
  assumes "style_ok st"
  shows "\<exists>tags. tokens (part_html (t, st) @ r) = take 1 tags @ map Txt t @ drop 1 tags @ tokens r \<and>
    (\<forall>x \<in> set tags. \<exists>y. x = Tag y \<and> allowed_tag y)"
proof (cases "st = no_style")
  case True
  then show ?thesis by (intro exI [of _ "[]"]) (simp add: part_html_def tokens_escape)
next
  case False
  define css where "css = join_units (lit ''; '') (style_css st)"
  have c: "list_all css_unit css"
    unfolding css_def by (rule join_units_all) (simp_all add: style_css_ok assms lit_def css_unit_def)
  let ?a = "lit ''span style='' @ [34] @ css @ [34]"
  have n: "62 \<notin> set ?a" using c by (auto simp: list_all_iff lit_def css_unit_def)
  have "part_html (t, st) @ r = 60 # ?a @ 62 # (escapeHtml t @ (60 # lit ''/span'' @ 62 # r))"
    using False by (simp add: part_html_def css_def lit_def)
  moreover have "tokens (60 # lit ''/span'' @ 62 # r) = Tag (lit ''/span'') # tokens r"
    by (rule tokens_tag) (simp add: lit_def)
  ultimately have "tokens (part_html (t, st) @ r) = Tag ?a # map Txt t @ Tag (lit ''/span'') # tokens r"
    using tokens_tag [OF n, of "escapeHtml t @ (60 # lit ''/span'' @ 62 # r)"] by (simp add: tokens_escape)
  then show ?thesis using c by (intro exI [of _ "[Tag ?a, Tag (lit ''/span'')]"]) (auto simp: allowed_tag_def)
qed

lemma html_parts:
  assumes "\<forall>(t, x) \<in> set ps. style_ok x"
  shows "html_text (concat (map part_html ps)) = concat (map fst ps) \<and> list_all allowed_tag (html_tags (concat (map part_html ps)))"
  using assms
proof (induction ps)
  case Nil
  then show ?case by (simp add: html_text_def html_tags_def)
next
  case (Cons p ps)
  obtain t st where p: "p = (t, st)" by fastforce
  let ?r = "concat (map part_html ps)"
  have ok: "style_ok st" using Cons.prems p by simp
  obtain tags where tags: "tokens (part_html (t, st) @ ?r) = take 1 tags @ map Txt t @ drop 1 tags @ tokens ?r"
    and al: "\<forall>x \<in> set tags. \<exists>y. x = Tag y \<and> allowed_tag y"
    using tokens_part [OF ok, of t ?r] by blast
  have "token_text (take 1 tags) = [] \<and> list_all allowed_tag (token_tags (take 1 tags))"
    "token_text (drop 1 tags) = [] \<and> list_all allowed_tag (token_tags (drop 1 tags))"
    using al by (auto intro!: tokens_of_tags dest: in_set_takeD in_set_dropD)
  then show ?case using Cons p tags by (simp add: html_text_def html_tags_def)
qed

lemma stripAnsi_none: "next_match s = None \<Longrightarrow> stripAnsi s = s"
  by (induction s) (auto split: option.splits)

lemma stripAnsi_some: "next_match s = Some (pre, code, rest) \<Longrightarrow> stripAnsi s = pre @ stripAnsi rest"
  by (induction s arbitrary: pre) (auto split: option.splits)

lemma parts_text: "concat (map fst (ansi_parts st s)) = stripAnsi s"
proof (induction st s rule: ansi_parts.induct)
  case (1 st s)
  show ?case
  proof (cases "next_match s")
    case None
    then show ?thesis by (simp add: ansi_parts.simps [of st s] add_part_def stripAnsi_none)
  next
    case (Some m)
    obtain pre code rest where m: "m = (pre, code, rest)" by (cases m)
    show ?thesis using 1 [OF Some m [symmetric] refl] Some m stripAnsi_some [of s pre code rest]
      by (simp add: ansi_parts.simps [of st s] add_part_def)
  qed
qed

text \<open>C14: The HTML of a log line shows the line without its escape sequences and nothing else, whatever the
  line holds: box drawing characters are first replaced by plain ones, the text a page reads is the line so
  written and stripped, and its only tags are the spans of the styles, whose attribute holds no quote,
  bracket or parenthesis.\<close>

theorem log_line_html:
  "html_text (formatLogMessage m) = stripAnsi (map plain_box m) \<and> list_all allowed_tag (html_tags (formatLogMessage m))"
  using html_parts [OF parts_ok [OF no_style_ok, of "map plain_box m"]] parts_text [of no_style "map plain_box m"]
  by (simp add: formatLogMessage_def ansiToHtml_def)

end
