(* ===== verification/Pages.thy ===== *)
theory Pages
  imports LogView ConfigValidate
begin

text \<open>
  Logic of the pages in \<open>FerrumGUI/frontend/src\<close>: waiting for the restarted GUI (\<open>guiRestart.ts\<close>), the
  analysis of NetherNet diagnostics in the log (\<open>nethernetAnalysis.ts\<close>), the listener presets
  (\<open>listenerRoutes.ts\<close>) and the subscriptions of the WebSocket (\<open>useWebSocket.ts\<close>). The parser of
  JSON, the clock and the answers of the server are arguments.
\<close>

section \<open>Waiting for the restart\<close>

text \<open>\<open>fetch\<close> answers with an ok flag and a body; the body may fail to parse.\<close>

definition read_gui_version :: "(bool \<times> jsval res) res \<Rightarrow> jsval res" where
  "read_gui_version response =
     bindE response (\<lambda>(ok, body). if \<not> ok then Inl (Error ''GUI is restarting'') else bindE body (\<lambda>v. js_prop v ''guiVersion''))"

text \<open>\<open>clock k\<close> is the time of the check before poll \<open>k\<close> and \<open>answer k\<close> what that poll reads. The number of
  polls made is returned with the outcome; a loop that goes on for ever is \<open>None\<close>.\<close>

partial_function (option) restart_loop ::
  "(nat \<Rightarrow> ms) \<Rightarrow> (nat \<Rightarrow> jsval res) \<Rightarrow> string \<Rightarrow> ms \<Rightarrow> nat \<Rightarrow> (nat \<times> unit res) option" where
  "restart_loop clock answer version deadline k =
     (if clock k < deadline
      then if answer k = Inr (JStr version) then Some (Suc k, Inr ()) else restart_loop clock answer version deadline (Suc k)
      else Some (k, Inl (Error ''The updated GUI did not become ready. Check the GUI update log and restart the GUI.'')))"

definition waitForGuiRestart :: "(nat \<Rightarrow> ms) \<Rightarrow> (nat \<Rightarrow> jsval res) \<Rightarrow> string \<Rightarrow> ms \<Rightarrow> ms \<Rightarrow> (nat \<times> unit res) option" where
  "waitForGuiRestart clock answer version start timeoutMs = restart_loop clock answer version (start + timeoutMs) 0"

section \<open>NetherNet diagnostics\<close>

record LogEntry =
  le_timestamp :: string
  le_message :: units

record Candidate =
  cd_ip :: string
  cd_port :: jsnum
  cd_kind :: string
  cd_transport :: string

record SdpSummary =
  sd_candidates :: "Candidate list"
  sd_identityPresent :: bool
  sd_fingerprintCount :: jsnum
  sd_bytes :: jsnum

datatype detail = DNum jsnum | DBool bool | DStr string | DSdp SdpSummary

record NetherEvent =
  ne_timestamp :: string
  ne_event :: string
  ne_client :: string
  ne_backend :: string
  ne_details :: "(string \<times> detail) list"

definition event_names :: "string list" where
  "event_names = [''tcp_start'', ''tcp_end'', ''signaling_request'', ''signaling_response'', ''inspection_skipped'', ''udp_packet'',
     ''udp_idle'', ''rewrite_error'']"

definition packet_kinds :: "string list" where
  "packet_kinds = [''raknet_ping'', ''raknet_open_request_1'', ''stun_binding_request'', ''stun_binding_response'', ''stun_binding_error'',
     ''stun'', ''dtls'', ''unknown_udp'']"

definition endpoint_char :: "char \<Rightarrow> bool" where
  "endpoint_char c \<longleftrightarrow> is_hex c \<or> c \<in> set ''.:[]''"

definition endpoint_text :: "string \<Rightarrow> bool" where
  "endpoint_text s \<longleftrightarrow> length s < 100 \<and> s \<noteq> [] \<and> list_all endpoint_char s"

text \<open>\<open>endpoint(value)\<close>: the text when the value is one.\<close>

definition as_endpoint :: "jsval \<Rightarrow> string option" where
  "as_endpoint v = (case v of JStr s \<Rightarrow> if endpoint_text s then Some s else None | _ \<Rightarrow> None)"

text \<open>A value that is one of the given texts.\<close>

definition one_of :: "string list \<Rightarrow> jsval \<Rightarrow> string option" where
  "one_of xs v = (case v of JStr s \<Rightarrow> if s \<in> set xs then Some s else None | _ \<Rightarrow> None)"

definition candidate_kinds :: "string list" where
  "candidate_kinds = [''host'', ''srflx'', ''prflx'', ''relay'', ''unknown'']"

definition port_number :: "jsval \<Rightarrow> jsnum option" where
  "port_number v =
     (case v of JNum n \<Rightarrow> if num_is_int n \<and> \<not> js_less n (Fin 1) \<and> \<not> js_less (Fin 65535) n then Some n else None | _ \<Rightarrow> None)"

definition candidate :: "jsval \<Rightarrow> Candidate list" where
  "candidate c =
     (case c of
        JObj fs \<Rightarrow>
          (case (as_endpoint (own fs ''ip''), port_number (own fs ''port''), one_of candidate_kinds (own fs ''kind'')) of
             (Some ip, Some port, Some kind) \<Rightarrow>
               [\<lparr>cd_ip = ip, cd_port = port, cd_kind = kind,
                 cd_transport = (if own fs ''transport'' = JStr ''UDP'' then ''UDP'' else ''other'')\<rparr>]
           | _ \<Rightarrow> [])
      | _ \<Rightarrow> [])"

definition number_or_zero :: "jsval \<Rightarrow> jsnum" where
  "number_or_zero v = (case v of JNum n \<Rightarrow> n | _ \<Rightarrow> Fin 0)"

text \<open>An array is an object without these properties.\<close>

definition summary :: "jsval \<Rightarrow> SdpSummary option" where
  "summary v =
     (if \<not> js_truthy v \<or> \<not> is_objty v then None
      else let fs = (case v of JObj fs \<Rightarrow> fs | _ \<Rightarrow> []) in
           Some \<lparr>sd_candidates = (case own fs ''candidates'' of JArr xs \<Rightarrow> concat (map candidate (take 32 xs)) | _ \<Rightarrow> []),
                 sd_identityPresent = (own fs ''identityPresent'' = JBool True),
                 sd_fingerprintCount = number_or_zero (own fs ''fingerprintCount''),
                 sd_bytes = number_or_zero (own fs ''bytes'')\<rparr>)"

definition reason_text :: "jsval \<Rightarrow> string option" where
  "reason_text v =
     (case v of
        JStr s \<Rightarrow> if s \<noteq> [] \<and> length s \<le> 40 \<and>
                     list_all (\<lambda>c. 97 \<le> (of_char c :: nat) \<and> (of_char c :: nat) \<le> 122 \<or> c = CHR ''_'') s then Some s else None
      | _ \<Rightarrow> None)"

definition count_value :: "jsval \<Rightarrow> jsnum option" where
  "count_value v = (case v of JNum (Fin q) \<Rightarrow> if 0 \<le> q then Some (Fin q) else None | _ \<Rightarrow> None)"

definition bool_value :: "jsval \<Rightarrow> bool option" where
  "bool_value v = (case v of JBool b \<Rightarrow> Some b | _ \<Rightarrow> None)"

text \<open>The details under the given keys that one check lets through.\<close>

definition pick :: "(jsval \<Rightarrow> 'a option) \<Rightarrow> ('a \<Rightarrow> detail) \<Rightarrow> string list \<Rightarrow> (string \<Rightarrow> jsval) \<Rightarrow> (string \<times> detail) list" where
  "pick f mk keys input = concat (map (\<lambda>k. case f (input k) of None \<Rightarrow> [] | Some x \<Rightarrow> [(k, mk x)]) keys)"

definition event_details :: "(string \<Rightarrow> jsval) \<Rightarrow> (string \<times> detail) list" where
  "event_details input =
     pick count_value DNum [''status'', ''bytes'', ''sentPackets'', ''receivedPackets'', ''idleMs''] input @
     pick bool_value DBool [''rewritten'', ''success'', ''encoded'', ''onlineAuth'', ''selfSignedAuth''] input @
     pick summary DSdp [''sdp'', ''before'', ''after''] input @
     pick (one_of [''GET'', ''POST'', ''other'']) DStr [''method''] input @
     pick (one_of [''/v1/join'', ''/v1/join/{networkId}'', ''other'']) DStr [''path''] input @
     pick (one_of packet_kinds) DStr [''kind''] input @
     pick (one_of [''client_to_backend'', ''backend_to_client'', ''request'', ''response'']) DStr [''direction''] input @
     pick as_endpoint DStr [''advertise''] input @
     pick as_endpoint DStr [''upstream''] input @
     pick reason_text DStr [''reason''] input"

text \<open>\<open>message.slice(index + marker.length)\<close> after the first occurrence of the marker.\<close>

fun after_marker :: "units \<Rightarrow> units \<Rightarrow> units option" where
  "after_marker mk [] = (if mk = [] then Some [] else None)"
| "after_marker mk (c # cs) =
     (if take (length mk) (c # cs) = mk then Some (drop (length mk) (c # cs)) else after_marker mk cs)"

definition prop_reader :: "jsval \<Rightarrow> string \<Rightarrow> jsval" where
  "prop_reader v k = (case js_prop v k of Inl e \<Rightarrow> JUndef | Inr x \<Rightarrow> x)"

definition event_of_value :: "string \<Rightarrow> jsval \<Rightarrow> NetherEvent list" where
  "event_of_value timestamp v =
     (if v = JUndef \<or> v = JNull then []
      else case (prop_reader v ''version'' = JNum (Fin 1), one_of event_names (prop_reader v ''event''),
                 as_endpoint (prop_reader v ''client''), as_endpoint (prop_reader v ''backend'')) of
             (True, Some e, Some c, Some b) \<Rightarrow>
               let d = prop_reader v ''details''; input = (if d = JUndef \<or> d = JNull then JObj [] else d) in
               [\<lparr>ne_timestamp = timestamp, ne_event = e, ne_client = c, ne_backend = b, ne_details = event_details (prop_reader input)\<rparr>]
           | _ \<Rightarrow> [])"

definition parseNetherEvents :: "(units \<Rightarrow> jsval option) \<Rightarrow> LogEntry list \<Rightarrow> NetherEvent list" where
  "parseNetherEvents json logs = concat (map (\<lambda>l.
     case after_marker (lit ''NETHER_DIAG '') (stripAnsi (le_message l)) of
       None \<Rightarrow> []
     | Some t \<Rightarrow> (case json t of None \<Rightarrow> [] | Some v \<Rightarrow> event_of_value (le_timestamp l) v)) logs)"

text \<open>\<open>slice\<close> with the index \<open>-1\<close> of a missing separator drops the last character.\<close>

definition clientIP :: "string \<Rightarrow> string" where
  "clientIP e =
     (if startsWith e ''['' then
        (if CHR '']'' \<in> set e then takeWhile (\<lambda>c. c \<noteq> CHR '']'') (drop 1 e) else butlast (drop 1 e))
      else case split_last (CHR '':'') e of Some (a, b) \<Rightarrow> a | None \<Rightarrow> butlast e)"

definition has_detail :: "string \<Rightarrow> detail \<Rightarrow> NetherEvent \<Rightarrow> bool" where
  "has_detail k d e \<longleftrightarrow> map_of (ne_details e) k = Some d"

definition status_error :: "NetherEvent \<Rightarrow> bool" where
  "status_error e = (case map_of (ne_details e) ''status'' of Some (DNum n) \<Rightarrow> n \<noteq> NaN \<and> \<not> js_less n (Fin 400) | _ \<Rightarrow> False)"

definition nether_findings :: "NetherEvent list \<Rightarrow> string list" where
  "nether_findings es =
     concat (map (\<lambda>(b, f). if b then [f] else [])
       [(list_ex (\<lambda>e. ne_event e = ''rewrite_error'') es, ''rewrite_error''),
        (list_ex (\<lambda>e. has_detail ''kind'' (DStr ''raknet_open_request_1'') e \<and> has_detail ''direction'' (DStr ''client_to_backend'') e) es, ''raknet''),
        (list_ex (\<lambda>e. ne_event e = ''signaling_response'' \<and> status_error e) es, ''http_error''),
        (list_ex (\<lambda>e. ne_event e = ''signaling_response'' \<and> has_detail ''rewritten'' (DBool True) e) es, ''rewritten''),
        (list_ex (has_detail ''kind'' (DStr ''dtls'')) es, ''dtls''),
        (list_ex (has_detail ''kind'' (DStr ''stun_binding_response'')) es, ''stun_reply''),
        (list_ex (has_detail ''direction'' (DStr ''client_to_backend'')) es \<and>
           \<not> list_ex (has_detail ''direction'' (DStr ''backend_to_client'')) es, ''no_reply''),
        (list_ex (\<lambda>e. ne_event e = ''tcp_end'' \<and> has_detail ''success'' (DBool False) e) es, ''tcp_error''),
        (list_ex (\<lambda>e. ne_event e = ''inspection_skipped'') es, ''inspection_skipped'')])"

record NetherGroup =
  ng_ip :: string
  ng_events :: "NetherEvent list"
  ng_findings :: "string list"

definition add_event :: "NetherEvent \<Rightarrow> (string \<times> NetherEvent list) list \<Rightarrow> (string \<times> NetherEvent list) list" where
  "add_event e gs =
     (let ip = clientIP (ne_client e) in
      AList.update ip ((case map_of gs ip of None \<Rightarrow> [] | Some es \<Rightarrow> es) @ [e]) gs)"

definition groupNetherEvents :: "NetherEvent list \<Rightarrow> NetherGroup list" where
  "groupNetherEvents es =
     rev (map (\<lambda>(ip, xs). \<lparr>ng_ip = ip, ng_events = xs, ng_findings = nether_findings xs\<rparr>) (fold add_event es []))"

section \<open>Listener presets\<close>

datatype RoutePreset = Custom | Java | Nethernet

definition port_field_of :: "string \<Rightarrow> nat option \<Rightarrow> (string \<times> jsval) list" where
  "port_field_of k p = [(k, case p of None \<Rightarrow> JUndef | Some n \<Rightarrow> JNum (Fin (of_nat n)))]"

definition createListenerRoute :: "RoutePreset \<Rightarrow> string \<Rightarrow> (string \<times> jsval) list" where
  "createListenerRoute preset host =
     (let tcp = (case preset of Java \<Rightarrow> Some 25565 | Nethernet \<Rightarrow> Some 19132 | Custom \<Rightarrow> None);
          udp = (case preset of Nethernet \<Rightarrow> Some 19132 | _ \<Rightarrow> None);
          target = JObj ((''host'', JStr host) # port_field_of ''tcp'' (if preset = Java then Some 5000 else tcp) @ port_field_of ''udp'' udp) in
      (''bind'', JStr ''0.0.0.0'') # port_field_of ''tcp'' tcp @ port_field_of ''udp'' udp @
      [(''target'', target), (''targets'', JArr [target]), (''haproxy'', JBool (preset \<noteq> Custom)),
       (''bedrockTransport'', JStr (if preset = Nethernet then ''nethernet'' else ''raknet'')),
       (''rewriteBedrockPongPorts'', JBool (preset \<noteq> Nethernet)),
       (''https'', JObj [(''enabled'', JBool False), (''autoDetect'', JBool True)]), (''httpMappings'', JArr [])])"

definition bind_of :: "(string \<times> jsval) list \<Rightarrow> jsval" where
  "bind_of l = (if js_truthy (own l ''bind'') then own l ''bind'' else JStr ''0.0.0.0'')"

definition listenerPortsConflict :: "(string \<times> jsval) list \<Rightarrow> (string \<times> jsval) list \<Rightarrow> bool" where
  "listenerPortsConflict a b \<longleftrightarrow>
     (js_eq (bind_of a) (bind_of b) \<or>
      list_ex (\<lambda>x. x = JStr ''0.0.0.0'' \<or> x = JStr ''::'') [bind_of a, bind_of b]) \<and>
     list_ex (\<lambda>p. own a p \<noteq> JUndef \<and> js_eq (own a p) (own b p)) [''tcp'', ''udp'']"

section \<open>Subscriptions\<close>

text \<open>A callback is a number; \<open>fails\<close> says which ones throw.\<close>

record Socket =
  so_isConnected :: bool
  so_lastMessage :: "jsval option"
  so_listeners :: "(string \<times> nat list) list"

definition new_socket :: Socket where
  "new_socket = \<lparr>so_isConnected = False, so_lastMessage = None, so_listeners = []\<rparr>"

definition socket_on :: "string \<Rightarrow> nat \<Rightarrow> Socket \<Rightarrow> Socket" where
  "socket_on ty cb s =
     s\<lparr>so_listeners := AList.update ty (case map_of (so_listeners s) ty of None \<Rightarrow> [cb] | Some cs \<Rightarrow> if cb \<in> set cs then cs else cs @ [cb])
         (so_listeners s)\<rparr>"

definition socket_off :: "string \<Rightarrow> nat \<Rightarrow> Socket \<Rightarrow> Socket" where
  "socket_off ty cb s =
     (case map_of (so_listeners s) ty of
        None \<Rightarrow> s
      | Some cs \<Rightarrow> s\<lparr>so_listeners := AList.update ty (removeAll cb cs) (so_listeners s)\<rparr>)"

text \<open>The callbacks called, up to one that throws.\<close>

fun call_until :: "(nat \<Rightarrow> bool) \<Rightarrow> nat list \<Rightarrow> nat list" where
  "call_until fails [] = []"
| "call_until fails (c # cs) = c # (if fails c then [] else call_until fails cs)"

definition socket_message :: "(nat \<Rightarrow> bool) \<Rightarrow> jsval option \<Rightarrow> Socket \<Rightarrow> Socket \<times> nat list" where
  "socket_message fails parsed s =
     (case parsed of
        None \<Rightarrow> (s, [])
      | Some v \<Rightarrow>
          (s\<lparr>so_lastMessage := Some v\<rparr>,
           case js_prop v ''type'' of
             Inr (JStr ty) \<Rightarrow> (case map_of (so_listeners s) ty of None \<Rightarrow> [] | Some cs \<Rightarrow> call_until fails cs)
           | _ \<Rightarrow> []))"

section \<open>The wait ends\<close>

lemma restart_loop_ends:
  assumes "0 < interval" and clock: "\<And>k. clock k + interval \<le> clock (Suc k)"
  shows "\<exists>n r. restart_loop clock answer version deadline k = Some (n, r) \<and> k \<le> n \<and> (k < n \<longrightarrow> clock (n - 1) < deadline) \<and>
    (r = Inr () \<longleftrightarrow> (\<exists>j\<ge>k. clock j < deadline \<and> answer j = Inr (JStr version))) \<and>
    (r = Inr () \<longrightarrow> k < n \<and> answer (n - 1) = Inr (JStr version)) \<and> (r \<noteq> Inr () \<longrightarrow> deadline \<le> clock n)"
proof (induction "nat (deadline - clock k)" arbitrary: k rule: less_induct)
  case less
  note step = restart_loop.simps [of clock answer version deadline k]
  have up: "clock i \<le> clock (Suc i)" for i using clock [of i] assms(1) by simp
  have mono: "clock k \<le> clock j" if "k \<le> j" for j using up that by (rule lift_Suc_mono_le)
  let ?hit = "\<lambda>j. clock j < deadline \<and> answer j = Inr (JStr version)"
  consider (out) "\<not> clock k < deadline" | (found) "?hit k" | (again) "clock k < deadline" "answer k \<noteq> Inr (JStr version)" by blast
  then show ?case
  proof cases
    case out
    then have "\<not> ?hit j" if "k \<le> j" for j using mono [OF that] by simp
    then show ?thesis using out by (simp add: step)
  next
    case found
    then show ?thesis by (simp add: step) blast
  next
    case again
    have "nat (deadline - clock (Suc k)) < nat (deadline - clock k)" using clock [of k] assms(1) again by simp
    from less [OF this] obtain n r where
      n: "restart_loop clock answer version deadline (Suc k) = Some (n, r)" "Suc k \<le> n" "Suc k < n \<longrightarrow> clock (n - 1) < deadline"
      and r: "r = Inr () \<longleftrightarrow> (\<exists>j\<ge>Suc k. ?hit j)"
      and e: "r = Inr () \<longrightarrow> Suc k < n \<and> answer (n - 1) = Inr (JStr version)" "r \<noteq> Inr () \<longrightarrow> deadline \<le> clock n" by blast
    have "(\<exists>j\<ge>k. ?hit j) \<longleftrightarrow> (\<exists>j\<ge>Suc k. ?hit j)"
    proof -
      have "j = k \<or> Suc k \<le> j" if "k \<le> j" for j using that by auto
      then show ?thesis using again(2) by (blast dest: Suc_leD)
    qed
    moreover have "clock (n - 1) < deadline" using n(2,3) again(1) by (cases "n = Suc k") auto
    moreover have "restart_loop clock answer version deadline k = Some (n, r)"
      using again n(1) by (simp add: step)
    ultimately show ?thesis using n(2) r e by auto
  qed
qed

text \<open>C35: Waiting for the restarted GUI ends. When a poll and the wait after it take at least the interval and
  at most \<open>longest\<close>, the loop makes at most one poll more than intervals fit into the timeout. It succeeds
  exactly when some poll begun before the deadline reads the new version, with the first such poll as its last;
  otherwise it fails at a check at or after the deadline, and if it has polled at all, less than \<open>longest\<close>
  after it.\<close>

theorem gui_restart_wait_ends:
  assumes "0 < interval" and "start \<le> clock 0" and "\<And>k. clock k + interval \<le> clock (Suc k)" and "\<And>k. clock (Suc k) \<le> clock k + longest"
  shows "\<exists>n r. waitForGuiRestart clock answer version start timeoutMs = Some (n, r) \<and> int n \<le> max 0 (timeoutMs div interval + 1) \<and>
    (r = Inr () \<longleftrightarrow> (\<exists>k. clock k < start + timeoutMs \<and> answer k = Inr (JStr version))) \<and>
    (r = Inr () \<longrightarrow> 0 < n \<and> clock (n - 1) < start + timeoutMs \<and> answer (n - 1) = Inr (JStr version)) \<and>
    (r \<noteq> Inr () \<longrightarrow> start + timeoutMs \<le> clock n \<and> (0 < n \<longrightarrow> clock n < start + timeoutMs + longest))"
proof -
  obtain n r where n: "restart_loop clock answer version (start + timeoutMs) 0 = Some (n, r)" "0 < n \<longrightarrow> clock (n - 1) < start + timeoutMs"
    and r: "r = Inr () \<longleftrightarrow> (\<exists>k. clock k < start + timeoutMs \<and> answer k = Inr (JStr version))"
    and e: "r = Inr () \<longrightarrow> 0 < n \<and> answer (n - 1) = Inr (JStr version)" "r \<noteq> Inr () \<longrightarrow> start + timeoutMs \<le> clock n"
    using restart_loop_ends [where clock = clock and k = 0 and answer = answer and version = version and deadline = "start + timeoutMs", OF assms(1) assms(3)]
    by auto
  have "start + int k * interval \<le> clock k" for k
  proof (induction k)
    case (Suc k)
    then show ?case using assms(3) [of k] by (simp add: algebra_simps)
  qed (use assms(2) in simp)
  then have "0 < n \<Longrightarrow> int (n - 1) * interval \<le> timeoutMs" using n(2) by (smt (verit))
  then have "0 < n \<Longrightarrow> int (n - 1) \<le> timeoutMs div interval" using assms(1)
    by (metis div_pos_pos_trivial nonzero_mult_div_cancel_right order_less_irrefl zdiv_mono1)
  then have "int n \<le> max 0 (timeoutMs div interval + 1)" by (cases n) auto
  moreover have "0 < n \<longrightarrow> clock n < start + timeoutMs + longest" using n(2) assms(4) [of "n - 1"] by (cases n) auto
  ultimately show ?thesis using n r e by (auto simp: waitForGuiRestart_def)
qed

theorem gui_restart_wait_ends_witness:
  "(\<exists>n r. waitForGuiRestart (\<lambda>k. 10 + 3 * int k) (\<lambda>k. if k = 2 then Inr (JStr ''1.2'') else Inl TypeError) ''1.2'' 9 8 = Some (n, r) \<and>
    int n \<le> 3 \<and> r = Inr ()) \<and>
   (\<exists>n r. waitForGuiRestart (\<lambda>k. 10 + 3 * int k) (\<lambda>k. Inl TypeError) ''1.2'' 9 8 = Some (n, r) \<and> r \<noteq> Inr () \<and> 10 + 3 * int n < 20)"
proof -
  let ?c = "\<lambda>k. 10 + 3 * int k" and ?a = "\<lambda>k. if k = 2 then Inr (JStr ''1.2'') else (Inl TypeError :: jsval res)"
  have "\<exists>k. ?c k < 9 + 8 \<and> ?a k = Inr (JStr ''1.2'')" by (rule exI [of _ 2]) simp
  then show ?thesis using gui_restart_wait_ends [of 3 9 ?c 3 ?a "''1.2''" 8]
      gui_restart_wait_ends [of 3 9 ?c 3 "\<lambda>k. Inl TypeError" "''1.2''" 8] by fastforce
qed

section \<open>What the diagnostics panel shows\<close>

text \<open>The texts of an event are short and plain, its counts are finite and not negative, and its candidates
  are few and have a real port.\<close>

definition plain_char :: "char \<Rightarrow> bool" where
  "plain_char c \<longleftrightarrow> is_digit c \<or> (97 \<le> (of_char c :: nat) \<and> (of_char c :: nat) \<le> 122) \<or>
     (65 \<le> (of_char c :: nat) \<and> (of_char c :: nat) \<le> 90) \<or> c \<in> set ''_/{}.:[]''"

definition plain_text :: "string \<Rightarrow> bool" where
  "plain_text s \<longleftrightarrow> length s < 100 \<and> list_all plain_char s"

definition candidate_ok :: "Candidate \<Rightarrow> bool" where
  "candidate_ok c \<longleftrightarrow> endpoint_text (cd_ip c) \<and> cd_kind c \<in> set candidate_kinds \<and> cd_transport c \<in> set [''UDP'', ''other''] \<and>
     num_is_int (cd_port c) \<and> \<not> js_less (cd_port c) (Fin 1) \<and> \<not> js_less (Fin 65535) (cd_port c)"

definition detail_ok :: "detail \<Rightarrow> bool" where
  "detail_ok d =
     (case d of
        DNum n \<Rightarrow> (case n of Fin q \<Rightarrow> 0 \<le> q | _ \<Rightarrow> False)
      | DBool b \<Rightarrow> True
      | DStr s \<Rightarrow> plain_text s
      | DSdp x \<Rightarrow> length (sd_candidates x) \<le> 32 \<and> list_all candidate_ok (sd_candidates x))"

definition event_ok :: "NetherEvent \<Rightarrow> bool" where
  "event_ok e \<longleftrightarrow> ne_event e \<in> set event_names \<and> endpoint_text (ne_client e) \<and> endpoint_text (ne_backend e) \<and>
     list_all (\<lambda>(k, d). detail_ok d) (ne_details e)"

lemma endpoint_plain: "endpoint_text s \<Longrightarrow> plain_text s"
proof -
  have "plain_char c" if "endpoint_char c" for c using that by (auto simp: endpoint_char_def plain_char_def is_hex_def)
  then show "endpoint_text s \<Longrightarrow> plain_text s" by (auto simp: endpoint_text_def plain_text_def list_all_iff)
qed

lemma candidate_one: "length (candidate c) \<le> 1 \<and> list_all candidate_ok (candidate c)"
  by (auto simp: candidate_def candidate_ok_def as_endpoint_def port_number_def one_of_def
      split: jsval.splits option.splits if_splits)

lemma candidates_few: "length (concat (map candidate xs)) \<le> length xs"
proof (induction xs)
  case (Cons x xs)
  then show ?case using candidate_one [of x] by simp
qed simp

lemma summary_ok: "summary v = Some x \<Longrightarrow> detail_ok (DSdp x)"
proof -
  assume x: "summary v = Some x"
  have few: "length (concat (map candidate (take 32 xs))) \<le> 32" for xs
    using candidates_few [of "take 32 xs"] by simp
  have "list_all candidate_ok (concat (map candidate xs))" for xs
    using candidate_one by (auto simp: list_all_iff)
  then show ?thesis using x few by (auto simp: summary_def detail_ok_def Let_def split: if_splits jsval.splits)
qed

lemma one_of_plain: "list_all plain_text xs \<Longrightarrow> one_of xs v = Some s \<Longrightarrow> detail_ok (DStr s)"
  by (auto simp: one_of_def detail_ok_def list_all_iff split: jsval.splits if_splits)

lemma as_endpoint_plain: "as_endpoint v = Some s \<Longrightarrow> detail_ok (DStr s)"
  by (auto simp: as_endpoint_def detail_ok_def endpoint_plain split: jsval.splits if_splits)

lemma reason_plain: "reason_text v = Some s \<Longrightarrow> detail_ok (DStr s)"
  by (auto simp: reason_text_def detail_ok_def plain_text_def plain_char_def list_all_iff split: jsval.splits if_splits)

lemma count_ok: "count_value v = Some n \<Longrightarrow> detail_ok (DNum n)"
  by (auto simp: count_value_def detail_ok_def split: jsval.splits jsnum.splits if_splits)

lemma pick_ok: "(\<And>v x. f v = Some x \<Longrightarrow> detail_ok (mk x)) \<Longrightarrow> list_all (\<lambda>(k, d). detail_ok d) (pick f mk keys input)"
  by (auto simp: pick_def list_all_iff split: option.splits)

lemma words_plain:
  "list_all plain_text [''GET'', ''POST'', ''other'']"
  "list_all plain_text [''/v1/join'', ''/v1/join/{networkId}'', ''other'']"
  "list_all plain_text packet_kinds"
  "list_all plain_text [''client_to_backend'', ''backend_to_client'', ''request'', ''response'']"
  by (simp_all add: plain_text_def plain_char_def is_digit_def packet_kinds_def)

lemma details_ok: "list_all (\<lambda>(k, d). detail_ok d) (event_details input)"
  unfolding event_details_def list_all_append
  by (intro conjI pick_ok) (auto intro: count_ok summary_ok as_endpoint_plain reason_plain one_of_plain [OF words_plain(1)]
      one_of_plain [OF words_plain(2)] one_of_plain [OF words_plain(3)] one_of_plain [OF words_plain(4)] simp: detail_ok_def [of "DBool b" for b])

lemma event_of_value_ok: "list_all event_ok (event_of_value t v)"
  using details_ok by (auto simp: event_of_value_def event_ok_def one_of_def as_endpoint_def Let_def
      split: if_splits option.splits jsval.splits bool.splits)

lemma nether_events_plain: "list_all event_ok (parseNetherEvents json logs)"
  using event_of_value_ok by (auto simp: parseNetherEvents_def list_all_iff split: option.splits)

lemma update_tabulated:
  "AList.update k v (map (\<lambda>i. (i, f i)) is) = (if k \<in> set is then map (\<lambda>i. (i, (f(k := v)) i)) is else map (\<lambda>i. (i, f i)) is @ [(k, v)])"
  if "distinct is"
  using that by (induction "is") auto

lemma map_of_tabulated: "map_of (map (\<lambda>i. (i, f i)) is) k = (if k \<in> set is then Some (f k) else None)"
  by (induction "is") auto

lemma nub_snoc: "nub (xs @ [x]) = (if x \<in> set xs then nub xs else nub xs @ [x])"
  by (simp add: nub_def)

definition from_ip :: "NetherEvent list \<Rightarrow> string \<Rightarrow> NetherEvent list" where
  "from_ip es ip = filter (\<lambda>e. clientIP (ne_client e) = ip) es"

lemma groups_tabulated:
  "fold add_event es [] = map (\<lambda>ip. (ip, from_ip es ip)) (nub (map (\<lambda>e. clientIP (ne_client e)) es))"
proof (induction es rule: rev_induct)
  case Nil
  then show ?case by (simp add: nub_def)
next
  case (snoc e es)
  let ?ip = "clientIP (ne_client e)" and ?ks = "map (\<lambda>e. clientIP (ne_client e)) es"
  have old: "(case map_of (fold add_event es []) ?ip of None \<Rightarrow> [] | Some xs \<Rightarrow> xs) = from_ip es ?ip"
    using filter_empty_conv [of "\<lambda>x. clientIP (ne_client x) = ?ip" es] by (auto simp: snoc map_of_tabulated from_ip_def image_iff)
  have "fold add_event (es @ [e]) [] = AList.update ?ip (from_ip es ?ip @ [e]) (map (\<lambda>ip. (ip, from_ip es ip)) (nub ?ks))"
    using old by (simp add: add_event_def Let_def snoc)
  also have "\<dots> = map (\<lambda>ip. (ip, from_ip (es @ [e]) ip)) (nub (?ks @ [?ip]))"
    by (auto simp: update_tabulated nub_snoc from_ip_def filter_empty_conv)
  finally show ?case by simp
qed

lemma nether_groups:
  "groupNetherEvents es =
     map (\<lambda>ip. \<lparr>ng_ip = ip, ng_events = from_ip es ip, ng_findings = nether_findings (from_ip es ip)\<rparr>)
       (rev (nub (map (\<lambda>e. clientIP (ne_client e)) es)))"
  by (simp add: groupNetherEvents_def groups_tabulated rev_map o_def)

text \<open>C36: The diagnostics panel shows what the log says and nothing else: there is one group for each client
  address, the address seen last for the first time first, with exactly its events in order, and every
  event has a known name, texts of plain characters only, counts that are not negative and at most
  thirty-two candidates with ports between 1 and 65535.\<close>

theorem nether_panel_sound:
  "groupNetherEvents (parseNetherEvents json logs) =
     map (\<lambda>ip. \<lparr>ng_ip = ip, ng_events = from_ip (parseNetherEvents json logs) ip,
                ng_findings = nether_findings (from_ip (parseNetherEvents json logs) ip)\<rparr>)
       (rev (nub (map (\<lambda>e. clientIP (ne_client e)) (parseNetherEvents json logs)))) \<and>
   list_all event_ok (parseNetherEvents json logs)"
  using nether_groups nether_events_plain by blast

section \<open>Presets and conflicts\<close>

lemma preset_routes_valid: "preset \<noteq> Custom \<Longrightarrow> check_listener i (JObj (createListenerRoute preset host)) = Inr []"
  by (cases preset)
    (simp_all add: createListenerRoute_def port_field_of_def check_listener_def check_nethernet_def check_https_def validateTargetPorts_def
      port_field_def with_prop_def err_if_def bad_port_def num_of_def str_field_def check_http3_def has_domain_def for_each_def own_def
      opt_prop_def bindE_def Let_def checks.simps)

lemma js_eq_sym: "js_eq a b = js_eq b a"
  by (cases a; cases b) auto

lemma js_eq_defined: "js_eq a b \<Longrightarrow> a \<noteq> JUndef \<longleftrightarrow> b \<noteq> JUndef"
  by (cases a; cases b) auto

lemma ports_conflict_sym: "listenerPortsConflict a b = listenerPortsConflict b a"
  using js_eq_sym js_eq_defined by (auto simp: listenerPortsConflict_def)

lemma same_preset_conflicts: "preset \<noteq> Custom \<Longrightarrow> listenerPortsConflict (createListenerRoute preset h) (createListenerRoute preset h')"
  by (cases preset) (simp_all add: listenerPortsConflict_def bind_of_def createListenerRoute_def port_field_of_def own_def Let_def)

lemma socket_off_silent:
  "snd (socket_message fails (Some v) (socket_off ty cb s)) = cs \<Longrightarrow> js_prop v ''type'' = Inr (JStr ty) \<Longrightarrow> cb \<notin> set cs"
proof -
  have "set (call_until fails xs) \<subseteq> set xs" for xs by (induction xs) auto
  then have "cb \<notin> set (call_until fails (removeAll cb xs))" for xs by fastforce
  then show "snd (socket_message fails (Some v) (socket_off ty cb s)) = cs \<Longrightarrow> js_prop v ''type'' = Inr (JStr ty) \<Longrightarrow> cb \<notin> set cs"
    by (auto simp: socket_message_def socket_off_def update_conv' split: option.splits)
qed

end
