(* ===== verification/ClientCli.thy ===== *)
theory ClientCli
  imports RelayShareClient
begin

text \<open>
  The command line client: \<open>FerrumClient/src/clientCli.ts\<close>. Options, their validation, the run of a
  \<open>RelayShareClient\<close> from start to the shutdown signal, and the printed byte counts. The texts printed
  on the terminal are left out.
\<close>

section \<open>Options\<close>

record ClientCliOptions =
  co_relay :: string
  co_token :: "string option"
  co_protocol :: ProtocolMode
  co_tcpPort :: nat
  co_udpPort :: nat
  co_localHost :: string
  co_haproxy :: bool
  co_showStatus :: bool
  co_help :: bool

record cli_env =
  en_relay :: "string option"
  en_token :: "string option"

definition trimmed :: "string option \<Rightarrow> string option" where
  "trimmed v = (case v of None \<Rightarrow> None | Some s \<Rightarrow> if trim s = [] then None else Some (trim s))"

definition default_options :: "cli_env \<Rightarrow> ClientCliOptions" where
  "default_options env =
     \<lparr>co_relay = (case trimmed (en_relay env) of None \<Rightarrow> ''127.0.0.1:7000'' | Some s \<Rightarrow> s), co_token = trimmed (en_token env),
      co_protocol = Tcp, co_tcpPort = 25565, co_udpPort = 25565, co_localHost = ''127.0.0.1'', co_haproxy = False,
      co_showStatus = True, co_help = False\<rparr>"

definition protocol_of :: "string \<Rightarrow> ProtocolMode" where
  "protocol_of s = (if s = ''tcp'' then Tcp else if s = ''udp'' then Udp else if s = ''both'' then Both else OtherMode s)"

definition port_in_range :: "nat \<Rightarrow> bool" where
  "port_in_range n \<longleftrightarrow> 1 \<le> n \<and> n \<le> 65535"

definition parsePort :: "string \<Rightarrow> string \<Rightarrow> nat res" where
  "parsePort s opt =
     (if \<not> all_digits s then Inl (Error (opt @ '' must be an integer between 1 and 65535''))
      else if \<not> port_in_range (dec_val s) then Inl (Error (opt @ '' must be between 1 and 65535''))
      else Inr (dec_val s))"

text \<open>\<open>next(arg)\<close>: the value after the option is taken from the list.\<close>

definition next_value :: "string \<Rightarrow> string list \<Rightarrow> (string \<times> string list) res" where
  "next_value opt as = (case as of [] \<Rightarrow> Inl (Error (opt @ '' requires a value'')) | v # rest \<Rightarrow> Inr (v, rest))"

text \<open>One turn of the loop: the options and the arguments that are left.\<close>

definition take_option :: "string \<Rightarrow> string list \<Rightarrow> ClientCliOptions \<Rightarrow> (ClientCliOptions \<times> string list) res" where
  "take_option arg as o1 =
     (if arg = ''--relay'' then bindE (next_value arg as) (\<lambda>(v, r). Inr (o1\<lparr>co_relay := v\<rparr>, r))
      else if arg = ''--token'' then bindE (next_value arg as) (\<lambda>(v, r). Inr (o1\<lparr>co_token := Some v\<rparr>, r))
      else if arg = ''--protocol'' then bindE (next_value arg as) (\<lambda>(v, r). Inr (o1\<lparr>co_protocol := protocol_of v\<rparr>, r))
      else if arg = ''--tcp-port'' then
        bindE (next_value arg as) (\<lambda>(v, r). bindE (parsePort v arg) (\<lambda>p. Inr (o1\<lparr>co_tcpPort := p\<rparr>, r)))
      else if arg = ''--udp-port'' then
        bindE (next_value arg as) (\<lambda>(v, r). bindE (parsePort v arg) (\<lambda>p. Inr (o1\<lparr>co_udpPort := p\<rparr>, r)))
      else if arg = ''--local-host'' then bindE (next_value arg as) (\<lambda>(v, r). Inr (o1\<lparr>co_localHost := v\<rparr>, r))
      else if arg = ''--haproxy'' then Inr (o1\<lparr>co_haproxy := True\<rparr>, as)
      else if arg = ''--no-status'' then Inr (o1\<lparr>co_showStatus := False\<rparr>, as)
      else if arg = ''--help'' \<or> arg = ''-h'' then Inr (o1\<lparr>co_help := True\<rparr>, as)
      else Inl (Error (''Unknown option: '' @ arg)))"

lemma take_option_length: "take_option arg as o1 = Inr (o2, rest) \<Longrightarrow> length rest \<le> length as"
  by (auto simp: take_option_def next_value_def bindE_def split: if_splits list.splits sum.splits)

function arg_loop :: "string list \<Rightarrow> ClientCliOptions \<Rightarrow> ClientCliOptions res" where
  "arg_loop [] o1 = Inr o1"
| "arg_loop (arg # as) o1 = (case take_option arg as o1 of Inl e \<Rightarrow> Inl e | Inr (o2, rest) \<Rightarrow> arg_loop rest o2)"
  by pat_completeness auto
termination
  by (relation "measure (\<lambda>(as, o1). length as)") (auto dest: take_option_length)

definition parseArgs :: "cli_env \<Rightarrow> string list \<Rightarrow> ClientCliOptions res" where
  "parseArgs env argv = arg_loop argv (default_options env)"


section \<open>The run\<close>





text \<open>Each signal has a handler that is removed when it runs; a signal without one ends the process.\<close>

datatype signal = SIGINT | SIGTERM

record sig_state =
  sg_handlers :: "signal list"
  sg_shuttingDown :: bool
  sg_shutdowns :: nat
  sg_killed :: bool

definition wait_begin :: sig_state where
  "wait_begin = \<lparr>sg_handlers = [SIGINT, SIGTERM], sg_shuttingDown = False, sg_shutdowns = 0, sg_killed = False\<rparr>"

definition handleSignal :: "sig_state \<Rightarrow> sig_state" where
  "handleSignal s = (if sg_shuttingDown s then s else s\<lparr>sg_shuttingDown := True, sg_shutdowns := sg_shutdowns s + 1\<rparr>)"

definition receive_signal :: "sig_state \<Rightarrow> signal \<Rightarrow> sig_state" where
  "receive_signal s x =
     (if sg_killed s then s
      else if x \<in> set (sg_handlers s) then handleSignal (s\<lparr>sg_handlers := removeAll x (sg_handlers s)\<rparr>)
      else s\<lparr>sg_killed := True\<rparr>)"

section \<open>Byte counts\<close>

text \<open>\<open>(bytes / unit).toFixed(1)\<close>: the nearest tenth, the larger of two.\<close>

definition tenths :: "nat \<Rightarrow> nat \<Rightarrow> nat" where
  "tenths bytes u = (20 * bytes + u) div (2 * u)"

definition fixed1 :: "nat \<Rightarrow> nat \<Rightarrow> string" where
  "fixed1 bytes u = show_nat (tenths bytes u div 10) @ ''.'' @ show_nat (tenths bytes u mod 10)"

definition formatBytes :: "nat \<Rightarrow> string" where
  "formatBytes bytes =
     (if bytes < 1024 then show_nat bytes @ ''B''
      else if bytes < 1024 * 1024 then fixed1 bytes 1024 @ ''KB''
      else if bytes < 1024 * 1024 * 1024 then fixed1 bytes (1024 * 1024) @ ''MB''
      else fixed1 bytes (1024 * 1024 * 1024) @ ''GB'')"

section \<open>Options are read back\<close>

definition protocol_word :: "ProtocolMode \<Rightarrow> string" where
  "protocol_word p = (case p of Tcp \<Rightarrow> ''tcp'' | Udp \<Rightarrow> ''udp'' | Both \<Rightarrow> ''both'' | OtherMode s \<Rightarrow> s)"

text \<open>The arguments that ask for the options.\<close>

definition options_argv :: "ClientCliOptions \<Rightarrow> string list" where
  "options_argv o1 =
     [''--relay'', co_relay o1, ''--protocol'', protocol_word (co_protocol o1), ''--tcp-port'', show_nat (co_tcpPort o1),
      ''--udp-port'', show_nat (co_udpPort o1), ''--local-host'', co_localHost o1] @
     (case co_token o1 of None \<Rightarrow> [] | Some t \<Rightarrow> [''--token'', t]) @
     (if co_haproxy o1 then [''--haproxy''] else []) @ (if co_showStatus o1 then [] else [''--no-status'']) @
     (if co_help o1 then [''--help''] else [])"

definition options_ok :: "cli_env \<Rightarrow> ClientCliOptions \<Rightarrow> bool" where
  "options_ok env o1 \<longleftrightarrow> port_in_range (co_tcpPort o1) \<and> port_in_range (co_udpPort o1) \<and>
     (case co_protocol o1 of OtherMode s \<Rightarrow> s \<notin> set [''tcp'', ''udp'', ''both''] | _ \<Rightarrow> True) \<and>
     (co_token o1 = None \<longrightarrow> trimmed (en_token env) = None)"

lemma protocol_of_word: "(case p of OtherMode s \<Rightarrow> s \<notin> set [''tcp'', ''udp'', ''both''] | _ \<Rightarrow> True) \<Longrightarrow> protocol_of (protocol_word p) = p"
  by (cases p) (simp_all add: protocol_of_def protocol_word_def)

lemma parsePort_show: "port_in_range n \<Longrightarrow> parsePort (show_nat n) opt = Inr n"
  by (simp add: parsePort_def)

lemma take_values:
  "take_option ''--relay'' (v # r) o1 = Inr (o1\<lparr>co_relay := v\<rparr>, r)"
  "take_option ''--token'' (v # r) o1 = Inr (o1\<lparr>co_token := Some v\<rparr>, r)"
  "take_option ''--protocol'' (v # r) o1 = Inr (o1\<lparr>co_protocol := protocol_of v\<rparr>, r)"
  "take_option ''--local-host'' (v # r) o1 = Inr (o1\<lparr>co_localHost := v\<rparr>, r)"
  by (simp_all add: take_option_def next_value_def bindE_def)

lemma take_ports:
  "port_in_range n \<Longrightarrow> take_option ''--tcp-port'' (show_nat n # r) o1 = Inr (o1\<lparr>co_tcpPort := n\<rparr>, r)"
  "port_in_range n \<Longrightarrow> take_option ''--udp-port'' (show_nat n # r) o1 = Inr (o1\<lparr>co_udpPort := n\<rparr>, r)"
  by (simp_all add: take_option_def next_value_def bindE_def parsePort_show)

lemma take_flags:
  "take_option ''--haproxy'' r o1 = Inr (o1\<lparr>co_haproxy := True\<rparr>, r)"
  "take_option ''--no-status'' r o1 = Inr (o1\<lparr>co_showStatus := False\<rparr>, r)"
  "take_option ''--help'' r o1 = Inr (o1\<lparr>co_help := True\<rparr>, r)"
  by (simp_all add: take_option_def)

text \<open>The ports of accepted arguments are in range, whatever the protocol.\<close>

definition ports_in_range :: "ClientCliOptions \<Rightarrow> bool" where
  "ports_in_range o1 \<longleftrightarrow> port_in_range (co_tcpPort o1) \<and> port_in_range (co_udpPort o1)"

lemma ports_in_range_fields [simp]:
  "ports_in_range (o1\<lparr>co_relay := a\<rparr>) = ports_in_range o1" "ports_in_range (o1\<lparr>co_token := b\<rparr>) = ports_in_range o1"
  "ports_in_range (o1\<lparr>co_protocol := p\<rparr>) = ports_in_range o1" "ports_in_range (o1\<lparr>co_localHost := a\<rparr>) = ports_in_range o1"
  "ports_in_range (o1\<lparr>co_haproxy := x\<rparr>) = ports_in_range o1" "ports_in_range (o1\<lparr>co_showStatus := x\<rparr>) = ports_in_range o1"
  "ports_in_range (o1\<lparr>co_help := x\<rparr>) = ports_in_range o1"
  by (simp_all add: ports_in_range_def)

lemma ports_in_range_set:
  "parsePort v opt = Inr n \<Longrightarrow> ports_in_range o1 \<Longrightarrow> ports_in_range (o1\<lparr>co_tcpPort := n\<rparr>)"
  "parsePort v opt = Inr n \<Longrightarrow> ports_in_range o1 \<Longrightarrow> ports_in_range (o1\<lparr>co_udpPort := n\<rparr>)"
  by (auto simp: ports_in_range_def parsePort_def split: if_split_asm)

lemma take_option_ports:
  assumes "take_option arg as o1 = Inr (o2, rest)" and "ports_in_range o1"
  shows "ports_in_range o2"
proof -
  consider "arg \<in> set [''--tcp-port'', ''--udp-port'']"
    | "arg \<in> set [''--relay'', ''--token'', ''--protocol'', ''--local-host'']"
    | "arg \<in> set [''--haproxy'', ''--no-status'', ''--help'', ''-h'']"
    | "arg \<notin> set [''--tcp-port'', ''--udp-port'', ''--relay'', ''--token'', ''--protocol'', ''--local-host'', ''--haproxy'', ''--no-status'', ''--help'', ''-h'']"
    by fastforce
  then show ?thesis
  proof cases
    case 1
    then show ?thesis using assms by (auto simp: take_option_def bindE_eq_Inr intro: ports_in_range_set)
  next
    case 2
    then show ?thesis using assms by (auto simp: take_option_def bindE_eq_Inr)
  next
    case 3
    then show ?thesis using assms by (auto simp: take_option_def)
  next
    case 4
    then show ?thesis using assms by (simp add: take_option_def)
  qed
qed

lemma arg_loop_ports:
  "arg_loop as o1 = Inr o2 \<Longrightarrow> ports_in_range o1 \<Longrightarrow> ports_in_range o2"
proof (induction as o1 rule: arg_loop.induct)
  case (2 arg as o1)
  then show ?case using take_option_ports [of arg as o1] by (auto split: sum.splits)
qed simp

lemma parse_ports: "parseArgs env argv = Inr o1 \<Longrightarrow> ports_in_range o1"
  unfolding parseArgs_def by (erule arg_loop_ports) (simp add: default_options_def ports_in_range_def port_in_range_def)


section \<open>The run ends clean\<close>










lemma release_sockets [simp]:
  "rc_sockets (release r c) = rc_sockets c" "rc_destroyed (release r c) = rc_destroyed c" "rc_heartbeat (release r c) = rc_heartbeat c"
  by (simp_all add: release_def sendRelayCommand_def split: option.split)









text \<open>C37: Options printed as arguments are read back exactly, with every value and flag, whatever relay
  and token the environment sets; only options without a token need an environment without one, since
  the arguments cannot take a token back. The ports are in range and the protocol is written in its own
  word.\<close>

theorem cli_options_roundtrip:
  assumes "options_ok env o1"
  shows "parseArgs env (options_argv o1) = Inr o1"
proof -
  let ?d = "default_options env"
  define o2 where "o2 = ?d\<lparr>co_relay := co_relay o1, co_protocol := co_protocol o1, co_tcpPort := co_tcpPort o1, co_udpPort := co_udpPort o1,
    co_localHost := co_localHost o1\<rparr>"
  define o3 where "o3 = o2\<lparr>co_token := co_token o1\<rparr>"
  define flags where "flags = (if co_haproxy o1 then [''--haproxy''] else []) @ (if co_showStatus o1 then [] else [''--no-status'']) @
     (if co_help o1 then [''--help''] else [])"
  have p: "protocol_of (protocol_word (co_protocol o1)) = co_protocol o1"
    using assms by (intro protocol_of_word) (simp add: options_ok_def)
  have r: "port_in_range (co_tcpPort o1)" "port_in_range (co_udpPort o1)" and t: "co_token o1 = None \<longrightarrow> co_token o2 = None"
    using assms by (simp_all add: options_ok_def o2_def default_options_def)
  have "parseArgs env (options_argv o1) = arg_loop ((case co_token o1 of None \<Rightarrow> [] | Some x \<Rightarrow> [''--token'', x]) @ flags) o2"
    by (simp add: parseArgs_def options_argv_def flags_def o2_def take_values take_ports r p)
  also have "\<dots> = arg_loop flags o3"
  proof (cases "co_token o1")
    case None
    then have "o3 = o2" using t by (cases o2) (simp add: o3_def)
    then show ?thesis using None by simp
  qed (simp add: take_values o3_def)
  also have "\<dots> = Inr (o3\<lparr>co_haproxy := co_haproxy o1, co_showStatus := co_showStatus o1, co_help := co_help o1\<rparr>)"
    by (simp add: flags_def take_flags o3_def o2_def default_options_def)
  also have "\<dots> = Inr o1" by (simp add: o3_def o2_def)
  finally show ?thesis .
qed

theorem cli_options_roundtrip_witness:
  "\<exists>o1. options_ok \<lparr>en_relay = Some ''r:1'', en_token = Some '' ''\<rparr> o1 \<and> co_token o1 = None \<and> \<not> co_showStatus o1 \<and>
     parseArgs \<lparr>en_relay = Some ''r:1'', en_token = Some '' ''\<rparr> (options_argv o1) = Inr o1"
proof -
  let ?o = "\<lparr>co_relay = ''relay:7'', co_token = None, co_protocol = Both, co_tcpPort = 5, co_udpPort = 6, co_localHost = ''h'',
    co_haproxy = True, co_showStatus = False, co_help = False\<rparr>"
  have "options_ok \<lparr>en_relay = Some ''r:1'', en_token = Some '' ''\<rparr> ?o"
    by (simp add: options_ok_def port_in_range_def trimmed_def trim_def is_ws_def)
  then show ?thesis using cli_options_roundtrip [of "\<lparr>en_relay = Some ''r:1'', en_token = Some '' ''\<rparr>" ?o] by (intro exI [of _ ?o]) simp
qed

text \<open>A second signal of another kind is ignored while the client stops.\<close>

lemma shutdown_once:
  "sg_shutdowns (foldl receive_signal wait_begin xs) \<le> 1 \<and>
   (xs \<noteq> [] \<longrightarrow> sg_shutdowns (foldl receive_signal wait_begin xs) = 1)"
proof -
  let ?ok = "\<lambda>s. sg_shutdowns s = (if sg_shuttingDown s then 1 else 0)"
  have step: "?ok (receive_signal s x)" if "?ok s" for s x
    using that by (auto simp: receive_signal_def handleSignal_def)
  have on: "sg_shuttingDown (receive_signal s x)" if "sg_shuttingDown s" for s x
    using that by (auto simp: receive_signal_def handleSignal_def)
  have keep: "?ok s \<Longrightarrow> sg_shuttingDown s \<Longrightarrow> ?ok (foldl receive_signal s ys) \<and> sg_shuttingDown (foldl receive_signal s ys)" for s ys
  proof (induction ys arbitrary: s)
    case (Cons y ys)
    show ?case using Cons.IH [OF step [OF Cons.prems(1)] on [OF Cons.prems(2)]] by simp
  qed simp
  have first: "?ok (receive_signal wait_begin x) \<and> sg_shuttingDown (receive_signal wait_begin x)" for x
    by (cases x) (simp_all add: receive_signal_def handleSignal_def wait_begin_def)
  show ?thesis
  proof (cases xs)
    case (Cons y ys)
    then show ?thesis using keep [of "receive_signal wait_begin y" ys] first [of y] by simp
  qed (simp add: wait_begin_def)
qed




end
