(* ===== verification/Metrics.thy ===== *)
theory Metrics
  imports Supervisor
begin

text \<open>
  Measurements the server of the GUI reports, of \<open>FerrumGUI/src/index.ts\<close> and \<open>ipAnalytics.ts\<close>: the load
  of the host, the counters of a proxy accumulated over its restarts, the addresses players connect
  from, and the public status of a shared relay. Numbers are exact; a number of an answer that is not
  finite counts as absent. The answers of the proxy, of the services that locate an address and of the
  operating system, and the text of a date, are arguments.
\<close>

section \<open>Addresses\<close>

text \<open>\<open>/:(\d+)$/\<close>: a colon and the digits at the end.\<close>

definition parseBindPort :: "string option \<Rightarrow> nat option" where
  "parseBindPort bind =
     (case bind of
        None \<Rightarrow> None
      | Some s \<Rightarrow>
          (case split_last (CHR '':'') s of
             None \<Rightarrow> None
           | Some (_, ds) \<Rightarrow>
               if all_digits ds \<and> 1 \<le> dec_val ds \<and> dec_val ds \<le> 65535 then Some (dec_val ds) else None))"

text \<open>\<open>replace(/^https?:\/\//i, '')\<close>\<close>

definition strip_scheme :: "string \<Rightarrow> string" where
  "strip_scheme s =
     (if startsWith (toLowerCase s) ''https://'' then drop 8 s else if startsWith (toLowerCase s) ''http://'' then drop 7 s else s)"

definition before_slash :: "string \<Rightarrow> string" where
  "before_slash s = (let h = hd (split_char (CHR ''/'') s) in if h = [] then s else h)"

text \<open>\<open>replace(/^\[|\]$/g, '')\<close>\<close>

definition strip_brackets :: "string \<Rightarrow> string" where
  "strip_brackets s =
     (let t = (if s \<noteq> [] \<and> hd s = CHR ''['' then tl s else s) in if t \<noteq> [] \<and> last t = CHR '']'' then butlast t else t)"

definition parseHostPort :: "string \<Rightarrow> (string \<times> nat) option" where
  "parseHostPort v =
     (if trim v = [] then None
      else case split_last (CHR '':'') (before_slash (strip_scheme (trim v))) of
             None \<Rightarrow> None
           | Some (h, p) \<Rightarrow>
               if h = [] \<or> p = [] then None
               else let host = strip_brackets (trim h) in
                    (case parseInt p of
                       None \<Rightarrow> None
                     | Some n \<Rightarrow> if host = [] \<or> n < 1 \<or> n > 65535 then None else Some (toLowerCase host, nat n)))"

text \<open>The constructor \<open>URL\<close> is an argument: the host name of a text that is a URL.\<close>

type_synonym url_host = "string \<Rightarrow> string option"

definition normalizeHostCandidate :: "url_host \<Rightarrow> string option \<Rightarrow> string" where
  "normalizeHostCandidate url v =
     (let t = (case v of None \<Rightarrow> [] | Some s \<Rightarrow> trim s) in
      if t = [] then [] else case url t of Some h \<Rightarrow> h | None \<Rightarrow> (let h = hd (split_char (CHR ''/'') (strip_scheme t)) in if h = [] then t else h))"

definition isLocalHost :: "string \<Rightarrow> bool" where
  "isLocalHost s \<longleftrightarrow> toLowerCase s \<in> set [''localhost'', ''0.0.0.0'', ''127.0.0.1'', ''::1'']"

text \<open>The shared service of a configuration, with the values the sources use as texts.\<close>

definition str_prop :: "jsval \<Rightarrow> string \<Rightarrow> string option" where
  "str_prop v k = (case opt_prop v k of Inr (JStr s) \<Rightarrow> Some s | _ \<Rightarrow> None)"

definition shared_of :: "jsval \<Rightarrow> jsval" where
  "shared_of config = (case opt_prop config ''sharedService'' of Inr v \<Rightarrow> v | Inl e \<Rightarrow> JUndef)"

definition shared_enabled :: "jsval \<Rightarrow> bool" where
  "shared_enabled config = (case opt_prop (shared_of config) ''enabled'' of Inr v \<Rightarrow> js_truthy v | Inl e \<Rightarrow> False)"

definition relayMatchesConfig :: "url_host \<Rightarrow> string \<Rightarrow> jsval \<Rightarrow> bool" where
  "relayMatchesConfig url relayAddress config =
     (case parseHostPort relayAddress of
        None \<Rightarrow> False
      | Some (host, port) \<Rightarrow>
          if \<not> shared_enabled config then False
          else if (case parseBindPort (str_prop (shared_of config) ''publicBind'') of None \<Rightarrow> False | Some p \<Rightarrow> port \<noteq> p) then False
          else let configured = toLowerCase (normalizeHostCandidate url (str_prop (shared_of config) ''publicHost'')) in
               configured = [] \<or> isLocalHost configured \<or> configured = host)"

text \<open>\<open>^172\.(\d+)\.\<close> with a number from 16 to 31.\<close>

definition private_172 :: "string \<Rightarrow> bool" where
  "private_172 s \<longleftrightarrow>
     startsWith s ''172.'' \<and>
     (let ds = takeWhile is_digit (drop 4 s) in
      ds \<noteq> [] \<and> startsWith (dropWhile is_digit (drop 4 s)) ''.'' \<and> 16 \<le> dec_val ds \<and> dec_val ds \<le> 31)"

definition strip_mapped :: "string \<Rightarrow> string" where
  "strip_mapped s = (if startsWith s ''::ffff:'' then drop 7 s else s)"

definition isPublicIp :: "string \<Rightarrow> bool" where
  "isPublicIp ip =
     (let n = strip_mapped (trim ip) in
      \<not> (n = [] \<or> n = ''::1'' \<or> n = ''localhost'') \<and>
      \<not> list_ex (startsWith n) [''10.'', ''127.'', ''169.254.'', ''192.168.''] \<and> \<not> private_172 n)"

definition toPositiveIntegerOrNull :: "jsval \<Rightarrow> int option" where
  "toPositiveIntegerOrNull v =
     (case v of
        JNum (Fin q) \<Rightarrow> (let t = (if 0 \<le> q then \<lfloor>q\<rfloor> else \<lceil>q\<rceil>) in if t \<ge> 0 then Some t else None)
      | _ \<Rightarrow> None)"

section \<open>The load of the host\<close>

record cpu_times =
  cpu_user :: rat
  cpu_nice :: rat
  cpu_sys :: rat
  cpu_idle :: rat
  cpu_irq :: rat

definition readCpuTimes :: "cpu_times list \<Rightarrow> rat \<times> rat" where
  "readCpuTimes cpus =
     (sum_list (map cpu_idle cpus), sum_list (map (\<lambda>c. cpu_user c + cpu_nice c + cpu_sys c + cpu_idle c + cpu_irq c) cpus))"

record HostLoadSnapshot =
  hl_loadRate :: rat
  hl_loadPercent :: rat
  hl_cpuPercent :: rat
  hl_memoryPercent :: rat
  hl_cpuCores :: nat
  hl_loadAverage :: "rat list"
  hl_memoryTotalBytes :: rat
  hl_memoryUsedBytes :: rat
  hl_memoryFreeBytes :: rat
  hl_uptimeSeconds :: int

definition clamp_percent :: "rat \<Rightarrow> rat" where
  "clamp_percent q = max 0 (min 100 q)"

text \<open>\<open>Math.round(q * n) / n\<close>\<close>

definition round_to :: "rat \<Rightarrow> rat \<Rightarrow> rat" where
  "round_to n q = of_int \<lfloor>q * n + 1 / 2\<rfloor> / n"

definition collectHostLoad ::
  "cpu_times list \<Rightarrow> cpu_times list \<Rightarrow> rat \<Rightarrow> rat \<Rightarrow> rat list \<Rightarrow> rat \<Rightarrow> HostLoadSnapshot" where
  "collectHostLoad cpus1 cpus2 memoryTotal memoryFree loads uptime =
     (let (idle1, total1) = readCpuTimes cpus1; (idle2, total2) = readCpuTimes cpus2;
          idleDelta = max 0 (idle2 - idle1); totalDelta = max 1 (total2 - total1);
          cpu = clamp_percent ((1 - idleDelta / totalDelta) * 100);
          memoryUsed = max 0 (memoryTotal - memoryFree);
          memory = (if memoryTotal > 0 then clamp_percent (memoryUsed / memoryTotal * 100) else 0);
          blended = clamp_percent (cpu * (3 / 4) + memory * (1 / 4)) in
      \<lparr>hl_loadRate = blended / 100, hl_loadPercent = round_to 10 blended, hl_cpuPercent = round_to 10 cpu,
       hl_memoryPercent = round_to 10 memory, hl_cpuCores = length cpus2, hl_loadAverage = map (round_to 100) (take 3 loads),
       hl_memoryTotalBytes = memoryTotal, hl_memoryUsedBytes = memoryUsed, hl_memoryFreeBytes = memoryFree,
       hl_uptimeSeconds = max 0 \<lfloor>uptime\<rfloor>\<rparr>)"

section \<open>Counters of a proxy\<close>

record ProtocolPerformanceSnapshot =
  pp_activeSessions :: rat
  pp_totalSessions :: rat
  pp_bytesClientToTarget :: rat
  pp_bytesTargetToClient :: rat
  pp_totalBytes :: rat

record accumulated =
  ac_totalSessions :: rat
  ac_bytesClientToTarget :: rat
  ac_bytesTargetToClient :: rat
  ac_totalBytes :: rat

record raw_counters =
  rw_totalSessions :: rat
  rw_totalBytes :: rat
  rw_tcp :: ProtocolPerformanceSnapshot
  rw_udp :: ProtocolPerformanceSnapshot

record PerformanceGeoLocation =
  geo_ip :: string
  geo_country :: "string option"
  geo_countryCode :: "string option"
  geo_region :: "string option"
  geo_city :: "string option"
  geo_latitude :: "rat option"
  geo_longitude :: "rat option"
  geo_resolvedAt :: string

record PerformanceCache =
  pc_processStartedAt :: "string option"
  pc_lastRaw :: "raw_counters option"
  pc_totalSessions :: rat
  pc_totalBytes :: rat
  pc_tcp :: accumulated
  pc_udp :: accumulated
  pc_geo :: "(string \<times> PerformanceGeoLocation) list"
  pc_updatedAt :: string

definition emptyAccumulatedProtocol :: accumulated where
  "emptyAccumulatedProtocol =
     \<lparr>ac_totalSessions = 0, ac_bytesClientToTarget = 0, ac_bytesTargetToClient = 0, ac_totalBytes = 0\<rparr>"

definition empty_cache :: PerformanceCache where
  "empty_cache = \<lparr>pc_processStartedAt = None, pc_lastRaw = None, pc_totalSessions = 0, pc_totalBytes = 0,
     pc_tcp = emptyAccumulatedProtocol, pc_udp = emptyAccumulatedProtocol, pc_geo = [], pc_updatedAt = ''1970-01-01T00:00:00.000Z''\<rparr>"

text \<open>The files, by the directory of the instance: the caches that were written, and what a failed read or a
  text that is no cache gives.\<close>

type_synonym caches = "(string \<times> PerformanceCache option) list"

definition readPerformanceCache :: "string \<Rightarrow> caches \<Rightarrow> PerformanceCache" where
  "readPerformanceCache dir fs = (case map_of fs dir of Some (Some c) \<Rightarrow> c | _ \<Rightarrow> empty_cache)"

text \<open>The new text replaces the old one only when the temporary file was written and renamed.\<close>

definition writePerformanceCache ::
  "js_error option \<Rightarrow> string \<Rightarrow> PerformanceCache \<Rightarrow> caches \<Rightarrow> caches \<times> unit res" where
  "writePerformanceCache io dir c fs = (case io of Some e \<Rightarrow> (fs, Inl e) | None \<Rightarrow> (AList.update dir (Some c) fs, Inr ()))"

text \<open>\<open>Math.max(0, Number(metrics[key]) || 0)\<close>\<close>

definition metric :: "jsval \<Rightarrow> string \<Rightarrow> rat" where
  "metric v k =
     (case js_prop (if js_truthy v then v else JObj []) k of
        Inr x \<Rightarrow> (case js_number x of Fin q \<Rightarrow> max 0 q | _ \<Rightarrow> 0)
      | Inl e \<Rightarrow> 0)"

definition normalizeProtocolMetrics :: "jsval \<Rightarrow> ProtocolPerformanceSnapshot" where
  "normalizeProtocolMetrics v =
     \<lparr>pp_activeSessions = metric v ''activeSessions'', pp_totalSessions = metric v ''totalSessions'',
      pp_bytesClientToTarget = metric v ''bytesClientToTarget'', pp_bytesTargetToClient = metric v ''bytesTargetToClient'',
      pp_totalBytes = metric v ''totalBytes''\<rparr>"

text \<open>The growth of a counter since the previous value of the same run; the whole value after a restart.\<close>

definition delta :: "rat \<Rightarrow> rat option \<Rightarrow> rat" where
  "delta current prior = (case prior of Some p \<Rightarrow> if current \<ge> p then current - p else current | None \<Rightarrow> current)"

definition addProtocolTotals ::
  "accumulated \<Rightarrow> ProtocolPerformanceSnapshot \<Rightarrow> ProtocolPerformanceSnapshot option \<Rightarrow> accumulated" where
  "addProtocolTotals a raw previous =
     \<lparr>ac_totalSessions = ac_totalSessions a + delta (pp_totalSessions raw) (map_option pp_totalSessions previous),
      ac_bytesClientToTarget = ac_bytesClientToTarget a + delta (pp_bytesClientToTarget raw) (map_option pp_bytesClientToTarget previous),
      ac_bytesTargetToClient = ac_bytesTargetToClient a + delta (pp_bytesTargetToClient raw) (map_option pp_bytesTargetToClient previous),
      ac_totalBytes = ac_totalBytes a + delta (pp_totalBytes raw) (map_option pp_totalBytes previous)\<rparr>"

definition read_counters :: "jsval \<Rightarrow> raw_counters res" where
  "read_counters performance =
     bindE (js_prop performance ''tcp'') (\<lambda>tcp. bindE (js_prop performance ''udp'') (\<lambda>udp.
       Inr \<lparr>rw_totalSessions = metric performance ''totalSessions'', rw_totalBytes = metric performance ''totalBytes'',
            rw_tcp = normalizeProtocolMetrics tcp, rw_udp = normalizeProtocolMetrics udp\<rparr>))"

text \<open>A start time that is known and the one of the previous sample.\<close>

definition same_run :: "string option \<Rightarrow> string option \<Rightarrow> bool" where
  "same_run started before \<longleftrightarrow> started \<noteq> None \<and> started \<noteq> Some [] \<and> before = started"

definition take_sample :: "string option \<Rightarrow> raw_counters \<Rightarrow> PerformanceCache \<Rightarrow> PerformanceCache" where
  "take_sample started raw cache =
     (let previous = (if same_run started (pc_processStartedAt cache) then pc_lastRaw cache else None) in
      cache\<lparr>pc_tcp := addProtocolTotals (pc_tcp cache) (rw_tcp raw) (map_option rw_tcp previous),
            pc_udp := addProtocolTotals (pc_udp cache) (rw_udp raw) (map_option rw_udp previous),
            pc_totalSessions := pc_totalSessions cache + delta (rw_totalSessions raw) (map_option rw_totalSessions previous),
            pc_totalBytes := pc_totalBytes cache + delta (rw_totalBytes raw) (map_option rw_totalBytes previous),
            pc_processStartedAt := started, pc_lastRaw := Some raw\<rparr>)"

section \<open>Addresses of players\<close>

text \<open>The files hold what the proxy writes: an address may be missing, the numbers are any JSON values.\<close>

record IpRecord =
  ir_ip :: "string option"
  ir_lastSeen :: jsval
  ir_connections :: jsval

record PlayerIpRecord =
  pr_username :: "string option"
  pr_ips :: "IpRecord list"

record ip_stats =
  is_ip :: string
  is_connections :: rat
  is_players :: "string list"
  is_lastSeen :: rat

text \<open>\<open>Math.max(1, Number(v) || 1)\<close> and \<open>Number(v) || 0\<close>\<close>

definition connection_count :: "jsval \<Rightarrow> rat" where
  "connection_count v = (case js_number v of Fin q \<Rightarrow> max 1 (if q = 0 then 1 else q) | _ \<Rightarrow> 1)"

definition seen_at :: "jsval \<Rightarrow> rat" where
  "seen_at v = (case js_number v of Fin q \<Rightarrow> q | _ \<Rightarrow> 0)"

definition stats_of :: "(string \<times> ip_stats) list \<Rightarrow> string \<Rightarrow> ip_stats" where
  "stats_of m ip = (case map_of m ip of Some x \<Rightarrow> x | None \<Rightarrow> \<lparr>is_ip = ip, is_connections = 0, is_players = [], is_lastSeen = 0\<rparr>)"

definition set_add :: "string option \<Rightarrow> string list \<Rightarrow> string list" where
  "set_add name xs = (case name of None \<Rightarrow> xs | Some n \<Rightarrow> if n = [] \<or> n \<in> set xs then xs else xs @ [n])"

definition known_ip :: "IpRecord \<Rightarrow> string option" where
  "known_ip e = (case ir_ip e of None \<Rightarrow> None | Some ip \<Rightarrow> if ip = [] then None else Some ip)"

definition add_login :: "string option \<Rightarrow> (string \<times> ip_stats) list \<Rightarrow> IpRecord \<Rightarrow> (string \<times> ip_stats) list" where
  "add_login username m e =
     (case known_ip e of
        None \<Rightarrow> m
      | Some ip \<Rightarrow>
          let x = stats_of m ip in
          AList.update ip (x\<lparr>is_connections := is_connections x + connection_count (ir_connections e),
             is_players := set_add username (is_players x), is_lastSeen := max (is_lastSeen x) (seen_at (ir_lastSeen e))\<rparr>) m)"

definition add_player :: "(string \<times> ip_stats) list \<Rightarrow> PlayerIpRecord \<Rightarrow> (string \<times> ip_stats) list" where
  "add_player m p = foldl (add_login (pr_username p)) m (pr_ips p)"

text \<open>The first record of an address in the connection file starts its count again.\<close>

definition add_connection :: "string list \<times> (string \<times> ip_stats) list \<Rightarrow> IpRecord \<Rightarrow> string list \<times> (string \<times> ip_stats) list" where
  "add_connection tm e =
     (case tm of (tracked, m) \<Rightarrow>
      case known_ip e of
        None \<Rightarrow> (tracked, m)
      | Some ip \<Rightarrow>
          let x = stats_of m ip in
          (List.insert ip tracked,
           AList.update ip (x\<lparr>is_connections := (if ip \<in> set tracked then is_connections x else 0) + connection_count (ir_connections e),
             is_lastSeen := max (is_lastSeen x) (seen_at (ir_lastSeen e))\<rparr>) m))"

definition aggregateConnectionIps :: "PlayerIpRecord list \<Rightarrow> IpRecord list \<Rightarrow> (string \<times> ip_stats) list" where
  "aggregateConnectionIps players connections = snd (foldl add_connection ([], foldl add_player [] players) connections)"

text \<open>The answer of the location service: an ok flag and a body.\<close>

definition opt_str :: "jsval \<Rightarrow> string option" where
  "opt_str v = (case v of JStr s \<Rightarrow> Some s | _ \<Rightarrow> None)"

definition finite_number :: "jsval \<Rightarrow> rat option" where
  "finite_number v = (case js_number v of Fin q \<Rightarrow> Some q | _ \<Rightarrow> None)"

definition resolveIpLocation :: "(string \<Rightarrow> (bool \<times> jsval res) res) \<Rightarrow> string \<Rightarrow> string \<Rightarrow> PerformanceGeoLocation option" where
  "resolveIpLocation whois nowText ip =
     (if \<not> isPublicIp ip then None
      else case whois ip of
             Inr (True, Inr data) \<Rightarrow>
               if data = JUndef \<or> data = JNull then None
               else let get = (\<lambda>k. case js_prop data k of Inr v \<Rightarrow> v | Inl e \<Rightarrow> JUndef) in
                    if get ''success'' = JBool False then None
                    else Some \<lparr>geo_ip = ip, geo_country = opt_str (get ''country''), geo_countryCode = opt_str (get ''country_code''),
                           geo_region = opt_str (get ''region''), geo_city = opt_str (get ''city''),
                           geo_latitude = finite_number (get ''latitude''), geo_longitude = finite_number (get ''longitude''),
                           geo_resolvedAt = nowText\<rparr>
           | _ \<Rightarrow> None)"

definition unresolved_ips :: "(string \<times> ip_stats) list \<Rightarrow> (string \<times> PerformanceGeoLocation) list \<Rightarrow> string list" where
  "unresolved_ips byIp geo = take 3 (filter (\<lambda>ip. map_of geo ip = None) (map fst byIp))"

definition unknown_location :: "string \<Rightarrow> string \<Rightarrow> PerformanceGeoLocation" where
  "unknown_location ip nowText = \<lparr>geo_ip = ip, geo_country = None, geo_countryCode = None, geo_region = None, geo_city = None,
     geo_latitude = None, geo_longitude = None, geo_resolvedAt = nowText\<rparr>"

definition locate ::
  "(string \<Rightarrow> (bool \<times> jsval res) res) \<Rightarrow> string \<Rightarrow> (string \<times> PerformanceGeoLocation) list \<Rightarrow> string \<Rightarrow> (string \<times> PerformanceGeoLocation) list" where
  "locate whois nowText geo ip =
     AList.update ip (case resolveIpLocation whois nowText ip of Some l \<Rightarrow> l | None \<Rightarrow> unknown_location ip nowText) geo"

record top_ip =
  ti_ip :: string
  ti_connections :: rat
  ti_players :: nat
  ti_lastSeen :: rat
  ti_location :: "PerformanceGeoLocation option"

record ip_analytics =
  ia_enabled :: bool
  ia_total :: rat
  ia_uniqueIps :: nat
  ia_topIps :: "top_ip list"
  ia_locations :: "(PerformanceGeoLocation \<times> rat) list"

text \<open>More connections first, then the later one; the sort is stable.\<close>

definition by_rank :: "ip_stats list \<Rightarrow> ip_stats list" where
  "by_rank xs = sort_key (\<lambda>x. - is_connections x) (sort_key (\<lambda>x. - is_lastSeen x) xs)"

definition top_of :: "(string \<times> PerformanceGeoLocation) list \<Rightarrow> ip_stats \<Rightarrow> top_ip" where
  "top_of geo x = \<lparr>ti_ip = is_ip x, ti_connections = is_connections x, ti_players = length (is_players x),
     ti_lastSeen = is_lastSeen x, ti_location = map_of geo (is_ip x)\<rparr>"

text \<open>The two files: a file that cannot be read or is no array counts as empty.\<close>

definition buildIpAnalytics ::
  "(string \<Rightarrow> (bool \<times> jsval res) res) \<Rightarrow> string \<Rightarrow> PlayerIpRecord list option \<Rightarrow> IpRecord list option \<Rightarrow> bool \<Rightarrow> PerformanceCache
     \<Rightarrow> PerformanceCache \<times> ip_analytics" where
  "buildIpAnalytics whois nowText players connections enabled cache =
     (if \<not> enabled then (cache, \<lparr>ia_enabled = False, ia_total = 0, ia_uniqueIps = 0, ia_topIps = [], ia_locations = []\<rparr>)
      else
        let byIp = aggregateConnectionIps (case players of None \<Rightarrow> [] | Some ps \<Rightarrow> ps) (case connections of None \<Rightarrow> [] | Some cs \<Rightarrow> cs);
            geo = foldl (locate whois nowText) (pc_geo cache) (unresolved_ips byIp (pc_geo cache));
            xs = map snd byIp in
        (cache\<lparr>pc_geo := geo\<rparr>,
         \<lparr>ia_enabled = True, ia_total = sum_list (map is_connections xs), ia_uniqueIps = length byIp,
          ia_topIps = map (top_of geo) (take 10 (by_rank xs)),
          ia_locations = concat (map (\<lambda>x. case map_of geo (is_ip x) of
                                            Some l \<Rightarrow> if geo_ip l = [] then [] else [(l, is_connections x)]
                                          | None \<Rightarrow> []) xs)\<rparr>))"

section \<open>Handlers\<close>

text \<open>The answer of the proxy to a request for its counters.\<close>

datatype polled = Poll_timeout | Poll_failed | Poll_status nat | Poll_body "jsval res"

record perf_env =
  pe_poll :: polled
  pe_iso :: "ms \<Rightarrow> string"
  pe_nowText :: string
  pe_whois :: "string \<Rightarrow> (bool \<times> jsval res) res"
  pe_players :: "PlayerIpRecord list option"
  pe_connections :: "IpRecord list option"
  pe_read :: "js_error option"
  pe_write :: "js_error option"

datatype perf_reply =
    Unavailable string
  | Sampled PerformanceCache raw_counters ip_analytics
  | Perf_done
  | Perf_fail nat string
  | Perf_crash js_error

text \<open>\<open>getStartedAt(id)?.toISOString() || instance.lastStarted\<close>\<close>

definition started_text :: "(ms \<Rightarrow> string) \<Rightarrow> FerrumProxyInstance \<Rightarrow> ProcessManager \<Rightarrow> string option" where
  "started_text isoText x pm =
     (case map_of (pm_startedAt pm) (inst_id x) of Some t \<Rightarrow> if isoText t = [] then lastStarted x else Some (isoText t) | None \<Rightarrow> lastStarted x)"

definition handle_performance :: "perf_env \<Rightarrow> string \<Rightarrow> world \<Rightarrow> caches \<Rightarrow> caches \<times> perf_reply" where
  "handle_performance e i w fs =
     (case getById i (w_sm w) of
        None \<Rightarrow> (fs, Perf_fail 404 ''Instance not found'')
      | Some x \<Rightarrow>
          (case bindE (config_read (pe_read e) (configPath x) (w_disk w)) (\<lambda>c. bindE (js_prop c ''useRestApi'') (\<lambda>b.
                  bindE (js_prop c ''savePlayerIP'') (\<lambda>s. Inr (js_truthy b, js_truthy s)))) of
             Inl er \<Rightarrow> (fs, Perf_crash er)
           | Inr (rest, save_ips) \<Rightarrow>
               if \<not> rest then (fs, Unavailable ''rest_api_disabled'')
               else if \<not> isRunning i (w_pm w) then (fs, Unavailable ''not_running'')
               else (case pe_poll e of
                       Poll_timeout \<Rightarrow> (fs, Unavailable ''timeout'')
                     | Poll_failed \<Rightarrow> (fs, Unavailable ''unreachable'')
                     | Poll_status n \<Rightarrow> (fs, Unavailable ''backend_error'')
                     | Poll_body body \<Rightarrow>
                         (case bindE body read_counters of
                            Inl er \<Rightarrow> (fs, Perf_crash er)
                          | Inr raw \<Rightarrow>
                              let cache = (take_sample (started_text (pe_iso e) x (w_pm w)) raw
                                             (readPerformanceCache (dataDir x) fs))\<lparr>pc_updatedAt := pe_nowText e\<rparr> in
                              (case buildIpAnalytics (pe_whois e) (pe_nowText e) (pe_players e) (pe_connections e) save_ips cache of
                                 (cache2, analytics) \<Rightarrow>
                                   (case writePerformanceCache (pe_write e) (dataDir x) cache2 fs of
                                      (fs2, Inl er) \<Rightarrow> (fs2, Perf_crash er)
                                    | (fs2, Inr _) \<Rightarrow> (fs2, Sampled cache2 raw analytics)))))))"

text \<open>The totals start again from the counters the proxy shows now.\<close>

definition reset_cache :: "bool \<Rightarrow> polled \<Rightarrow> string option \<Rightarrow> string \<Rightarrow> PerformanceCache \<Rightarrow> PerformanceCache" where
  "reset_cache polls poll started nowText cache =
     (let c = cache\<lparr>pc_totalSessions := 0, pc_totalBytes := 0, pc_tcp := emptyAccumulatedProtocol, pc_udp := emptyAccumulatedProtocol,
                    pc_geo := [], pc_updatedAt := nowText\<rparr>;
          forget = c\<lparr>pc_processStartedAt := None, pc_lastRaw := None\<rparr> in
      if \<not> polls then forget
      else case poll of
             Poll_body body \<Rightarrow>
               (case bindE body read_counters of
                  Inl er \<Rightarrow> forget
                | Inr raw \<Rightarrow> c\<lparr>pc_processStartedAt := started, pc_lastRaw := Some raw\<rparr>)
           | Poll_status n \<Rightarrow> c
           | _ \<Rightarrow> forget)"

definition handle_reset :: "perf_env \<Rightarrow> string \<Rightarrow> world \<Rightarrow> caches \<Rightarrow> caches \<times> perf_reply" where
  "handle_reset e i w fs =
     (case getById i (w_sm w) of
        None \<Rightarrow> (fs, Perf_fail 404 ''Instance not found'')
      | Some x \<Rightarrow>
          (case bindE (config_read (pe_read e) (configPath x) (w_disk w)) (\<lambda>c. js_prop c ''useRestApi'') of
             Inl er \<Rightarrow> (fs, Perf_crash er)
           | Inr b \<Rightarrow>
               (case writePerformanceCache (pe_write e) (dataDir x)
                       (reset_cache (js_truthy b \<and> isRunning i (w_pm w)) (pe_poll e) (started_text (pe_iso e) x (w_pm w)) (pe_nowText e)
                         (readPerformanceCache (dataDir x) fs)) fs of
                  (fs2, Inl er) \<Rightarrow> (fs2, Perf_crash er)
                | (fs2, Inr _) \<Rightarrow> (fs2, Perf_done))))"

section \<open>Location of an instance\<close>

text \<open>\<open>const [lat, lng] = loc.split(',').map(trim)\<close>; a missing part is not a number.\<close>

definition parseIpInfoLoc :: "string option \<Rightarrow> (rat \<times> rat) option" where
  "parseIpInfoLoc loc =
     (case loc of
        None \<Rightarrow> None
      | Some l \<Rightarrow>
          if l = [] then None
          else case split_char (CHR '','') l of
                 a # b # _ \<Rightarrow> (case (str_number (trim a), str_number (trim b)) of (Fin x, Fin y) \<Rightarrow> Some (x, y) | _ \<Rightarrow> None)
               | _ \<Rightarrow> None)"

definition getIpInfoTarget :: "url_host \<Rightarrow> string option \<Rightarrow> string option \<Rightarrow> string option \<Rightarrow> string option" where
  "getIpInfoTarget url publicHost forwarded remote =
     (let host = normalizeHostCandidate url publicHost in
      if host \<noteq> [] \<and> \<not> isLocalHost host then Some host
      else
        let text = (\<lambda>v. case v of None \<Rightarrow> [] | Some s \<Rightarrow> s);
            raw = (if text forwarded \<noteq> [] then text forwarded else text remote);
            n = strip_mapped (trim (hd (split_char (CHR '','') raw))) in
        if n = [] \<or> isLocalHost n then None else Some n)"

definition nonempty :: "string \<Rightarrow> string option" where
  "nonempty s = (if s = [] then None else Some s)"

text \<open>The answer of the service for a target; a body that is no JSON counts as \<open>null\<close>.\<close>

definition resolveLocationFromIpInfo :: "bool \<Rightarrow> (string option \<Rightarrow> (bool \<times> jsval res) res) \<Rightarrow> string option \<Rightarrow> publicMetadata option" where
  "resolveLocationFromIpInfo enabled ask target =
     (if \<not> enabled then None
      else case ask target of
             Inr (True, Inr data) \<Rightarrow>
               if \<not> js_truthy data then None
               else let get = (\<lambda>k. case js_prop data k of Inr (JStr s) \<Rightarrow> Some s | _ \<Rightarrow> None);
                        reg = (case get ''region'' of None \<Rightarrow> [] | Some s \<Rightarrow> trim s);
                        cc = (case get ''country'' of None \<Rightarrow> [] | Some s \<Rightarrow> toUpperCase (trim s));
                        loc = parseIpInfoLoc (get ''loc'') in
                    if reg = [] \<and> cc = [] \<and> loc = None then None
                    else Some \<lparr>region = nonempty reg, countryCode = nonempty cc, latitude = map_option fst loc, longitude = map_option snd loc\<rparr>
           | _ \<Rightarrow> None)"

definition no_metadata :: publicMetadata where
  "no_metadata = \<lparr>region = None, countryCode = None, latitude = None, longitude = None\<rparr>"

definition metadata_of :: "FerrumProxyInstance \<Rightarrow> publicMetadata" where
  "metadata_of x = (case inst_metadata x of None \<Rightarrow> no_metadata | Some m \<Rightarrow> m)"

definition first_text :: "string option \<Rightarrow> string option \<Rightarrow> string option" where
  "first_text a b = (case a of Some s \<Rightarrow> if s = [] then b else Some s | None \<Rightarrow> b)"

definition complete_metadata :: "publicMetadata \<Rightarrow> bool" where
  "complete_metadata m \<longleftrightarrow> first_text (region m) None \<noteq> None \<and> first_text (countryCode m) None \<noteq> None \<and>
     latitude m \<noteq> None \<and> longitude m \<noteq> None"

definition fill_metadata :: "publicMetadata \<Rightarrow> publicMetadata \<Rightarrow> publicMetadata" where
  "fill_metadata m found =
     \<lparr>region = first_text (region m) (region found), countryCode = first_text (countryCode m) (countryCode found),
      latitude = (case latitude m of None \<Rightarrow> latitude found | Some q \<Rightarrow> Some q),
      longitude = (case longitude m of None \<Rightarrow> longitude found | Some q \<Rightarrow> Some q)\<rparr>"

datatype meta_reply =
    Metadata FerrumProxyInstance jsval publicMetadata
  | Meta_saved publicMetadata
  | Meta_fail nat string
  | Meta_crash js_error

text \<open>The reply holds the instance and the configuration whose fields it shows, and the location.\<close>

definition handle_get_metadata ::
  "url_host \<Rightarrow> bool \<Rightarrow> (string option \<Rightarrow> (bool \<times> jsval res) res) \<Rightarrow> sup_env \<Rightarrow> string option \<Rightarrow> string option \<Rightarrow> string \<Rightarrow> world
     \<Rightarrow> world \<times> meta_reply" where
  "handle_get_metadata url enabled ask e forwarded remote i w =
     (case getById i (w_sm w) of
        None \<Rightarrow> (w, Meta_fail 404 ''Instance not found'')
      | Some x \<Rightarrow>
          (case bindE (config_read (se_read e) (configPath x) (w_disk w)) (\<lambda>c. js_prop c ''sharedService'') of
             Inl er \<Rightarrow> (w, Meta_crash er)
           | Inr shared \<Rightarrow>
               let m = metadata_of x in
               if complete_metadata m then (w, Metadata x shared m)
               else (case resolveLocationFromIpInfo enabled ask (getIpInfoTarget url (str_prop shared ''publicHost'') forwarded remote) of
                       None \<Rightarrow> (w, Metadata x shared m)
                     | Some found \<Rightarrow>
                         let m2 = fill_metadata m found in
                         if m2 = m then (w, Metadata x shared m2)
                         else (case update (se_save e) (se_text e) i [UMetadata m2] (w_sm w) of
                                 (s, Inl er) \<Rightarrow> (w\<lparr>w_sm := s\<rparr>, Meta_crash er)
                               | (s, Inr _) \<Rightarrow> (w\<lparr>w_sm := s\<rparr>, Metadata x shared m2)))))"

text \<open>A text is trimmed and an empty one clears the field; a coordinate that is \<open>null\<close> or missing is kept and
  one that is no finite number is cleared.\<close>

definition put_coordinate :: "jsval \<Rightarrow> rat option \<Rightarrow> rat option" where
  "put_coordinate v old = (if v = JUndef \<or> v = JNull then old else case v of JNum (Fin q) \<Rightarrow> Some q | _ \<Rightarrow> None)"

definition put_metadata :: "fields \<Rightarrow> publicMetadata \<Rightarrow> publicMetadata" where
  "put_metadata body m =
     \<lparr>region = (case own body ''region'' of JStr s \<Rightarrow> nonempty (trim s) | _ \<Rightarrow> region m),
      countryCode = (case own body ''countryCode'' of JStr s \<Rightarrow> nonempty (toUpperCase (trim s)) | _ \<Rightarrow> countryCode m),
      latitude = put_coordinate (own body ''latitude'') (latitude m), longitude = put_coordinate (own body ''longitude'') (longitude m)\<rparr>"

definition handle_put_metadata :: "sup_env \<Rightarrow> string \<Rightarrow> fields \<Rightarrow> world \<Rightarrow> world \<times> meta_reply" where
  "handle_put_metadata e i body w =
     (case getById i (w_sm w) of
        None \<Rightarrow> (w, Meta_fail 404 ''Instance not found'')
      | Some x \<Rightarrow>
          let m = put_metadata body (metadata_of x) in
          (case update (se_save e) (se_text e) i [UMetadata m] (w_sm w) of
             (s, Inl er) \<Rightarrow> (w\<lparr>w_sm := s\<rparr>, Meta_crash er)
           | (s, Inr _) \<Rightarrow>
               (w\<lparr>w_sm := s\<rparr>, Meta_saved (case Option.bind (getById i s) inst_metadata of Some m2 \<Rightarrow> m2 | None \<Rightarrow> m))))"

section \<open>Status of a shared relay\<close>

text \<open>The first candidate whose configuration shares a relay that fits the address; a configuration that cannot
  be read ends the request.\<close>

fun match_relay ::
  "url_host \<Rightarrow> (string \<Rightarrow> jsval res) \<Rightarrow> string \<Rightarrow> FerrumProxyInstance list \<Rightarrow> (FerrumProxyInstance \<times> jsval) option res" where
  "match_relay url read relayAddress [] = Inr None"
| "match_relay url read relayAddress (x # xs) =
     (case bindE (read (configPath x)) (\<lambda>c. bindE (js_prop c ''sharedService'') (\<lambda>s. bindE (opt_prop s ''enabled'') (\<lambda>b. Inr (c, js_truthy b)))) of
        Inl e \<Rightarrow> Inl e
      | Inr (c, enabled) \<Rightarrow>
          if \<not> enabled then match_relay url read relayAddress xs
          else if relayAddress \<noteq> [] \<and> \<not> relayMatchesConfig url relayAddress c then match_relay url read relayAddress xs
          else Inr (Some (x, c)))"

record relay_status =
  rs_instance :: FerrumProxyInstance
  rs_config :: jsval
  rs_relayAddress :: "string option"
  rs_pingMs :: "ms option"
  rs_load :: HostLoadSnapshot
  rs_activeSessions :: "int option"
  rs_publicPort :: "nat option"
  rs_metadata :: publicMetadata

datatype status_reply = Status relay_status | Status_fail nat string | Status_crash js_error

text \<open>The body of the proxy is read only when its answer is ok.\<close>

definition poll_sessions :: "polled \<Rightarrow> int option" where
  "poll_sessions p =
     (case p of
        Poll_body (Inr v) \<Rightarrow> (case opt_prop v ''total_active_sessions'' of Inr n \<Rightarrow> toPositiveIntegerOrNull n | Inl e \<Rightarrow> None)
      | _ \<Rightarrow> None)"

definition poll_ping :: "ms \<Rightarrow> polled \<Rightarrow> ms option" where
  "poll_ping took p = (case p of Poll_timeout \<Rightarrow> None | Poll_failed \<Rightarrow> None | _ \<Rightarrow> Some (max 0 took))"

definition handle_relay_status ::
  "url_host \<Rightarrow> js_error option \<Rightarrow> HostLoadSnapshot \<Rightarrow> polled \<Rightarrow> ms \<Rightarrow> jsval \<Rightarrow> jsval \<Rightarrow> world \<Rightarrow> status_reply" where
  "handle_relay_status url io hostLoad poll took instanceIdRaw relayRaw w =
     (let text = (\<lambda>v. case v of JStr s \<Rightarrow> trim s | _ \<Rightarrow> []);
          instanceId = text instanceIdRaw; relayAddress = text relayRaw;
          candidates = (if instanceId \<noteq> [] then filter (\<lambda>x. inst_id x = instanceId) (getAll (w_sm w)) else getAll (w_sm w)) in
      if candidates = [] then Status_fail 404 ''Shared relay instance not found''
      else case match_relay url (\<lambda>p. config_read io p (w_disk w)) relayAddress candidates of
             Inl e \<Rightarrow> Status_crash e
           | Inr None \<Rightarrow> Status_fail 404 ''No shared relay matched the requested criteria''
           | Inr (Some (x, c)) \<Rightarrow>
               let rest = (case opt_prop c ''useRestApi'' of Inr b \<Rightarrow> js_truthy b | Inl e \<Rightarrow> False) in
               Status \<lparr>rs_instance = x, rs_config = c, rs_relayAddress = nonempty relayAddress,
                 rs_pingMs = (if rest then poll_ping took poll else None), rs_load = hostLoad,
                 rs_activeSessions = (if rest then poll_sessions poll else None),
                 rs_publicPort = parseBindPort (str_prop (shared_of c) ''publicBind''), rs_metadata = metadata_of x\<rparr>)"

text \<open>The file of player addresses: its text read as JSON, or how reading it failed.\<close>

definition handle_player_ips :: "jsval res \<Rightarrow> string \<Rightarrow> world \<Rightarrow> reply" where
  "handle_player_ips file i w =
     (case getById i (w_sm w) of
        None \<Rightarrow> Fail 404 ''Instance not found''
      | Some x \<Rightarrow>
          (case file of
             Inr v \<Rightarrow> ConfigIs v
           | Inl e \<Rightarrow> if e = SysError ''ENOENT'' then ConfigIs (JArr []) else Crash e))"

section \<open>Bounds of the load\<close>

lemma clamp_bounds: "0 \<le> clamp_percent q" "clamp_percent q \<le> 100"
  by (simp_all add: clamp_percent_def)

lemma round_bounds:
  assumes "0 \<le> q" and "q \<le> 100"
  shows "0 \<le> round_to 10 q \<and> round_to 10 q \<le> 100"
proof -
  have "0 \<le> \<lfloor>q * 10 + 1 / 2\<rfloor>" using assms(1) by simp
  moreover have "\<lfloor>q * 10 + 1 / 2\<rfloor> \<le> 1000"
  proof -
    have "q * 10 + 1 / 2 < 1001" using assms(2) by simp
    then show ?thesis by (simp add: floor_le_iff)
  qed
  ultimately show ?thesis by (auto simp: round_to_def divide_le_eq)
qed

lemma round_close: "\<bar>round_to 10 q - q\<bar> \<le> 1 / 20"
proof -
  have "of_int \<lfloor>q * 10 + 1 / 2\<rfloor> \<le> q * 10 + 1 / 2" "q * 10 + 1 / 2 < of_int \<lfloor>q * 10 + 1 / 2\<rfloor> + 1" by linarith+
  then show ?thesis unfolding round_to_def by linarith
qed

text \<open>What the counters mean: the time a processor was busy, and how much a counter has grown over all of
  them.\<close>

definition busy_time :: "cpu_times \<Rightarrow> rat" where
  "busy_time c = cpu_user c + cpu_nice c + cpu_sys c + cpu_irq c"

definition growth :: "(cpu_times \<Rightarrow> rat) \<Rightarrow> cpu_times list \<Rightarrow> cpu_times list \<Rightarrow> rat" where
  "growth f cpus1 cpus2 = sum_list (map f cpus2) - sum_list (map f cpus1)"

lemma growth_nonneg: "list_all2 (\<lambda>c d. f c \<le> f d) cpus1 cpus2 \<Longrightarrow> 0 \<le> growth f cpus1 cpus2"
  unfolding growth_def by (induction rule: list_all2_induct) auto

lemma total_time: "snd (readCpuTimes cpus) = sum_list (map busy_time cpus) + sum_list (map cpu_idle cpus)"
  by (induction cpus) (simp_all add: readCpuTimes_def busy_time_def)

lemma clamp_id: "0 \<le> q \<Longrightarrow> q \<le> 100 \<Longrightarrow> clamp_percent q = q"
  by (simp add: clamp_percent_def)

text \<open>C38: The load reported for the host is what the counters say. When no counter of a processor goes back
  and the processors together have advanced by at least one tick, the load rate is exactly three quarters of
  the share of time they were busy plus one quarter of the share of memory in use, between 0 and 1, and the
  percentages reported are these shares to within a twentieth of a percent.\<close>

theorem host_load_shares:
  assumes "list_all2 (\<lambda>c d. busy_time c \<le> busy_time d) cpus1 cpus2" and "list_all2 (\<lambda>c d. cpu_idle c \<le> cpu_idle d) cpus1 cpus2"
    and "1 \<le> growth busy_time cpus1 cpus2 + growth cpu_idle cpus1 cpus2" and "0 \<le> memoryFree" "memoryFree \<le> memoryTotal" "0 < memoryTotal"
    and "cpu = growth busy_time cpus1 cpus2 / (growth busy_time cpus1 cpus2 + growth cpu_idle cpus1 cpus2)"
    and "mem = (memoryTotal - memoryFree) / memoryTotal" and "h = collectHostLoad cpus1 cpus2 memoryTotal memoryFree loads uptime"
  shows "hl_loadRate h = 3 / 4 * cpu + 1 / 4 * mem \<and> 0 \<le> hl_loadRate h \<and> hl_loadRate h \<le> 1 \<and>
    \<bar>hl_loadPercent h - 100 * hl_loadRate h\<bar> \<le> 1 / 20 \<and> \<bar>hl_cpuPercent h - 100 * cpu\<bar> \<le> 1 / 20 \<and>
    \<bar>hl_memoryPercent h - 100 * mem\<bar> \<le> 1 / 20 \<and> hl_memoryUsedBytes h = mem * memoryTotal"
proof -
  let ?b = "growth busy_time cpus1 cpus2" and ?i = "growth cpu_idle cpus1 cpus2"
  have g: "0 \<le> ?b" "0 \<le> ?i" using assms(1,2) by (simp_all add: growth_nonneg)
  have c: "0 \<le> cpu" "cpu \<le> 1" using g assms(3) by (simp_all add: assms(7) field_simps)
  have m: "0 \<le> mem" "mem \<le> 1" using assms(4-6) by (simp_all add: assms(8) field_simps)
  have i: "max 0 (fst (readCpuTimes cpus2) - fst (readCpuTimes cpus1)) = ?i" using g(2) by (simp add: readCpuTimes_def growth_def)
  have t: "max 1 (snd (readCpuTimes cpus2) - snd (readCpuTimes cpus1)) = ?b + ?i"
    using assms(3) by (simp add: total_time growth_def)
  have "1 - ?i / (?b + ?i) = cpu" using assms(3) by (simp add: assms(7) field_simps)
  then have cc: "clamp_percent ((1 - ?i / (?b + ?i)) * 100) = 100 * cpu" using c by (simp add: clamp_id)
  have u: "max 0 (memoryTotal - memoryFree) = mem * memoryTotal" using assms(5,6) by (simp add: assms(8))
  have mm: "clamp_percent (mem * 100) = 100 * mem" using m by (simp add: clamp_id)
  have b: "clamp_percent (75 * cpu + 25 * mem) = 75 * cpu + 25 * mem"
    using c m by (intro clamp_id) linarith+
  have h: "hl_loadRate h = 3 / 4 * cpu + 1 / 4 * mem" "hl_loadPercent h = round_to 10 (75 * cpu + 25 * mem)"
      "hl_cpuPercent h = round_to 10 (100 * cpu)" "hl_memoryPercent h = round_to 10 (100 * mem)" "hl_memoryUsedBytes h = mem * memoryTotal"
    unfolding assms(9) collectHostLoad_def Let_def case_prod_beta i t cc u using assms(6) by (simp_all add: mm b)
  have "100 * (3 / 4 * cpu + 1 / 4 * mem) = 75 * cpu + 25 * mem" by simp
  moreover have "0 \<le> 3 / 4 * cpu + 1 / 4 * mem" "3 / 4 * cpu + 1 / 4 * mem \<le> 1" using c m by linarith+
  ultimately show ?thesis unfolding h using round_close by presburger
qed

theorem host_load_shares_witness:
  "hl_loadRate (collectHostLoad [\<lparr>cpu_user = 1, cpu_nice = 0, cpu_sys = 0, cpu_idle = 5, cpu_irq = 0\<rparr>]
     [\<lparr>cpu_user = 2, cpu_nice = 0, cpu_sys = 0, cpu_idle = 8, cpu_irq = 0\<rparr>] 10 5 [] 0) = 5 / 16"
proof -
  let ?x = "[\<lparr>cpu_user = 1, cpu_nice = 0, cpu_sys = 0, cpu_idle = 5, cpu_irq = 0\<rparr>]"
    and ?y = "[\<lparr>cpu_user = 2, cpu_nice = 0, cpu_sys = 0, cpu_idle = 8, cpu_irq = 0\<rparr>]"
  have "growth busy_time ?x ?y = 1" "growth cpu_idle ?x ?y = 3" by (simp_all add: growth_def busy_time_def)
  then show ?thesis using host_load_shares [of ?x ?y 5 10 _ _ _ "[]" 0, OF _ _ _ _ _ _ refl refl refl] by (simp add: busy_time_def)
qed

section \<open>Totals over restarts\<close>

text \<open>What a counter that starts from zero with every run has counted in all: the last value of each run. A
  run ends when the start time changes or is unknown, and when the counter falls.\<close>

fun counted :: "(string option \<times> rat) list \<Rightarrow> rat" where
  "counted [] = 0"
| "counted [(s, x)] = x"
| "counted ((s, x) # (t, y) # r) = (if same_run t s \<and> x \<le> y then 0 else x) + counted ((t, y) # r)"

lemma counted_snoc: "counted (xs @ [(s, x), (t, y)]) = counted (xs @ [(s, x)]) + delta y (if same_run t s then Some x else None)"
proof (induction xs rule: counted.induct)
  case (2 s' x')
  then show ?case by (auto simp: delta_def)
qed (auto simp: delta_def)

text \<open>The ten counters of a sample, and the totals of a cache in their order.\<close>

definition counters :: "(raw_counters \<Rightarrow> rat) list" where
  "counters = [rw_totalSessions, rw_totalBytes,
     \<lambda>r. pp_totalSessions (rw_tcp r), \<lambda>r. pp_bytesClientToTarget (rw_tcp r), \<lambda>r. pp_bytesTargetToClient (rw_tcp r), \<lambda>r. pp_totalBytes (rw_tcp r),
     \<lambda>r. pp_totalSessions (rw_udp r), \<lambda>r. pp_bytesClientToTarget (rw_udp r), \<lambda>r. pp_bytesTargetToClient (rw_udp r), \<lambda>r. pp_totalBytes (rw_udp r)]"

definition totals :: "PerformanceCache \<Rightarrow> rat list" where
  "totals c = [pc_totalSessions c, pc_totalBytes c] @
     concat (map (\<lambda>a. [ac_totalSessions a, ac_bytesClientToTarget a, ac_bytesTargetToClient a, ac_totalBytes a]) [pc_tcp c, pc_udp c])"

definition samples :: "(string option \<times> raw_counters) list \<Rightarrow> PerformanceCache" where
  "samples xs = foldl (\<lambda>c (t, r). take_sample t r c) empty_cache xs"

definition history :: "(raw_counters \<Rightarrow> rat) \<Rightarrow> (string option \<times> raw_counters) list \<Rightarrow> (string option \<times> rat) list" where
  "history f xs = map (\<lambda>(t, r). (t, f r)) xs"

lemma samples_last: "samples (xs @ [(t, r)]) = take_sample t r (samples xs)"
  by (simp add: samples_def)

lemma sample_fields: "pc_processStartedAt (take_sample t r c) = t" "pc_lastRaw (take_sample t r c) = Some r"
  by (simp_all add: take_sample_def Let_def)

lemma previous_sample:
  "(if same_run t (pc_processStartedAt (samples xs)) then pc_lastRaw (samples xs) else None) =
   (case rev xs of [] \<Rightarrow> None | (s, r) # _ \<Rightarrow> if same_run t s then Some r else None)"
proof (cases xs rule: rev_cases)
  case Nil
  then show ?thesis by (simp add: samples_def empty_cache_def)
next
  case (snoc ys p)
  then show ?thesis by (cases p) (simp add: samples_last sample_fields)
qed

lemma counted_history:
  "counted (history f (xs @ [(t, r)])) =
   counted (history f xs) + delta (f r) (map_option f (case rev xs of [] \<Rightarrow> None | (s, q) # _ \<Rightarrow> if same_run t s then Some q else None))"
proof (cases xs rule: rev_cases)
  case Nil
  then show ?thesis by (simp add: history_def delta_def)
next
  case (snoc ys p)
  obtain s q where p: "p = (s, q)" by (cases p)
  have e: "history f (xs @ [(t, r)]) = history f ys @ [(s, f q), (t, f r)]" using snoc p by (simp add: history_def)
  have e': "history f xs = history f ys @ [(s, f q)]" using snoc p by (simp add: history_def)
  show ?thesis unfolding e e' counted_snoc using snoc p by simp
qed

lemma totals_sample:
  "totals (take_sample t r c) = map (\<lambda>(a, f). a + delta (f r) (map_option f
     (if same_run t (pc_processStartedAt c) then pc_lastRaw c else None))) (zip (totals c) counters)"
  by (simp add: take_sample_def totals_def counters_def addProtocolTotals_def Let_def option.map_comp o_def)

lemma totals_samples: "totals (samples xs) = map (\<lambda>f. counted (history f xs)) counters"
proof (induction xs rule: rev_induct)
  case Nil
  then show ?case by (simp add: samples_def empty_cache_def totals_def counters_def emptyAccumulatedProtocol_def history_def)
next
  case (snoc p xs)
  obtain t r where p: "p = (t, r)" by (cases p)
  show ?case unfolding p samples_last totals_sample previous_sample counted_history snoc
    by (simp add: zip_map1 zip_same_conv_map)
qed

text \<open>A run of requests: the samples the handler reports, in order.\<close>

definition reported :: "perf_reply \<Rightarrow> (string option \<times> raw_counters) list" where
  "reported r = (case r of Sampled c raw a \<Rightarrow> [(pc_processStartedAt c, raw)] | _ \<Rightarrow> [])"

fun perf_run :: "string \<Rightarrow> (perf_env \<times> world) list \<Rightarrow> caches \<Rightarrow> caches \<times> (string option \<times> raw_counters) list" where
  "perf_run i [] fs = (fs, [])"
| "perf_run i ((e, w) # qs) fs =
     (let (fs1, r) = handle_performance e i w fs; (fs2, xs) = perf_run i qs fs1 in (fs2, reported r @ xs))"

text \<open>Two caches that agree on what the counting uses.\<close>

definition agree :: "PerformanceCache \<Rightarrow> PerformanceCache \<Rightarrow> bool" where
  "agree c d \<longleftrightarrow> totals c = totals d \<and> pc_processStartedAt c = pc_processStartedAt d \<and> pc_lastRaw c = pc_lastRaw d"

lemma agree_sample: "agree c d \<Longrightarrow> agree (take_sample t r c) (take_sample t r d)"
  by (simp add: agree_def totals_sample sample_fields)

lemma agree_trans: "agree a b \<Longrightarrow> agree b c \<Longrightarrow> agree a c"
  by (simp add: agree_def)

lemma agree_analytics: "buildIpAnalytics q n ps cs b c = (c2, a) \<Longrightarrow> agree c2 c"
  by (auto simp: buildIpAnalytics_def Let_def agree_def totals_def split: if_split_asm)

lemma performance_step:
  assumes "handle_performance e i w fs = (fs1, r)" and "\<And>x. getById i (w_sm w) = Some x \<Longrightarrow> dataDir x = dir"
  shows "fs1 = fs \<and> reported r = [] \<or>
    (\<exists>t raw. reported r = [(t, raw)] \<and> agree (readPerformanceCache dir fs1) (take_sample t raw (readPerformanceCache dir fs)))"
proof (cases "\<exists>c2 raw a. r = Sampled c2 raw a")
  case True
  then obtain c2 raw a where r: "r = Sampled c2 raw a" by blast
  obtain x t where x: "getById i (w_sm w) = Some x"
    and b: "buildIpAnalytics (pe_whois e) (pe_nowText e) (pe_players e) (pe_connections e) t
      ((take_sample (started_text (pe_iso e) x (w_pm w)) raw (readPerformanceCache (dataDir x) fs))\<lparr>pc_updatedAt := pe_nowText e\<rparr>) = (c2, a)"
    and f: "fs1 = AList.update (dataDir x) (Some c2) fs"
    using assms(1) r
    by (auto simp: handle_performance_def writePerformanceCache_def Let_def split: option.splits sum.splits if_split_asm polled.splits prod.splits)
  let ?s = "take_sample (started_text (pe_iso e) x (w_pm w)) raw (readPerformanceCache (dataDir x) fs)"
  have ag: "agree c2 ?s" using agree_analytics [OF b] by (simp add: agree_def totals_def)
  have "readPerformanceCache dir fs1 = c2" using f assms(2) [OF x] by (simp add: readPerformanceCache_def update_conv')
  then show ?thesis using ag r assms(2) [OF x] by (auto simp: reported_def agree_def sample_fields)
next
  case False
  then show ?thesis using assms(1)
    by (auto simp: handle_performance_def writePerformanceCache_def reported_def Let_def
        split: option.splits sum.splits if_split_asm polled.splits prod.splits)
qed

lemma performance_run:
  assumes "perf_run i qs fs = (fs2, xs)" and "\<forall>(e, w) \<in> set qs. \<forall>x. getById i (w_sm w) = Some x \<longrightarrow> dataDir x = dir"
    and "agree (readPerformanceCache dir fs) (samples ys)"
  shows "agree (readPerformanceCache dir fs2) (samples (ys @ xs))"
  using assms
proof (induction i qs fs arbitrary: fs2 xs ys rule: perf_run.induct)
  case (2 i e w qs fs)
  obtain fs1 r where h: "handle_performance e i w fs = (fs1, r)" by fastforce
  obtain fs3 zs where p: "perf_run i qs fs1 = (fs3, zs)" by fastforce
  have q: "fs2 = fs3" "xs = reported r @ zs" using 2(2) h p by simp_all
  have "agree (readPerformanceCache dir fs1) (samples (ys @ reported r))"
  proof -
    have d: "\<And>x. getById i (w_sm w) = Some x \<Longrightarrow> dataDir x = dir" using 2(3) by simp
    from performance_step [OF h d] consider (same) "fs1 = fs" "reported r = []"
      | (more) t raw where "reported r = [(t, raw)]" "agree (readPerformanceCache dir fs1) (take_sample t raw (readPerformanceCache dir fs))"
      by blast
    then show ?thesis
    proof cases
      case same
      then show ?thesis using 2(4) by simp
    next
      case more
      then show ?thesis using agree_trans [OF more(2) agree_sample [OF 2(4)]] by (simp add: samples_last)
    qed
  qed
  then show ?case using 2(1) [OF h [symmetric] refl p, of "ys @ reported r"] 2(3) q by (simp add: append_assoc)
qed simp

text \<open>C26: The totals survive restarts: after any requests for the counters of an instance, whatever fails in
  between, each of the ten totals in its file is the sum, over the runs of the proxy, of the last value its
  counter had in the run.\<close>

theorem totals_over_restarts:
  assumes "perf_run i qs [] = (fs, xs)" and "\<forall>(e, w) \<in> set qs. \<forall>x. getById i (w_sm w) = Some x \<longrightarrow> dataDir x = dir"
  shows "totals (readPerformanceCache dir fs) = map (\<lambda>f. counted (history f xs)) counters"
proof -
  have "agree (readPerformanceCache dir []) (samples [])" by (simp add: readPerformanceCache_def samples_def agree_def)
  then have "agree (readPerformanceCache dir fs) (samples xs)" using performance_run [OF assms, of "[]"] by simp
  then show ?thesis by (simp add: agree_def totals_samples)
qed

definition demo_world :: "ms \<Rightarrow> world" where
  "demo_world t = \<lparr>w_sm = sample_manager, w_pm = new_ProcessManager\<lparr>pm_processes := [(''a'', Some 1)], pm_startedAt := [(''a'', t)]\<rparr>,
     w_watch = \<lparr>w_watchers = [], w_closed = []\<rparr>, w_disk = [(configPath sample_instance, JObj [(''useRestApi'', JBool True)])], w_binaries = [],
     w_cache = new_ReleaseCache, w_attempts = [], w_intentional = [], w_updating = False, w_timers = [], w_msgs = []\<rparr>"

definition demo_env :: "rat \<Rightarrow> perf_env" where
  "demo_env q = \<lparr>pe_poll = Poll_body (Inr (JObj [(''totalBytes'', JNum (Fin q))])), pe_iso = (\<lambda>t. if t = 1 then ''one'' else ''two''),
     pe_nowText = [], pe_whois = (\<lambda>_. Inl TypeError), pe_players = None, pe_connections = None, pe_read = None, pe_write = None\<rparr>"

theorem totals_over_restarts_witness:
  "\<exists>fs xs. perf_run ''a'' [(demo_env 5, demo_world 1), (demo_env 7, demo_world 1), (demo_env 3, demo_world 2)] [] = (fs, xs) \<and>
     length xs = 3 \<and> totals (readPerformanceCache (dataDir sample_instance) fs) ! 1 = 10"
proof -
  let ?qs = "[(demo_env 5, demo_world 1), (demo_env 7, demo_world 1), (demo_env 3, demo_world 2)]"
  have x: "map fst (snd (perf_run ''a'' ?qs [])) = [Some ''one'', Some ''one'', Some ''two'']" by code_simp
  have y: "map (\<lambda>p. rw_totalBytes (snd p)) (snd (perf_run ''a'' ?qs [])) = [5, 7, 3]" by code_simp
  obtain fs xs where r: "perf_run ''a'' ?qs [] = (fs, xs)" by fastforce
  have d: "\<forall>(e, w) \<in> set ?qs. \<forall>x. getById ''a'' (w_sm w) = Some x \<longrightarrow> dataDir x = dataDir sample_instance"
    by (simp add: demo_world_def sample_manager_def getById_def getAll_def add_def new_ServiceManager_def save_def set_instances_def Let_def split: if_split)
  have "history rw_totalBytes xs = [(Some ''one'', 5), (Some ''one'', 7), (Some ''two'', 3)]"
    using x y r by (auto simp: history_def map_eq_Cons_conv)
  then have "counted (history rw_totalBytes xs) = 10" by (simp add: same_run_def)
  then have "totals (readPerformanceCache (dataDir sample_instance) fs) ! 1 = 10"
    using totals_over_restarts [OF r d] by (simp add: counters_def)
  moreover have "length xs = 3" using arg_cong [OF x, of length] r by simp
  ultimately show ?thesis using r by blast
qed

section \<open>Counts of an address\<close>

definition ip_count :: "string \<Rightarrow> IpRecord list \<Rightarrow> rat" where
  "ip_count ip es = sum_list (map (\<lambda>e. connection_count (ir_connections e)) (filter (\<lambda>e. known_ip e = Some ip) es))"

definition has_ip :: "string \<Rightarrow> IpRecord list \<Rightarrow> bool" where
  "has_ip ip es \<longleftrightarrow> list_ex (\<lambda>e. known_ip e = Some ip) es"

definition conn :: "(string \<times> ip_stats) list \<Rightarrow> string \<Rightarrow> rat option" where
  "conn m ip = map_option is_connections (map_of m ip)"

definition or_zero :: "rat option \<Rightarrow> rat" where
  "or_zero q = (case q of None \<Rightarrow> 0 | Some x \<Rightarrow> x)"

lemma conn_stats: "is_connections (stats_of m ip) = or_zero (conn m ip)"
  by (simp add: stats_of_def conn_def or_zero_def split: option.split)

definition count_login :: "string \<Rightarrow> rat option \<Rightarrow> IpRecord \<Rightarrow> rat option" where
  "count_login ip q e = (if known_ip e = Some ip then Some (or_zero q + connection_count (ir_connections e)) else q)"

lemma conn_login: "conn (add_login u m e) ip = count_login ip (conn m ip) e"
  using conn_stats by (auto simp: add_login_def count_login_def conn_def Let_def update_conv' split: option.split)

lemma conn_logins: "conn (foldl (add_login u) m es) ip = foldl (count_login ip) (conn m ip) es"
  by (induction es arbitrary: m) (simp_all add: conn_login)

lemma conn_players: "conn (foldl add_player m ps) ip = foldl (count_login ip) (conn m ip) (concat (map pr_ips ps))"
  by (induction ps arbitrary: m) (simp_all add: add_player_def conn_logins)

lemma count_logins_some: "foldl (count_login ip) (Some q) es = Some (q + ip_count ip es)"
  by (induction es arbitrary: q) (simp_all add: count_login_def ip_count_def or_zero_def)

lemma count_logins: "foldl (count_login ip) None es = (if has_ip ip es then Some (ip_count ip es) else None)"
proof (induction es)
  case (Cons e es)
  then show ?case using count_logins_some [of ip "connection_count (ir_connections e)" es]
    by (cases "known_ip e = Some ip")
      (simp_all add: count_login_def [of ip None e] ip_count_def has_ip_def or_zero_def)
qed (simp add: has_ip_def)

definition count_tracked :: "string \<Rightarrow> bool \<times> rat option \<Rightarrow> IpRecord \<Rightarrow> bool \<times> rat option" where
  "count_tracked ip s e =
     (if known_ip e = Some ip then (True, Some ((if fst s then or_zero (snd s) else 0) + connection_count (ir_connections e))) else s)"

lemma conn_connection:
  "(ip \<in> set (fst (add_connection tm e)), conn (snd (add_connection tm e)) ip) = count_tracked ip (ip \<in> set (fst tm), conn (snd tm) ip) e"
  using conn_stats by (cases tm) (auto simp: add_connection_def count_tracked_def conn_def Let_def update_conv' split: option.split)

lemma conn_connections:
  "(ip \<in> set (fst (foldl add_connection tm es)), conn (snd (foldl add_connection tm es)) ip) =
   foldl (count_tracked ip) (ip \<in> set (fst tm), conn (snd tm) ip) es"
proof (induction es arbitrary: tm)
  case (Cons e es)
  show ?case using Cons.IH [of "add_connection tm e"] by (simp add: conn_connection)
qed simp

lemma tracked_some: "foldl (count_tracked ip) (True, Some q) es = (True, Some (q + ip_count ip es))"
  by (induction es arbitrary: q) (simp_all add: count_tracked_def ip_count_def or_zero_def)

lemma tracked_none: "foldl (count_tracked ip) (False, q) es = (if has_ip ip es then (True, Some (ip_count ip es)) else (False, q))"
proof (induction es)
  case (Cons e es)
  then show ?case using tracked_some [of ip "connection_count (ir_connections e)" es]
    by (cases "known_ip e = Some ip")
      (simp_all add: count_tracked_def [of ip "(False, q)" e] ip_count_def has_ip_def)
qed (simp add: has_ip_def)

text \<open>The connections counted for an address are those of the connection file when it has the address, and
  those of the logins of its players otherwise; an address in neither is not listed.\<close>

lemma connection_counts:
  "map_option is_connections (map_of (aggregateConnectionIps players connections) ip) =
     (if has_ip ip connections then Some (ip_count ip connections)
      else if has_ip ip (concat (map pr_ips players)) then Some (ip_count ip (concat (map pr_ips players))) else None)"
proof -
  have "conn (foldl add_player [] players) ip = foldl (count_login ip) None (concat (map pr_ips players))"
    by (simp add: conn_players) (simp add: conn_def)
  then show ?thesis
    using conn_connections [of ip "([], foldl add_player [] players)" connections]
    by (simp add: tracked_none count_logins aggregateConnectionIps_def conn_def [symmetric] split: if_split_asm)
qed

text \<open>At most three addresses are looked up for one request, and a private one never.\<close>

lemma lookups_few: "length (unresolved_ips byIp geo) \<le> 3"
  by (simp add: unresolved_ips_def)

lemma private_not_located: "\<not> isPublicIp ip \<Longrightarrow> resolveIpLocation whois t ip = None"
  by (simp add: resolveIpLocation_def)

lemma top_ips_ranked:
  "sorted (map (\<lambda>x. - is_connections x) (by_rank xs)) \<and> set (by_rank xs) = set xs \<and> length (by_rank xs) = length xs"
  by (simp add: by_rank_def)

end
