(* ===== verification/Information.thy ===== *)
theory Information
  imports Supervisor
begin

text \<open>
  Handlers of \<open>FerrumGUI/src/index.ts\<close> that only report: the system, the version of the GUI and of the
  releases, and the files of the pages, which a compiled GUI holds in itself. The answers of the release
  server are arguments; a file is its text.
\<close>

section \<open>System and versions\<close>

definition system_platform :: "string \<Rightarrow> string \<Rightarrow> FerrumProxyPlatform" where
  "system_platform p arch =
     (if p = ''win32'' then Windows
      else if p = ''darwin'' then Macos_arm64
      else if p = ''linux'' then (if arch = ''arm64'' then Linux_arm64 else Linux)
      else Linux)"

record version_reply =
  vr_current :: string
  vr_latest :: "GuiReleaseInfo option"
  vr_hasUpdate :: bool
  vr_selfUpdateSupported :: bool
  vr_error :: "string option"

text \<open>When the release cannot be read the current version is still reported.\<close>

definition handle_self_version :: "bool \<Rightarrow> string \<Rightarrow> GuiReleaseInfo option res \<Rightarrow> version_reply" where
  "handle_self_version isCompiled current latest =
     (let supported = isSelfUpdateSupported isCompiled current in
      case latest of
        Inl e \<Rightarrow> \<lparr>vr_current = current, vr_latest = None, vr_hasUpdate = False, vr_selfUpdateSupported = supported,
                   vr_error = Some (err_message e)\<rparr>
      | Inr r \<Rightarrow> \<lparr>vr_current = current, vr_latest = r,
                   vr_hasUpdate = (supported \<and> (case r of None \<Rightarrow> False | Some i \<Rightarrow> compareVersions (gi_version i) current > 0)),
                   vr_selfUpdateSupported = supported, vr_error = None\<rparr>)"

record update_entry =
  ue_instanceId :: string
  ue_currentVersion :: string
  ue_latestVersion :: string
  ue_hasUpdate :: bool
  ue_asset :: "ReleaseAsset option"

text \<open>The release server is asked every time.\<close>

definition handle_updates_check ::
  "ms \<Rightarrow> string \<Rightarrow> string \<Rightarrow> fetched \<Rightarrow> world \<Rightarrow> world \<times> Release \<times> update_entry list" where
  "handle_updates_check now tag nowText fetched_manifest w =
     (case getLatestRelease True now tag nowText fetched_manifest (w_cache w) of
        (c, release) \<Rightarrow>
          (w\<lparr>w_cache := c\<rparr>, release,
           map (\<lambda>x. \<lparr>ue_instanceId = inst_id x, ue_currentVersion = inst_version x, ue_latestVersion = rel_version release,
                      ue_hasUpdate = (inst_version x \<noteq> rel_version release), ue_asset = resolveAssetForPlatform release (inst_platform x)\<rparr>)
             (getAll (w_sm w))))"

definition handle_latest_release :: "ms \<Rightarrow> string \<Rightarrow> string \<Rightarrow> fetched \<Rightarrow> world \<Rightarrow> world \<times> Release" where
  "handle_latest_release now tag nowText fetched_manifest w =
     (case getLatestRelease True now tag nowText fetched_manifest (w_cache w) of (c, r) \<Rightarrow> (w\<lparr>w_cache := c\<rparr>, r))"

definition handle_releases :: "ms \<Rightarrow> string \<Rightarrow> string \<Rightarrow> fetched \<Rightarrow> world \<Rightarrow> world \<times> Release list" where
  "handle_releases now tag nowText fetched_manifest w =
     (case getAllReleases True now tag nowText fetched_manifest (w_cache w) of (c, rs) \<Rightarrow> (w\<lparr>w_cache := c\<rparr>, rs))"

section \<open>Files of the pages\<close>

type_synonym routes = "(string \<times> string) list"

definition embedded_name :: "string \<Rightarrow> string" where
  "embedded_name n = (if startsWith n ''public/'' then drop 7 n else n)"

text \<open>The routes one embedded file adds, the later ones over the earlier.\<close>

definition embed_file :: "routes \<Rightarrow> string \<times> string \<Rightarrow> routes" where
  "embed_file rs f =
     (case f of (n, blob) \<Rightarrow>
      let name = embedded_name n;
          r1 = AList.update (''/'' @ name) blob rs;
          r2 = (if name = ''favicon.svg'' then AList.update ''/favicon.png'' blob (AList.update ''/favicon.ico'' blob r1) else r1) in
      if endsWith name ''.js'' \<or> endsWith name ''.css'' then AList.update (''/assets/'' @ name) blob r2 else r2)"

definition staticRoutes :: "(string \<times> string) list \<Rightarrow> routes" where
  "staticRoutes files = foldl embed_file [] files"

definition embeddedIndexBlob :: "(string \<times> string) list \<Rightarrow> string option" where
  "embeddedIndexBlob files = map_option snd (find (\<lambda>(n, b). embedded_name n = ''index.html'') (rev files))"

definition contentType :: "string \<Rightarrow> string" where
  "contentType p =
     (case find (\<lambda>(e, t). endsWith p e)
        [(''.html'', ''text/html''), (''.js'', ''application/javascript''), (''.css'', ''text/css''), (''.json'', ''application/json''),
         (''.svg'', ''image/svg+xml''), (''.ico'', ''image/x-icon''), (''.png'', ''image/png''), (''.jpg'', ''image/jpeg''), (''.jpeg'', ''image/jpeg'')] of
        Some (e, t) \<Rightarrow> t
      | None \<Rightarrow> ''application/octet-stream'')"

datatype page = Page string string | Public_index | Next

definition serve_embedded :: "(string \<times> string) list \<Rightarrow> string \<Rightarrow> page" where
  "serve_embedded files path =
     (let p = (if path = ''/'' then ''/index.html'' else path) in
      case map_of (staticRoutes files) p of Some blob \<Rightarrow> Page (contentType p) blob | None \<Rightarrow> Next)"

text \<open>The last route: every path outside the API gets the page.\<close>

definition serve_page :: "bool \<Rightarrow> (string \<times> string) list \<Rightarrow> string \<Rightarrow> page" where
  "serve_page isCompiled files path =
     (if startsWith path ''/api/'' then Next
      else case (isCompiled, embeddedIndexBlob files) of
             (True, Some blob) \<Rightarrow> Page ''text/html'' blob
           | _ \<Rightarrow> Public_index)"

section \<open>Properties\<close>

lemma update_offered: "handle_updates_check now tag t a w = (w', r, es) \<Longrightarrow>
   map ue_instanceId es = map inst_id (getAll (w_sm w)) \<and> list_all (\<lambda>e. ue_hasUpdate e \<longleftrightarrow> ue_currentVersion e \<noteq> ue_latestVersion e) es \<and>
   w_sm w' = w_sm w"
  by (auto simp: handle_updates_check_def list_all_iff o_def split: prod.splits)

lemma version_read_failure: "vr_current (handle_self_version b c (Inl e)) = c \<and> \<not> vr_hasUpdate (handle_self_version b c (Inl e))"
  by (simp add: handle_self_version_def)

lemma embed_own: "map_of (embed_file rs (n, b)) (''/'' @ embedded_name n) = Some b"
  by (auto simp: embed_file_def Let_def update_conv')

lemma embed_keeps: "map_of rs p \<noteq> None \<Longrightarrow> map_of (embed_file rs f) p \<noteq> None"
proof -
  have up: "map_of r p \<noteq> None \<Longrightarrow> map_of (AList.update k v r) p \<noteq> None" for k v r by (simp add: update_conv')
  assume "map_of rs p \<noteq> None"
  then show ?thesis unfolding embed_file_def Let_def case_prod_beta 
    by (cases "embedded_name (fst f) = ''favicon.svg''"; cases "endsWith (embedded_name (fst f)) ''.js'' \<or> endsWith (embedded_name (fst f)) ''.css''")
      (simp_all only: refl if_True if_False up not_False_eq_True)
qed

text \<open>Every embedded file is served under its name, and every other path outside the API gets the page when it
  is embedded: a compiled GUI answers each of them.\<close>

lemma embedded_served: "f \<in> set files \<Longrightarrow> map_of (staticRoutes files) (''/'' @ embedded_name (fst f)) \<noteq> None"
proof -
  have keep: "map_of rs p \<noteq> None \<Longrightarrow> map_of (foldl embed_file rs fs) p \<noteq> None" for rs fs p
  proof (induction fs arbitrary: rs)
    case (Cons f fs)
    show ?case using Cons.IH [OF embed_keeps [OF Cons.prems, of f]] by simp
  qed simp
  have "f \<in> set files \<Longrightarrow> map_of (foldl embed_file rs files) (''/'' @ embedded_name (fst f)) \<noteq> None" for rs
  proof (induction files arbitrary: rs)
    case (Cons g gs)
    show ?case
    proof (cases "f = g")
      case True
      then have "map_of (embed_file rs g) (''/'' @ embedded_name (fst f)) \<noteq> None" using embed_own [of rs "fst g" "snd g"] by simp
      from keep [OF this] show ?thesis by simp
    next
      case False
      then show ?thesis using Cons by simp
    qed
  qed simp
  then show "f \<in> set files \<Longrightarrow> ?thesis" by (simp add: staticRoutes_def)
qed

lemma page_served:
  "(''public/index.html'', b) \<in> set files \<Longrightarrow> \<not> startsWith path ''/api/'' \<Longrightarrow> \<exists>t x. serve_page True files path = Page t x"
proof -
  assume "(''public/index.html'', b) \<in> set files" and p: "\<not> startsWith path ''/api/''"
  moreover have "embedded_name ''public/index.html'' = ''index.html''" by code_simp
  ultimately have "find (\<lambda>(n, b). embedded_name n = ''index.html'') (rev files) \<noteq> None"
    unfolding find_None_iff by auto
  then show ?thesis using p by (auto simp: serve_page_def embeddedIndexBlob_def)
qed

end
