(* ===== verification/Spec2Isabelle.thy ===== *)
theory Spec2Isabelle
  imports Utf8 Services AuthManager SecurityGuard JsValue ManagerProxy ProcessManager NetAddr ConfigValidate ConfigManager
    RelayWire RelayShareClient ProxyHeader SharedService Downloader SystemdUpdate SelfUpdate Supervisor Supervision
    Certificates LogView Pages ClientCli Metrics Information
begin

text \<open>
  \<^bold>\<open>FerrumProxy: the management GUI and the sharing client.\<close>

  FerrumProxy is a TCP and UDP proxy for game servers. The proxy itself is a Rust program; this library
  verifies the TypeScript around it. \<open>FerrumGUI/src\<close> is a web server that stores instances of the proxy,
  starts and watches them, edits their configuration, obtains certificates, updates them and itself, and
  forwards requests to their manager API. \<open>FerrumGUI/frontend/src\<close> holds its pages. \<open>FerrumClient/src\<close>
  shares a local service through a relay or directly, from a command line.

  \<^bold>\<open>How the parts interact.\<close> A request passes the guard (\<open>SecurityGuard\<close>) and the session check
  (\<open>AuthManager\<close>) and reaches a handler. The handlers of instances (\<open>Supervisor\<close>) change one state, the
  record \<open>world\<close>: the instance store (\<open>Services\<close>), the process manager (\<open>ProcessManager\<close>), configuration
  files and their watchers (\<open>ConfigManager\<close>, \<open>ConfigValidate\<close>), the release cache (\<open>Downloader\<close>), and the
  restart policy. Events of child processes and timers change the same state (\<open>Supervision\<close>).
  \<open>ManagerProxy\<close> forwards to an instance, \<open>Certificates\<close> runs privileged commands, \<open>Metrics\<close> polls an
  instance and keeps its totals, and \<open>SelfUpdate\<close> with \<open>SystemdUpdate\<close> replaces the running GUI after
  stopping the instances. The client is separate: \<open>ClientCli\<close> runs a \<open>RelayShareClient\<close>, which speaks the
  wire formats of \<open>RelayWire\<close>; \<open>SharedService\<close> accepts connections itself and prefixes them with the header of
  \<open>ProxyHeader\<close>.

  \<^bold>\<open>Theories, sources and what their lemmas show.\<close>
  \<^item> \<open>Prelude\<close>: results of code that may throw (\<open>'a res\<close>), strings and numbers of the language, and three
    interfaces: \<open>machine\<close> (an invariant kept by every step), \<open>bounded_log\<close> (a log that keeps its newest
    entries) and \<open>amortised\<close> (a credit that bounds what passes in a time).
  \<^item> \<open>Utf8\<close>: UTF-16 code units and the UTF-8 decoder of \<open>Buffer.toString\<close>. Decoding in pieces is decoding the whole
    when no cut falls inside a character.
  \<^item> \<open>JsValue\<close>, \<open>NetAddr\<close>: JSON values with their conversions; IP addresses, host names, and the domain checks of
    \<open>index.ts\<close>.
  \<^item> \<open>Services\<close>: \<open>services.ts\<close> and \<open>allocateManagerPort\<close>, \<open>ensureManagerApi\<close> of \<open>index.ts\<close>. Ids stay unique
    while no update replaces one; lookups after updates (interface \<open>registry\<close>); the least free port is chosen.
  \<^item> \<open>AuthManager\<close>: \<open>authManager.ts\<close> and the handlers of \<open>/api/auth\<close>. Guessing is bounded, a lockout lasts as
    announced, sessions refine their history, and a guarded request needs a session or the token of its route.
  \<^item> \<open>SecurityGuard\<close>: the guard of \<open>index.ts\<close>. Requests let through are bounded by burst and rate; a block is kept.
  \<^item> \<open>ManagerProxy\<close>: \<open>managerProxy.ts\<close> and the proxy handler. Forwarded paths stay below \<open>api/v1/\<close>; stored
    credentials are used for a valid session only.
  \<^item> \<open>ProcessManager\<close>: \<open>processManager.ts\<close>. One live child for each instance in the map with a pid, and none for one
    whose spawn failed; logs do not depend on the chunks unless a character is cut; after a stop of all nothing runs.
  \<^item> \<open>ConfigValidate\<close>, \<open>ConfigManager\<close>: \<open>ipBlockConfig.ts\<close> and \<open>configManager.ts\<close>. What validation accepts has ports in
    range and complete tokens; cleaning a configuration twice changes nothing.
  \<^item> \<open>Downloader\<close>, \<open>SystemdUpdate\<close>, \<open>SelfUpdate\<close>: \<open>downloader.ts\<close>, \<open>systemdUpdate.ts\<close>, \<open>selfUpdate.ts\<close>,
    \<open>selfUpdateInstaller.ts\<close>. Instances are stopped only when the update is complete on disk; the executable is
    always the old or the new program; quoted command lines are split into the same arguments.
  \<^item> \<open>Supervisor\<close>, \<open>Supervision\<close>: the listeners, timers and handlers of \<open>index.ts\<close> as functions on \<open>world\<close>, and the runs
    they form. Interface \<open>world_inv\<close> proves an invariant of all runs from the invariant of each part.
  \<^item> \<open>Certificates\<close>: the certificate functions and handlers of \<open>index.ts\<close>, \<open>certificateDomains.ts\<close>. Interface
    \<open>command_log\<close>: what holds of every request for a certificate holds of every handler. Firewall rules are
    removed again; names passed to certbot are host names.
  \<^item> \<open>Metrics\<close>: performance, address, location and relay status code of \<open>index.ts\<close>, \<open>ipAnalytics.ts\<close>. Totals over
    restarts equal a reference count; the load of the host is the share its counters give; counts of an address come from one file.
  \<^item> \<open>Information\<close>: handlers that report, and the embedded files.
  \<^item> \<open>LogView\<close>, \<open>Pages\<close>: \<open>ansi.ts\<close>; \<open>guiRestart.ts\<close>, \<open>nethernetAnalysis.ts\<close>, \<open>listenerRoutes.ts\<close> and the subscriptions
    of \<open>useWebSocket.ts\<close>. A log line set as HTML reads back as its text; the restart wait ends; the diagnostics
    panel shows plain values grouped by address.
  \<^item> \<open>RelayWire\<close>, \<open>RelayShareClient\<close>, \<open>ClientCli\<close>: \<open>relayShareClient.ts\<close> and \<open>clientCli.ts\<close>. Frames survive any
    chunking as long as bytes put back are kept; tunnel loops are bounded; options are read back; a run ends stopped,
    with its endpoint released unless a heartbeat is under way.
  \<^item> \<open>ProxyHeader\<close>, \<open>SharedService\<close>: \<open>sharedServiceManager.ts\<close>. Headers carry the addresses; the bandwidth limit
    holds over time; counters equal the open connections unless something arrives during a stop; idle peers
    expire.

  \<^bold>\<open>How the code is modelled.\<close> A class is a record and a method a function on it; a \<open>Map\<close> is an association list,
  which keeps the insertion order; an exception is the left side of a result. An asynchronous method is one step
  where nothing else can intervene that the claims depend on, and is cut into steps where it can: the heartbeat,
  refresh and stop of the relay client with what follows the stop, the waits of the start and of the stop of the
  sharing service, restart timers, and the exits of children. Calls to start and stop the sharing service follow
  each other. The
  clock, random values, and the answers of the operating system, of the network and of third-party code (YAML and
  JSON parsers, \<open>fetch\<close>, \<open>URL\<close>, certificates, the service manager) are arguments, so the theorems hold for every
  answer. Bytes on the wire are 8-bit words and lengths are checked at their width. Other numbers are exact: the
  rounding of values beyond 53 bits is not modelled, and strings hold Latin-1 characters except for log lines
  (\<open>ProcessManager\<close>, \<open>LogView\<close>), which are UTF-16 code units. A helper that stands for part of an operation lies within the source lines
  of that operation.

  \<^bold>\<open>Bounds and termination.\<close> No definition uses fuel. Loops over data are recursive functions with a measure (frames
  by bytes left, arguments by arguments left, escape sequences by text left, ports by ports left). The one loop whose
  end depends on the clock, the wait for the restarted GUI, is a partial function, and its end is a theorem.
  Constants (a thousand log entries, eight tunnels, five logins, sixty checks of an installer) are those of the
  sources.

  \<^bold>\<open>Not modelled.\<close> The React components of both front ends (\<open>App.tsx\<close>, \<open>components\<close>) and \<open>api.ts\<close>: rendering, form
  fields and one request for each route, with no decision that the server does not take again. The opening of the WebSocket in \<open>useWebSocket.ts\<close>. Translations, constants, type
  declarations, build scripts. Creating the HTTP server and serving a directory with \<open>express.static\<close>. Concurrent
  requests that interleave inside one handler of \<open>Supervisor\<close>, \<open>Certificates\<close> or \<open>Metrics\<close>, except for the events of
  children. The proxy, the Tauri shell and the Geyser extension, which are written in Rust and Java.
\<close>

end
